theory Spec2Isabelle
  imports Complex_Main "HOL-Library.Char_ord" "HOL-Library.List_Lexorder"
    "HOL-Library.Product_Lexorder" "HOL-Library.Sublist" "HOL-Library.AList"
    "HOL-Library.Multiset"
begin

section \<open>Configuration of the pattern search engine\<close>

text \<open>
  The module constants of \<^verbatim>\<open>05_build_index.py\<close> and \<^verbatim>\<open>06_search_pattern.py\<close>.
  Prices are modelled as real numbers: the rounding of 64-bit floating point arithmetic is
  outside the model, and the cast \<^verbatim>\<open>astype('float32')\<close> is a function handed to the
  model, about which nothing is assumed.
\<close>

definition WINDOW_SIZE :: nat where
  "WINDOW_SIZE = 30"

definition PREDICT_HORIZON :: nat where
  "PREDICT_HORIZON = 5"

definition BATCH_SIZE :: nat where
  "BATCH_SIZE = 500"

definition TOP_K :: nat where
  "TOP_K = 9"

definition INDEX_FILE :: string where
  "INDEX_FILE = ''pattern_search.index''"

definition META_FILE :: string where
  "META_FILE = ''pattern_metadata.parquet''"

definition DATASET_FILE :: string where
  "DATASET_FILE = ''dataset_ml_ready.parquet''"

section \<open>Python and numpy primitives\<close>

text \<open>
  A Python slice \<^verbatim>\<open>xs[start:stop]\<close> with optional bounds: a negative bound counts
  from the end, and every bound is clamped into the list.
\<close>

definition slice_bound :: "nat \<Rightarrow> int \<Rightarrow> nat" where
  "slice_bound n i = (if i < 0 then nat (int n + i) else min n (nat i))"

definition py_slice :: "'a list \<Rightarrow> int option \<Rightarrow> int option \<Rightarrow> 'a list" where
  "py_slice xs start stop =
     (let n = length xs;
          a = (case start of None \<Rightarrow> 0 | Some i \<Rightarrow> slice_bound n i);
          b = (case stop of None \<Rightarrow> n | Some j \<Rightarrow> slice_bound n j)
      in take (b - a) (drop a xs))"

text \<open>\<^verbatim>\<open>range(0, n, step)\<close> for a positive step.\<close>

definition py_range_step :: "nat \<Rightarrow> nat \<Rightarrow> nat list" where
  "py_range_step n step = map (\<lambda>j. j * step) [0..<(n + step - 1) div step]"

text \<open>\<^verbatim>\<open>np.mean\<close> and \<^verbatim>\<open>np.std\<close> (population statistics, \<^verbatim>\<open>ddof=0\<close>).\<close>

definition np_mean :: "real list \<Rightarrow> real" where
  "np_mean xs = sum_list xs / real (length xs)"

definition np_std :: "real list \<Rightarrow> real" where
  "np_std xs = sqrt (np_mean (map (\<lambda>x. (x - np_mean xs)\<^sup>2) xs))"

text \<open>
  \<^verbatim>\<open>sliding_window_view(xs, window_shape=w)\<close>: every contiguous run of \<open>w\<close> elements.
  numpy raises \<^verbatim>\<open>ValueError\<close> when \<open>w\<close> exceeds the length of \<open>xs\<close>; the only call
  site sits behind the length guard of the symbol loop, which excludes that case
  (lemma \<open>guard_excludes_ValueError\<close>), and the model returns no window there.
\<close>

definition sliding_window_view :: "'a list \<Rightarrow> nat \<Rightarrow> 'a list list" where
  "sliding_window_view xs w =
     (if length xs < w then [] else map (\<lambda>i. take w (drop i xs)) [0..<length xs - w + 1])"

section \<open>Window extraction and normalisation (symbol loop of \<^verbatim>\<open>build_index\<close>)\<close>

record price_row =
  symbol :: string
  ts :: int
  close :: real

text \<open>
  The z-score of one window, \<^verbatim>\<open>(windows - means) / (stds + 1e-6)\<close> with the statistics
  taken along \<^verbatim>\<open>axis=1\<close>, that is, per window.
\<close>

definition zscore_rows :: "real list list \<Rightarrow> real list list" where
  "zscore_rows windows =
     map (\<lambda>w. map (\<lambda>x. (x - np_mean w) / (np_std w + 1 / 1000000)) w) windows"

record symbol_result =
  norm_windows :: "real list list"
  symbols_col :: "string list"
  dates_col :: "int list"
  future_ret_col :: "real list"

text \<open>
  The body of the loop over \<^verbatim>\<open>dfs.items()\<close>, lines 65 to 94, up to the appends:
  \<open>None\<close> is the \<^verbatim>\<open>continue\<close> of a symbol with too little history.
\<close>

definition extract_symbol :: "string \<Rightarrow> price_row list \<Rightarrow> symbol_result option" where
  "extract_symbol smb sub_df =
     (let closes = map close sub_df;
          dates = map ts sub_df
      in if length closes < WINDOW_SIZE + PREDICT_HORIZON then None
         else
           let windows = sliding_window_view
                 (py_slice closes None (Some (- int PREDICT_HORIZON))) WINDOW_SIZE;
               future_prices =
                 py_slice closes (Some (int WINDOW_SIZE + int PREDICT_HORIZON - 1)) None;
               current_prices =
                 py_slice closes (Some (int WINDOW_SIZE - 1)) (Some (- int PREDICT_HORIZON));
               min_len = min (length windows) (length future_prices);
               windows' = take min_len windows;
               future_ret = map2 (\<lambda>f c. f / c - 1)
                 (take min_len future_prices) (take min_len current_prices);
               valid_dates = py_slice dates (Some (int WINDOW_SIZE - 1))
                 (Some (int WINDOW_SIZE - 1 + int min_len))
           in Some \<lparr>norm_windows = zscore_rows windows',
                    symbols_col = replicate min_len smb,
                    dates_col = valid_dates,
                    future_ret_col = future_ret\<rparr>)"

text \<open>The query's normalisation, lines 46 to 48 of \<^verbatim>\<open>06_search_pattern.py\<close>.\<close>

definition query_norm :: "real list \<Rightarrow> real list" where
  "query_norm query_prices =
     (let q_mean = np_mean query_prices;
          q_std = np_std query_prices
      in map (\<lambda>x. (x - q_mean) / (q_std + 1 / 1000000)) query_prices)"

section \<open>Files\<close>

text \<open>
  The working directory, as an association list from file names to contents. The three
  kinds of file the two scripts read and write are the price table
  (\<^verbatim>\<open>dataset_ml_ready.parquet\<close>), metadata tables (the shards and the merged
  \<^verbatim>\<open>pattern_metadata.parquet\<close>, columns symbol, date, future_return) and the persisted
  index. Any other content is \<open>Unreadable\<close>.
\<close>

record meta_row =
  meta_symbol :: string
  date :: int
  future_return :: real

datatype file_content =
    Price_table "price_row list"
  | Meta_table "meta_row list"
  | Faiss_index nat "real list list"
  | Unreadable

type_synonym filesystem = "(string \<times> file_content) list"

definition path_exists :: "filesystem \<Rightarrow> string \<Rightarrow> bool" where
  "path_exists fs p = (map_of fs p \<noteq> None)"

definition os_remove :: "string \<Rightarrow> filesystem \<Rightarrow> filesystem" where
  "os_remove p fs = AList.delete p fs"

definition write_file :: "string \<Rightarrow> file_content \<Rightarrow> filesystem \<Rightarrow> filesystem" where
  "write_file p f fs = AList.update p f fs"

text \<open>The names matched by the pattern \<^verbatim>\<open>pattern_metadata_part_*.parquet\<close>.\<close>

definition is_part_file :: "string \<Rightarrow> bool" where
  "is_part_file name =
     (prefix ''pattern_metadata_part_'' name \<and> suffix ''.parquet'' name \<and>
      length ''pattern_metadata_part_'' + length ''.parquet'' \<le> length name)"

definition glob_parts :: "filesystem \<Rightarrow> string list" where
  "glob_parts fs = filter is_part_file (remdups (map fst fs))"

text \<open>Python's \<^verbatim>\<open>str\<close> of a non-negative integer, and the shard's name (line 114).\<close>

function str_nat :: "nat \<Rightarrow> string" where
  "str_nat n =
     (if n < 10 then [''0123456789'' ! n]
      else str_nat (n div 10) @ [''0123456789'' ! (n mod 10)])"
  by pat_completeness auto
termination
  by (relation "measure (\<lambda>n. n)") auto

definition part_filename :: "nat \<Rightarrow> string" where
  "part_filename chunk_idx = ''pattern_metadata_part_'' @ str_nat chunk_idx @ ''.parquet''"

text \<open>
  \<^verbatim>\<open>pl.read_parquet("pattern_metadata_part_*.parquet")\<close>: polars expands the pattern to
  the matching paths in alphabetical order (the order of strings, character by character)
  and concatenates the tables in that order. It fails when a matched file is not a table
  of the expected kind.
\<close>

fun concat_tables :: "file_content option list \<Rightarrow> meta_row list option" where
  "concat_tables [] = Some []"
| "concat_tables (Some (Meta_table rows) # fs) =
     (case concat_tables fs of None \<Rightarrow> None | Some rest \<Rightarrow> Some (rows @ rest))"
| "concat_tables (_ # fs) = None"

definition read_parquet_glob :: "filesystem \<Rightarrow> meta_row list option" where
  "read_parquet_glob fs = concat_tables (map (map_of fs) (sort (glob_parts fs)))"

section \<open>The vector index\<close>

text \<open>
  Modelled from the spec: the vector index. The source delegates it to the library class
  \<^verbatim>\<open>faiss.IndexFlatL2\<close>, whose code is not part of the sources; the definitions of this
  section follow section 4.3 of the specification (VectorIndex). \<open>add\<close> appends rows and
  assigns the next contiguous row ids; \<open>search\<close> returns the k nearest rows by squared
  Euclidean distance, ascending, ties broken by the lower row id, and fails when the
  query's length is not the dimension; \<open>reconstruct\<close> returns the exact vector stored at
  a row id; the persisted file records the dimension and the vectors. When fewer than k
  rows are stored the library fills the result up to k entries with the label -1 and the
  largest float32 as distance.
\<close>

datatype py_error =
    ZeroDivisionError
  | IndexError
  | AssertionError
  | RuntimeError
  | ComputeError

record faiss_index =
  dim :: nat
  vectors :: "real list list"

definition IndexFlatL2 :: "nat \<Rightarrow> faiss_index" where
  "IndexFlatL2 d = \<lparr>dim = d, vectors = []\<rparr>"

definition ntotal :: "faiss_index \<Rightarrow> nat" where
  "ntotal idx = length (vectors idx)"

definition index_add :: "faiss_index \<Rightarrow> real list list \<Rightarrow> faiss_index" where
  "index_add idx X = idx\<lparr>vectors := vectors idx @ X\<rparr>"

definition index_reconstruct :: "faiss_index \<Rightarrow> nat \<Rightarrow> py_error + real list" where
  "index_reconstruct idx row_id =
     (if row_id < ntotal idx then Inr (vectors idx ! row_id) else Inl RuntimeError)"

definition sq_dist :: "real list \<Rightarrow> real list \<Rightarrow> real" where
  "sq_dist q v = sum_list (map2 (\<lambda>a b. (a - b)\<^sup>2) q v)"

definition FLT_MAX :: real where
  "FLT_MAX = 340282346638528859811704183484516925440"

definition index_search ::
  "faiss_index \<Rightarrow> real list \<Rightarrow> nat \<Rightarrow> py_error + (real list \<times> int list)" where
  "index_search idx q k =
     (if length q \<noteq> dim idx then Inl AssertionError
      else
        let scored = sort (map (\<lambda>i. (sq_dist q (vectors idx ! i), i)) [0..<ntotal idx]);
            top = take k scored;
            pad = k - length top
        in Inr (map fst top @ replicate pad FLT_MAX,
                map (\<lambda>p. int (snd p)) top @ replicate pad (- 1)))"

definition write_index :: "faiss_index \<Rightarrow> string \<Rightarrow> filesystem \<Rightarrow> filesystem" where
  "write_index idx p fs = write_file p (Faiss_index (dim idx) (vectors idx)) fs"

definition read_index :: "filesystem \<Rightarrow> string \<Rightarrow> py_error + faiss_index" where
  "read_index fs p =
     (case map_of fs p of
        Some (Faiss_index d vs) \<Rightarrow> Inr \<lparr>dim = d, vectors = vs\<rparr>
      | _ \<Rightarrow> Inl RuntimeError)"

section \<open>Batched construction (\<^verbatim>\<open>build_index\<close>)\<close>

text \<open>
  What the run does not decide by itself is collected in an environment:
  \<^item> \<open>unique_order\<close>: the symbols in the order in which
    \<^verbatim>\<open>lf.select("symbol").unique().collect()\<close> returns them; polars does not fix the
    order of \<^verbatim>\<open>unique()\<close>, it only promises each symbol of the table once
    (\<open>unique_result\<close>);
  \<^item> \<open>load_fails\<close>: the batches whose load raises (caught at line 50, the batch is skipped);
  \<^item> \<open>shard_write_fails\<close>: the batches whose shard cannot be written (caught at line 116);
  \<^item> \<open>merge_fails\<close>: whether writing the merged table raises (caught at line 139);
  \<^item> \<open>astype_float32\<close>: the rounding of a number to float32.
\<close>

record env =
  unique_order :: "string list"
  load_fails :: "nat \<Rightarrow> bool"
  shard_write_fails :: "nat \<Rightarrow> bool"
  merge_fails :: bool
  astype_float32 :: "real \<Rightarrow> real"

definition unique_result :: "price_row list \<Rightarrow> string list \<Rightarrow> bool" where
  "unique_result rows syms = (distinct syms \<and> set syms = set (map symbol rows))"

text \<open>
  Line 49: the batch's rows, sorted by symbol and then timestamp. The sort of the model
  is stable; polars leaves the order of rows with equal symbol and timestamp open, and the
  input contract (strictly increasing timestamps per symbol) excludes such rows.
\<close>

definition load_batch :: "price_row list \<Rightarrow> string list \<Rightarrow> price_row list" where
  "load_batch rows symbols_batch =
     sort_key (\<lambda>r. (symbol r, ts r)) (filter (\<lambda>r. symbol r \<in> set symbols_batch) rows)"

text \<open>
  Line 62: \<^verbatim>\<open>partition_by("symbol", as_dict=True)\<close> keeps the groups in the order in
  which their keys first appear, and the rows of a group in their order.
\<close>

definition first_seen :: "'a list \<Rightarrow> 'a list" where
  "first_seen xs = rev (remdups (rev xs))"

definition partition_by_symbol :: "price_row list \<Rightarrow> (string \<times> price_row list) list" where
  "partition_by_symbol df =
     map (\<lambda>s. (s, filter (\<lambda>r. symbol r = s) df)) (first_seen (map symbol df))"

record batch_metadata =
  md_symbol :: "string list"
  md_date :: "int list"
  md_future_return :: "real list"

text \<open>
  One round of the loop over \<^verbatim>\<open>dfs.items()\<close>, with the appends of lines 89 to 94.
  The key of a group is taken to be the symbol itself, and \<^verbatim>\<open>str(sym)\<close> to leave it
  unchanged.
\<close>

definition symbol_step ::
  "string \<times> price_row list \<Rightarrow> real list list list \<times> batch_metadata \<Rightarrow>
   real list list list \<times> batch_metadata" where
  "symbol_step item acc =
     (case extract_symbol (fst item) (snd item) of
        None \<Rightarrow> acc
      | Some r \<Rightarrow>
          (fst acc @ [norm_windows r],
           \<lparr>md_symbol = md_symbol (snd acc) @ symbols_col r,
            md_date = md_date (snd acc) @ dates_col r,
            md_future_return = md_future_return (snd acc) @ future_ret_col r\<rparr>))"

definition process_symbols ::
  "(string \<times> price_row list) list \<Rightarrow> real list list list \<times> batch_metadata" where
  "process_symbols dfs =
     fold symbol_step dfs ([], \<lparr>md_symbol = [], md_date = [], md_future_return = []\<rparr>)"

text \<open>
  Line 111: a data frame from the three columns; polars raises when the columns differ in
  length.
\<close>

definition pl_DataFrame :: "batch_metadata \<Rightarrow> meta_row list option" where
  "pl_DataFrame md =
     (if length (md_symbol md) = length (md_date md) \<and>
         length (md_date md) = length (md_future_return md)
      then Some (map (\<lambda>(s, d, f). \<lparr>meta_symbol = s, date = d, future_return = f\<rparr>)
                  (zip (md_symbol md) (zip (md_date md) (md_future_return md))))
      else None)"

record build_state =
  index :: faiss_index
  total_vectors :: nat
  files :: filesystem

text \<open>One round of the loop over the batches, lines 45 to 121.\<close>

definition batch_step ::
  "env \<Rightarrow> price_row list \<Rightarrow> nat \<times> string list \<Rightarrow> build_state \<Rightarrow> build_state" where
  "batch_step e rows item st =
     (let chunk_idx = fst item;
          symbols_batch = snd item
      in if load_fails e chunk_idx then st
         else
           let df_batch = load_batch rows symbols_batch;
               dfs = partition_by_symbol df_batch;
               batch_vectors = fst (process_symbols dfs);
               batch_md = snd (process_symbols dfs)
           in if batch_vectors = [] then st
              else
                let X_batch = map (map (astype_float32 e)) (concat batch_vectors);
                    st1 = st\<lparr>index := index_add (index st) X_batch,
                             total_vectors := total_vectors st + length X_batch\<rparr>
                in case (if shard_write_fails e chunk_idx then None
                         else pl_DataFrame batch_md) of
                     None \<Rightarrow> st1
                   | Some df_meta_chunk \<Rightarrow>
                       st1\<lparr>files := write_file (part_filename chunk_idx)
                                        (Meta_table df_meta_chunk) (files st1)\<rparr>)"

text \<open>Line 43: the symbols cut into consecutive batches.\<close>

definition symbol_chunks :: "string list \<Rightarrow> string list list" where
  "symbol_chunks all_symbols =
     map (\<lambda>i. py_slice all_symbols (Some (int i)) (Some (int i + int BATCH_SIZE)))
       (py_range_step (length all_symbols) BATCH_SIZE)"

text \<open>Lines 31 to 38: the old table and the shards left by an interrupted run are removed.\<close>

definition clean_start :: "filesystem \<Rightarrow> filesystem" where
  "clean_start fs =
     (let fs1 = (if path_exists fs META_FILE then os_remove META_FILE fs else fs)
      in fold os_remove (glob_parts fs1) fs1)"

definition run_batches :: "env \<Rightarrow> price_row list \<Rightarrow> filesystem \<Rightarrow> build_state" where
  "run_batches e rows fs =
     fold (batch_step e rows) (enumerate 0 (symbol_chunks (unique_order e)))
       \<lparr>index = IndexFlatL2 WINDOW_SIZE, total_vectors = 0, files = clean_start fs\<rparr>"

text \<open>Lines 123 to 143: the index is written, then the shards are merged.\<close>

definition finish_build :: "env \<Rightarrow> build_state \<Rightarrow> filesystem" where
  "finish_build e st =
     (let fs3 = write_index (index st) INDEX_FILE (files st);
          all_parts = glob_parts fs3
      in if all_parts = [] then fs3
         else
           (case (if merge_fails e then None else read_parquet_glob fs3) of
              None \<Rightarrow> fs3
            | Some merged \<Rightarrow> fold os_remove all_parts (write_file META_FILE (Meta_table merged) fs3)))"

text \<open>
  \<^verbatim>\<open>build_index\<close>: when the price table cannot be read the function returns at line 29
  and leaves the directory as it is.
\<close>

definition build_index :: "env \<Rightarrow> filesystem \<Rightarrow> filesystem" where
  "build_index e fs =
     (case map_of fs DATASET_FILE of
        Some (Price_table rows) \<Rightarrow> finish_build e (run_batches e rows fs)
      | _ \<Rightarrow> fs)"

section \<open>The query (\<^verbatim>\<open>search_pattern\<close>)\<close>

text \<open>
  The function prints and plots, and its Python result is \<^verbatim>\<open>None\<close> on every path
  that does not raise. A run of the model is what was printed (one constructor for each
  \<^verbatim>\<open>print\<close> statement), the panels drawn, and how the call ended.
\<close>

record panel =
  panel_row_id :: nat
  panel_symbol :: string
  panel_date :: int
  future_r :: real
  match_vector :: "real list"

datatype message =
    Starting string
  | No_index_yet
  | Loading_index
  | Loading_metadata
  | Fetching_pattern
  | Dataset_missing
  | Not_enough_data string
  | Scanning
  | Fetching_history
  | Results_header
  | Forecast real real

datatype py_result = Returns_None | Raises py_error

record run =
  printed :: "message list"
  panels :: "panel list"
  result :: py_result

text \<open>
  Line 63: the dictionary from a found id to its rank; a later entry of the same id
  replaces the earlier one. Line 65 sorts by it, ids that are not keys last (rank 999);
  Python's sort is stable.
\<close>

definition order_map :: "int list \<Rightarrow> int \<rightharpoonup> nat" where
  "order_map found_ids = fold (\<lambda>(i, id) m. m(id \<mapsto> i)) (enumerate 0 found_ids) Map.empty"

definition rank_of :: "int list \<Rightarrow> nat \<times> meta_row \<Rightarrow> nat" where
  "rank_of found_ids x =
     (case order_map found_ids (int (fst x)) of None \<Rightarrow> 999 | Some i \<Rightarrow> i)"

text \<open>
  Lines 75 to 84, for the quantities the statistics and the panel titles use: the vector
  is read back from the index and the stored return is scaled to a percentage.
\<close>

fun draw_panels :: "faiss_index \<Rightarrow> (nat \<times> meta_row) list \<Rightarrow> py_error + panel list" where
  "draw_panels idx [] = Inr []"
| "draw_panels idx (res # rest) =
     (case index_reconstruct idx (fst res) of
        Inl err \<Rightarrow> Inl err
      | Inr v \<Rightarrow>
          (case draw_panels idx rest of
             Inl err \<Rightarrow> Inl err
           | Inr ps \<Rightarrow>
               Inr (\<lparr>panel_row_id = fst res,
                     panel_symbol = meta_symbol (snd res),
                     panel_date = date (snd res),
                     future_r = future_return (snd res) * 100,
                     match_vector = v\<rparr> # ps)))"

text \<open>Lines 108 and 109; the division raises on an empty list.\<close>

definition win_rate_of :: "real list \<Rightarrow> real" where
  "win_rate_of returns_stats =
     real (length (filter (\<lambda>r. r > 0) returns_stats)) / real (length returns_stats) * 100"

definition avg_ret_of :: "real list \<Rightarrow> real" where
  "avg_ret_of returns_stats = sum_list returns_stats / real (length returns_stats)"

text \<open>Lines 53 to 117: from the search to the printed forecast.\<close>

definition search_and_report ::
  "env \<Rightarrow> filesystem \<Rightarrow> faiss_index \<Rightarrow> real list \<Rightarrow> message list \<Rightarrow> run" where
  "search_and_report e fs idx query_prices out =
     (let query_vector = map (astype_float32 e) (query_norm query_prices);
          out1 = out @ [Scanning]
      in case index_search idx query_vector TOP_K of
           Inl err \<Rightarrow> \<lparr>printed = out1, panels = [], result = Raises err\<rparr>
         | Inr DI \<Rightarrow>
             let found_ids = snd DI;
                 out2 = out1 @ [Fetching_history]
             in case map_of fs META_FILE of
                  Some (Meta_table meta) \<Rightarrow>
                    let df_results = filter (\<lambda>x. int (fst x) \<in> set found_ids) (enumerate 0 meta);
                        results_list = sort_key (rank_of found_ids) df_results;
                        out3 = out2 @ [Results_header]
                    in if 9 < length results_list
                       then \<lparr>printed = out3, panels = [], result = Raises IndexError\<rparr>
                       else
                         (case draw_panels idx results_list of
                            Inl err \<Rightarrow> \<lparr>printed = out3, panels = [], result = Raises err\<rparr>
                          | Inr ps \<Rightarrow>
                              let returns_stats = map future_r ps
                              in if returns_stats = []
                                 then \<lparr>printed = out3, panels = ps,
                                       result = Raises ZeroDivisionError\<rparr>
                                 else \<lparr>printed = out3 @
                                         [Forecast (win_rate_of returns_stats)
                                            (avg_ret_of returns_stats)],
                                       panels = ps, result = Returns_None\<rparr>)
                | _ \<Rightarrow> \<lparr>printed = out2, panels = [], result = Raises ComputeError\<rparr>)"

text \<open>Lines 13 to 51: the checks before the search.\<close>

definition search_pattern :: "env \<Rightarrow> filesystem \<Rightarrow> string \<Rightarrow> run" where
  "search_pattern e fs target_symbol =
     (let out = [Starting target_symbol]
      in if \<not> path_exists fs INDEX_FILE \<or> \<not> path_exists fs META_FILE
         then \<lparr>printed = out @ [No_index_yet], panels = [], result = Returns_None\<rparr>
         else
           (case read_index fs INDEX_FILE of
              Inl err \<Rightarrow> \<lparr>printed = out @ [Loading_index], panels = [], result = Raises err\<rparr>
            | Inr idx \<Rightarrow>
                let out1 = out @ [Loading_index, Loading_metadata, Fetching_pattern]
                in case map_of fs DATASET_FILE of
                     Some (Price_table df_prices) \<Rightarrow>
                       let matching = filter (\<lambda>r. symbol r = target_symbol) df_prices;
                           df_target = drop (length matching - WINDOW_SIZE) matching
                       in if length df_target < WINDOW_SIZE
                          then \<lparr>printed = out1 @ [Not_enough_data target_symbol],
                                panels = [], result = Returns_None\<rparr>
                          else search_and_report e fs idx (map close df_target) out1
                   | _ \<Rightarrow> \<lparr>printed = out1 @ [Dataset_missing], panels = [],
                            result = Returns_None\<rparr>))"

section \<open>Notions used to state the properties\<close>

text \<open>The number of windows one symbol contributes; a skipped symbol contributes none.\<close>

definition windows_yielded :: "symbol_result option \<Rightarrow> nat" where
  "windows_yielded res = (case res of None \<Rightarrow> 0 | Some r \<Rightarrow> length (norm_windows r))"

text \<open>
  The results of the symbols of one batch that pass the length guard, in the order of the
  symbol loop, and the records of a batch: each vector handed to \<^verbatim>\<open>index.add\<close>
  paired with the metadata row produced from the same window.
\<close>

definition batch_results :: "price_row list \<Rightarrow> string list \<Rightarrow> symbol_result list" where
  "batch_results rows symbols_batch =
     List.map_filter (\<lambda>item. extract_symbol (fst item) (snd item))
       (partition_by_symbol (load_batch rows symbols_batch))"

definition result_rows :: "symbol_result \<Rightarrow> meta_row list" where
  "result_rows r =
     map (\<lambda>(s, d, f). \<lparr>meta_symbol = s, date = d, future_return = f\<rparr>)
       (zip (symbols_col r) (zip (dates_col r) (future_ret_col r)))"

definition result_records :: "env \<Rightarrow> symbol_result \<Rightarrow> (real list \<times> meta_row) list" where
  "result_records e r = zip (map (map (astype_float32 e)) (norm_windows r)) (result_rows r)"

definition batch_records ::
  "env \<Rightarrow> price_row list \<Rightarrow> string list \<Rightarrow> (real list \<times> meta_row) list" where
  "batch_records e rows symbols_batch =
     concat (map (result_records e) (batch_results rows symbols_batch))"

text \<open>
  The batches that add to the index: those that load and hold at least one symbol with
  enough history. The records of a build are theirs, in batch order.
\<close>

definition adding_batches :: "env \<Rightarrow> price_row list \<Rightarrow> (nat \<times> string list) list" where
  "adding_batches e rows =
     filter (\<lambda>item. \<not> load_fails e (fst item) \<and> batch_results rows (snd item) \<noteq> [])
       (enumerate 0 (symbol_chunks (unique_order e)))"

definition build_records :: "env \<Rightarrow> price_row list \<Rightarrow> (real list \<times> meta_row) list" where
  "build_records e rows =
     concat (map (\<lambda>item. batch_records e rows (snd item)) (adding_batches e rows))"

text \<open>The shard a batch leaves in the directory, unless writing it fails.\<close>

definition write_shard ::
  "env \<Rightarrow> price_row list \<Rightarrow> nat \<times> string list \<Rightarrow> filesystem \<Rightarrow> filesystem" where
  "write_shard e rows item fs =
     (if shard_write_fails e (fst item) then fs
      else write_file (part_filename (fst item))
             (Meta_table (map snd (batch_records e rows (snd item)))) fs)"

text \<open>
  The row correspondence between the two persisted artifacts and the records of a build:
  both files exist, the index holds the vectors of the records and the table holds their
  metadata rows, in the same order.
\<close>

definition artifacts_aligned :: "filesystem \<Rightarrow> (real list \<times> meta_row) list \<Rightarrow> bool" where
  "artifacts_aligned fs recs =
     (case map_of fs INDEX_FILE of
        Some (Faiss_index d vs) \<Rightarrow>
          (case map_of fs META_FILE of
             Some (Meta_table ms) \<Rightarrow>
               length vs = length ms \<and> vs = map fst recs \<and> ms = map snd recs
           | _ \<Rightarrow> False)
      | _ \<Rightarrow> False)"

text \<open>The rows of an index with their squared distances to a query, nearest first.\<close>

definition scored_rows :: "faiss_index \<Rightarrow> real list \<Rightarrow> (real \<times> nat) list" where
  "scored_rows idx q = sort (map (\<lambda>i. (sq_dist q (vectors idx ! i), i)) [0..<ntotal idx])"

text \<open>The panel drawn for a row id: its metadata, the return as a percentage, its vector.\<close>

definition panel_of :: "real list list \<Rightarrow> meta_row list \<Rightarrow> nat \<Rightarrow> panel" where
  "panel_of vs meta i =
     \<lparr>panel_row_id = i, panel_symbol = meta_symbol (meta ! i), panel_date = date (meta ! i),
      future_r = future_return (meta ! i) * 100, match_vector = vs ! i\<rparr>"

text \<open>A run fails when the call ends by raising an exception.\<close>

definition ends_in_failure :: "run \<Rightarrow> bool" where
  "ends_in_failure r = (case result r of Raises err \<Rightarrow> True | Returns_None \<Rightarrow> False)"

text \<open>The shard of a batch as a directory entry: its name and its table.\<close>

definition shard_of :: "env \<Rightarrow> price_row list \<Rightarrow> nat \<times> string list \<Rightarrow> string \<times> file_content" where
  "shard_of e rows item =
     (part_filename (fst item), Meta_table (map snd (batch_records e rows (snd item))))"

section \<open>Example inputs\<close>

text \<open>
  An environment in which nothing fails and rounding leaves numbers as they are, and a
  series of 35 rows with constant price.
\<close>

definition quiet_env :: "string list \<Rightarrow> env" where
  "quiet_env order =
     \<lparr>unique_order = order, load_fails = (\<lambda>_. False), shard_write_fails = (\<lambda>_. False),
      merge_fails = False, astype_float32 = (\<lambda>x. x)\<rparr>"

definition flat_series :: "string \<Rightarrow> price_row list" where
  "flat_series smb = map (\<lambda>t. \<lparr>symbol = smb, ts = int t, close = 1\<rparr>) [0..<35]"

text \<open>A directory whose only symbol has 34 rows, one short of a window, and an old table.\<close>

definition short_history_dir :: filesystem where
  "short_history_dir =
     [(DATASET_FILE, Price_table (take 34 (flat_series ''VCB.VN''))),
      (META_FILE, Meta_table [\<lparr>meta_symbol = ''VCB.VN'', date = 29, future_return = 0\<rparr>])]"

text \<open>
  Tickers \<open>S0\<close>, \<open>S1\<close>, ... and a price table over the first \<open>n\<close> of them: ticker \<open>p\<close>
  has 35 rows of constant price, ticker \<open>q\<close> has 35 rows of rising price, and every other
  ticker has a single row, too little history for a window.
\<close>

definition ticker :: "nat \<Rightarrow> string" where
  "ticker k = ''S'' @ str_nat k"

definition rising_series :: "string \<Rightarrow> price_row list" where
  "rising_series smb = map (\<lambda>t. \<lparr>symbol = smb, ts = int t, close = 1 + real t\<rparr>) [0..<35]"

definition ticker_rows :: "nat \<Rightarrow> nat \<Rightarrow> nat \<Rightarrow> price_row list" where
  "ticker_rows p q k =
     (if k = p then flat_series (ticker k)
      else if k = q then rising_series (ticker k)
      else [\<lparr>symbol = ticker k, ts = 0, close = 1\<rparr>])"

definition universe :: "nat \<Rightarrow> nat \<Rightarrow> nat \<Rightarrow> price_row list" where
  "universe n p q = concat (map (ticker_rows p q) [0..<n])"

text \<open>The value of a decimal numeral, the inverse of \<open>str_nat\<close>.\<close>

definition digit_value :: "char \<Rightarrow> nat" where
  "digit_value c = of_char c - 48"

definition nat_of_str :: "string \<Rightarrow> nat" where
  "nat_of_str s = foldl (\<lambda>a c. 10 * a + digit_value c) 0 s"

text \<open>
  A table of 5001 tickers, cut into eleven batches. Only \<open>S1000\<close> (in batch 2) and
  \<open>S5000\<close> (in batch 10) have enough history for a window.
\<close>

definition wide_table :: "price_row list" where
  "wide_table = universe 5001 1000 5000"

definition wide_env :: env where
  "wide_env = quiet_env (map ticker [0..<5001])"

definition wide_dir :: filesystem where
  "wide_dir = [(DATASET_FILE, Price_table wide_table)]"

text \<open>
  A table of 501 tickers, cut into two batches, with two enumerations of its symbols:
  ascending and descending. Only \<open>S0\<close> and \<open>S500\<close> have enough history for a window.
\<close>

definition split_table :: "price_row list" where
  "split_table = universe 501 0 500"

definition forward_env :: env where
  "forward_env = quiet_env (map ticker [0..<501])"

definition backward_env :: env where
  "backward_env = quiet_env (rev (map ticker [0..<501]))"

definition split_dir :: filesystem where
  "split_dir = [(DATASET_FILE, Price_table split_table)]"

text \<open>An index of three rows of dimension 2, two of them equal.\<close>

definition three_rows :: faiss_index where
  "three_rows = \<lparr>dim = 2, vectors = [[1, 0], [0, 0], [0, 0]]\<rparr>"

text \<open>
  Two directories with both artifacts and 35 rows of history for \<open>VCB.VN\<close>: one with an
  index of three rows and their metadata, one with an empty index and an empty table.
\<close>

definition three_row_dir :: filesystem where
  "three_row_dir =
     [(INDEX_FILE, Faiss_index 30 [replicate 30 0, replicate 30 1, replicate 30 2]),
      (META_FILE, Meta_table
         [\<lparr>meta_symbol = ''AAA'', date = 29, future_return = 1 / 10\<rparr>,
          \<lparr>meta_symbol = ''BBB'', date = 29, future_return = - 1 / 5\<rparr>,
          \<lparr>meta_symbol = ''CCC'', date = 29, future_return = 3 / 10\<rparr>]),
      (DATASET_FILE, Price_table (flat_series ''VCB.VN''))]"

definition empty_index_dir :: filesystem where
  "empty_index_dir =
     [(INDEX_FILE, Faiss_index 30 []),
      (META_FILE, Meta_table []),
      (DATASET_FILE, Price_table (flat_series ''VCB.VN''))]"

text \<open>A directory with both artifacts and only 29 rows of history for \<open>VCB.VN\<close>.\<close>

definition thin_history_dir :: filesystem where
  "thin_history_dir =
     [(INDEX_FILE, Faiss_index 30 [replicate 30 0]),
      (META_FILE, Meta_table [\<lparr>meta_symbol = ''AAA'', date = 29, future_return = 1 / 10\<rparr>]),
      (DATASET_FILE, Price_table (take 29 (flat_series ''VCB.VN'')))]"

text \<open>
  A directory holding only the price table of one symbol with 35 rows, and an environment
  in which every shard write fails.
\<close>

definition failing_shard_env :: env where
  "failing_shard_env = (quiet_env [''VCB.VN''])\<lparr>shard_write_fails := (\<lambda>_. True)\<rparr>"

definition single_symbol_dir :: filesystem where
  "single_symbol_dir = [(DATASET_FILE, Price_table (flat_series ''VCB.VN''))]"

text \<open>The ascending enumeration of the 501 tickers, with the first batch failing to load.\<close>

definition skip_first_env :: env where
  "skip_first_env = forward_env\<lparr>load_fails := (\<lambda>j. j = 0)\<rparr>"

section \<open>Properties of window extraction\<close>

lemma np_std_nonneg: "0 \<le> np_std xs"
  unfolding np_std_def np_mean_def
  by (intro real_sqrt_ge_zero divide_nonneg_nonneg sum_list_nonneg) auto

lemma nat_int_diff: "nat (int n - int h) = n - h"
  by arith

lemma py_slice_upto_neg:
  "0 < h \<Longrightarrow> py_slice xs None (Some (- int h)) = take (length xs - h) xs"
  by (simp add: py_slice_def slice_bound_def nat_int_diff)

lemma py_slice_from:
  "py_slice xs (Some (int a)) None = drop a xs"
  by (simp add: py_slice_def slice_bound_def min_def Let_def)

lemma py_slice_from_upto_neg:
  "0 < h \<Longrightarrow> py_slice xs (Some (int a)) (Some (- int h)) = take (length xs - h - a) (drop a xs)"
  by (simp add: py_slice_def slice_bound_def min_def Let_def nat_int_diff)

lemma py_slice_from_upto:
  "py_slice xs (Some (int a)) (Some (int b)) = take (b - a) (drop a xs)"
  by (simp add: py_slice_def slice_bound_def min_def Let_def)

lemma length_sliding_window_view:
  "length (sliding_window_view xs w) = (if length xs < w then 0 else length xs - w + 1)"
  by (simp add: sliding_window_view_def)

lemma nth_sliding_window_view:
  "w \<le> length xs \<Longrightarrow> i < length xs - w + 1 \<Longrightarrow> sliding_window_view xs w ! i = take w (drop i xs)"
  unfolding sliding_window_view_def by (simp del: upt_Suc)

lemma zscore_rows_query_norm: "zscore_rows ws = map query_norm ws"
  by (simp add: zscore_rows_def query_norm_def)

lemma extract_symbol_short:
  "length sub_df < WINDOW_SIZE + PREDICT_HORIZON \<Longrightarrow> extract_symbol s sub_df = None"
  by (simp add: extract_symbol_def)

lemma sliding_take:
  assumes "w + h \<le> length xs"
  shows "sliding_window_view (take (length xs - h) xs) w =
         map (\<lambda>i. take w (drop i xs)) [0..<length xs + 1 - (w + h)]"
proof -
  let ?N = "length xs + 1 - (w + h)"
  have b: "length (take (length xs - h) xs) - w + 1 = ?N"
    using assms by simp
  have c: "\<not> length (take (length xs - h) xs) < w"
    using assms by simp
  have "take w (drop i (take (length xs - h) xs)) = take w (drop i xs)"
    if "i < ?N" for i
  proof -
    have "w \<le> length xs - h - i" using that assms by arith
    then show ?thesis by (simp add: drop_take min_def)
  qed
  then have "map (\<lambda>i. take w (drop i (take (length xs - h) xs))) [0..<?N] =
             map (\<lambda>i. take w (drop i xs)) [0..<?N]"
    by (intro map_cong refl) simp
  then show ?thesis
    unfolding sliding_window_view_def b using c by (simp only: if_False)
qed

lemma drop_as_map_nth: "drop a xs = map (\<lambda>i. xs ! (i + a)) [0..<length xs - a]"
  by (rule nth_equalityI) (simp_all add: add.commute)

lemma take_drop_as_map_nth:
  "a + n \<le> length xs \<Longrightarrow> take n (drop a xs) = map (\<lambda>i. xs ! (i + a)) [0..<n]"
  by (rule nth_equalityI) (simp_all add: add.commute)

lemma py_slice_window:
  assumes "a' = int a" and "b' = int (a + n)" and "a + n \<le> length xs"
  shows "py_slice xs (Some a') (Some b') = map (\<lambda>i. xs ! (i + a)) [0..<n]"
  unfolding assms(1,2) py_slice_from_upto
  using take_drop_as_map_nth [OF assms(3)] by simp

lemma py_slice_window_neg:
  assumes "a' = int a" and "0 < h" and "a + n + h = length xs"
  shows "py_slice xs (Some a') (Some (- int h)) = map (\<lambda>i. xs ! (i + a)) [0..<n]"
proof -
  have "length xs - h - a = n" using assms(3) by arith
  moreover have "a + n \<le> length xs" using assms(3) by arith
  ultimately show ?thesis
    unfolding assms(1) py_slice_from_upto_neg [OF assms(2)]
    using take_drop_as_map_nth [of a n xs] by simp
qed

lemma py_slice_tail:
  assumes "a' = int a" and "a + n = length xs"
  shows "py_slice xs (Some a') None = map (\<lambda>i. xs ! (i + a)) [0..<n]"
proof -
  have "length xs - a = n" using assms(2) by arith
  then show ?thesis
    unfolding assms(1) py_slice_from using drop_as_map_nth [of a xs] by simp
qed

lemma extract_symbol_long:
  assumes "WINDOW_SIZE + PREDICT_HORIZON \<le> length sub_df"
  shows "extract_symbol s sub_df =
     Some \<lparr>norm_windows = map (\<lambda>i. query_norm (take WINDOW_SIZE (drop i (map close sub_df))))
               [0..<length sub_df + 1 - (WINDOW_SIZE + PREDICT_HORIZON)],
           symbols_col = replicate (length sub_df + 1 - (WINDOW_SIZE + PREDICT_HORIZON)) s,
           dates_col = map (\<lambda>i. ts (sub_df ! (i + (WINDOW_SIZE - 1))))
               [0..<length sub_df + 1 - (WINDOW_SIZE + PREDICT_HORIZON)],
           future_ret_col = map (\<lambda>i. close (sub_df ! (i + (WINDOW_SIZE - 1) + PREDICT_HORIZON)) /
                                      close (sub_df ! (i + (WINDOW_SIZE - 1))) - 1)
               [0..<length sub_df + 1 - (WINDOW_SIZE + PREDICT_HORIZON)]\<rparr>"
proof -
  let ?L = "length sub_df"
  let ?n = "?L + 1 - (WINDOW_SIZE + PREDICT_HORIZON)"
  let ?closes = "map close sub_df"
  let ?dates = "map ts sub_df"
  have W: "0 < WINDOW_SIZE" and H: "0 < PREDICT_HORIZON"
    by (simp_all add: WINDOW_SIZE_def PREDICT_HORIZON_def)
  have wins: "sliding_window_view (py_slice ?closes None (Some (- int PREDICT_HORIZON))) WINDOW_SIZE
      = map (\<lambda>i. take WINDOW_SIZE (drop i ?closes)) [0..<?n]"
    using assms H sliding_take [of WINDOW_SIZE PREDICT_HORIZON ?closes]
    by (simp add: py_slice_upto_neg)
  have fut: "py_slice ?closes (Some (int WINDOW_SIZE + int PREDICT_HORIZON - 1)) None
      = map (\<lambda>i. ?closes ! (i + (WINDOW_SIZE - 1 + PREDICT_HORIZON))) [0..<?n]"
    by (rule py_slice_tail) (use assms W in simp_all)
  have cur: "py_slice ?closes (Some (int WINDOW_SIZE - 1)) (Some (- int PREDICT_HORIZON))
      = map (\<lambda>i. ?closes ! (i + (WINDOW_SIZE - 1))) [0..<?n]"
    by (rule py_slice_window_neg) (use assms W H in simp_all)
  have dts: "py_slice ?dates (Some (int WINDOW_SIZE - 1)) (Some (int WINDOW_SIZE - 1 + int ?n))
      = map (\<lambda>i. ?dates ! (i + (WINDOW_SIZE - 1))) [0..<?n]"
    by (rule py_slice_window) (use assms W H in simp_all)
  have inb: "i + (WINDOW_SIZE - 1) + PREDICT_HORIZON < ?L" if "i < ?n" for i
    using that assms W by arith
  have ret: "map2 (\<lambda>f c. f / c - 1)
       (map (\<lambda>i. ?closes ! (i + (WINDOW_SIZE - 1 + PREDICT_HORIZON))) [0..<?n])
       (map (\<lambda>i. ?closes ! (i + (WINDOW_SIZE - 1))) [0..<?n])
     = map (\<lambda>i. close (sub_df ! (i + (WINDOW_SIZE - 1) + PREDICT_HORIZON)) /
                   close (sub_df ! (i + (WINDOW_SIZE - 1))) - 1) [0..<?n]"
  proof (rule nth_equalityI)
    fix i assume "i < length (map2 (\<lambda>f c. f / c - 1)
       (map (\<lambda>i. ?closes ! (i + (WINDOW_SIZE - 1 + PREDICT_HORIZON))) [0..<?n])
       (map (\<lambda>i. ?closes ! (i + (WINDOW_SIZE - 1))) [0..<?n]))"
    then have i: "i < ?n" by simp
    from inb [OF i] have "i + (WINDOW_SIZE - 1) < ?L" by arith
    with inb [OF i] i show "map2 (\<lambda>f c. f / c - 1)
       (map (\<lambda>i. ?closes ! (i + (WINDOW_SIZE - 1 + PREDICT_HORIZON))) [0..<?n])
       (map (\<lambda>i. ?closes ! (i + (WINDOW_SIZE - 1))) [0..<?n]) ! i
     = map (\<lambda>i. close (sub_df ! (i + (WINDOW_SIZE - 1) + PREDICT_HORIZON)) /
                   close (sub_df ! (i + (WINDOW_SIZE - 1))) - 1) [0..<?n] ! i"
      by (simp add: add.assoc del: upt_Suc)
  qed simp
  have dts': "map (\<lambda>i. ?dates ! (i + (WINDOW_SIZE - 1))) [0..<?n] =
      map (\<lambda>i. ts (sub_df ! (i + (WINDOW_SIZE - 1)))) [0..<?n]"
  proof (intro map_cong refl)
    fix i assume "i \<in> set [0..<?n]"
    then have "i < ?n" by simp
    from inb [OF this] have "i + (WINDOW_SIZE - 1) < ?L" by arith
    then show "?dates ! (i + (WINDOW_SIZE - 1)) = ts (sub_df ! (i + (WINDOW_SIZE - 1)))"
      by simp
  qed
  have n: "min (length (map (\<lambda>i. take WINDOW_SIZE (drop i ?closes)) [0..<?n]))
               (length (map (\<lambda>i. ?closes ! (i + (WINDOW_SIZE - 1 + PREDICT_HORIZON))) [0..<?n])) = ?n"
    by simp
  have guard: "\<not> length ?closes < WINDOW_SIZE + PREDICT_HORIZON"
    using assms by simp
  show ?thesis
    unfolding extract_symbol_def Let_def wins fut cur n dts dts' zscore_rows_query_norm
    using guard ret by (simp del: upt_Suc)
qed

lemma guard_excludes_ValueError:
  "\<not> length closes < WINDOW_SIZE + PREDICT_HORIZON \<Longrightarrow>
   \<not> length (py_slice closes None (Some (- int PREDICT_HORIZON))) < WINDOW_SIZE"
proof -
  have "0 < PREDICT_HORIZON" by (simp add: PREDICT_HORIZON_def)
  then show "\<not> length closes < WINDOW_SIZE + PREDICT_HORIZON \<Longrightarrow>
   \<not> length (py_slice closes None (Some (- int PREDICT_HORIZON))) < WINDOW_SIZE"
    by (simp add: py_slice_upto_neg)
qed

lemma filter_less_upt: "n \<le> L \<Longrightarrow> filter (\<lambda>i. i < n) [0..<L] = [0..<n]"
  by (induction L) (auto simp: le_Suc_eq)

lemma valid_offsets:
  "filter (\<lambda>i. i + WINDOW_SIZE - 1 + PREDICT_HORIZON < L) [0..<L] =
   [0..<L + 1 - (WINDOW_SIZE + PREDICT_HORIZON)]"
proof -
  have "filter (\<lambda>i. i < L + 1 - (WINDOW_SIZE + PREDICT_HORIZON)) [0..<L] =
        [0..<L + 1 - (WINDOW_SIZE + PREDICT_HORIZON)]"
    by (rule filter_less_upt) (simp add: WINDOW_SIZE_def)
  moreover have "(i + WINDOW_SIZE - 1 + PREDICT_HORIZON < L) = (i < L + 1 - (WINDOW_SIZE + PREDICT_HORIZON))" for i
    by (simp add: WINDOW_SIZE_def PREDICT_HORIZON_def) arith
  ultimately show ?thesis by simp
qed

text \<open>
  Claim C5. A price series of length \<open>L\<close> yields exactly \<open>max 0 (L - W - H + 1)\<close> windows,
  one for every offset \<open>i\<close> with \<open>i + W - 1 + H < L\<close>, each the normalised run of \<open>W\<close>
  closes starting at \<open>i\<close>; the symbol is skipped (no window, no error) exactly when the
  series is shorter than \<open>W + H\<close>. So \<open>W + H\<close> points give one window and \<open>W + H - 1\<close>
  points give none.
\<close>

theorem window_count:
  "int (windows_yielded (extract_symbol smb sub_df)) =
     max 0 (int (length sub_df) - int WINDOW_SIZE - int PREDICT_HORIZON + 1) \<and>
   (extract_symbol smb sub_df = None) = (length sub_df < WINDOW_SIZE + PREDICT_HORIZON) \<and>
   (case extract_symbol smb sub_df of None \<Rightarrow> [] | Some r \<Rightarrow> norm_windows r) =
     map (\<lambda>i. query_norm (take WINDOW_SIZE (drop i (map close sub_df))))
       (filter (\<lambda>i. i + WINDOW_SIZE - 1 + PREDICT_HORIZON < length sub_df) [0..<length sub_df])"
proof (cases "length sub_df < WINDOW_SIZE + PREDICT_HORIZON")
  case True
  then have "extract_symbol smb sub_df = None" by (rule extract_symbol_short)
  moreover from True have "length sub_df + 1 - (WINDOW_SIZE + PREDICT_HORIZON) = 0" by simp
  ultimately show ?thesis using True
    unfolding valid_offsets by (simp add: windows_yielded_def)
next
  case False
  then have "WINDOW_SIZE + PREDICT_HORIZON \<le> length sub_df" by simp
  from extract_symbol_long [OF this, of smb] False show ?thesis
    unfolding valid_offsets by (simp add: windows_yielded_def) 
qed

lemma extract_symbol_SomeD:
  assumes "extract_symbol smb sub_df = Some r"
  shows "WINDOW_SIZE + PREDICT_HORIZON \<le> length sub_df"
    and "r = \<lparr>norm_windows = map (\<lambda>i. query_norm (take WINDOW_SIZE (drop i (map close sub_df))))
               [0..<length sub_df + 1 - (WINDOW_SIZE + PREDICT_HORIZON)],
           symbols_col = replicate (length sub_df + 1 - (WINDOW_SIZE + PREDICT_HORIZON)) smb,
           dates_col = map (\<lambda>i. ts (sub_df ! (i + (WINDOW_SIZE - 1))))
               [0..<length sub_df + 1 - (WINDOW_SIZE + PREDICT_HORIZON)],
           future_ret_col = map (\<lambda>i. close (sub_df ! (i + (WINDOW_SIZE - 1) + PREDICT_HORIZON)) /
                                      close (sub_df ! (i + (WINDOW_SIZE - 1))) - 1)
               [0..<length sub_df + 1 - (WINDOW_SIZE + PREDICT_HORIZON)]\<rparr>"
proof -
  show le: "WINDOW_SIZE + PREDICT_HORIZON \<le> length sub_df"
    using assms extract_symbol_short [of sub_df smb] by (cases "length sub_df < WINDOW_SIZE + PREDICT_HORIZON") simp_all
  from extract_symbol_long [OF le, of smb] assms
  show "r = \<lparr>norm_windows = map (\<lambda>i. query_norm (take WINDOW_SIZE (drop i (map close sub_df))))
               [0..<length sub_df + 1 - (WINDOW_SIZE + PREDICT_HORIZON)],
           symbols_col = replicate (length sub_df + 1 - (WINDOW_SIZE + PREDICT_HORIZON)) smb,
           dates_col = map (\<lambda>i. ts (sub_df ! (i + (WINDOW_SIZE - 1))))
               [0..<length sub_df + 1 - (WINDOW_SIZE + PREDICT_HORIZON)],
           future_ret_col = map (\<lambda>i. close (sub_df ! (i + (WINDOW_SIZE - 1) + PREDICT_HORIZON)) /
                                      close (sub_df ! (i + (WINDOW_SIZE - 1))) - 1)
               [0..<length sub_df + 1 - (WINDOW_SIZE + PREDICT_HORIZON)]\<rparr>"
    by simp
qed

lemma query_norm_constant:
  assumes "set raw = {c}"
  shows "query_norm raw = replicate (length raw) 0"
proof -
  have all: "\<And>x. x \<in> set raw \<Longrightarrow> x = c" using assms by simp
  then have raw: "raw = replicate (length raw) c"
    by (simp add: replicate_length_same)
  have ne: "raw \<noteq> []" using assms by auto
  have "sum_list raw = real (length raw) * c"
    by (subst raw) (simp add: sum_list_replicate)
  then have mu: "np_mean raw = c" using ne by (simp add: np_mean_def)
  have "map (\<lambda>x. (x - c) / (np_std raw + 1 / 1000000)) raw = map (\<lambda>x. 0) raw"
    by (intro map_cong refl) (simp add: all)
  then show ?thesis
    by (simp add: query_norm_def mu map_replicate_const)
qed

text \<open>
  Claim C6. For every extracted window the stored vector is the float32 rounding of
  \<open>(raw - \<mu>) / (\<sigma> + \<epsilon>)\<close>, where \<open>\<mu>\<close> and \<open>\<sigma>\<close> are the population mean and standard
  deviation of the \<open>W\<close> raw closes and \<open>\<epsilon>\<close> is one millionth. The divisor is positive,
  so the quotient is defined for every window; a constant window gives the zero vector.
  The query path computes its vector with the same formula and the same \<open>\<epsilon>\<close>.
\<close>

theorem shape_vector_formula:
  assumes "extract_symbol smb sub_df = Some r" and "i < length (norm_windows r)"
  shows "let raw = take WINDOW_SIZE (drop i (map close sub_df));
             mu = sum_list raw / real WINDOW_SIZE;
             sigma = sqrt (sum_list (map (\<lambda>x. (x - mu)\<^sup>2) raw) / real WINDOW_SIZE)
         in length raw = WINDOW_SIZE \<and>
            0 \<le> sigma \<and> 0 < sigma + 1 / 1000000 \<and>
            norm_windows r ! i = map (\<lambda>x. (x - mu) / (sigma + 1 / 1000000)) raw \<and>
            map (astype_float32 e) (norm_windows r ! i) = map (astype_float32 e) (query_norm raw) \<and>
            (\<forall>c. set raw = {c} \<longrightarrow> norm_windows r ! i = replicate WINDOW_SIZE 0)"
proof -
  let ?raw = "take WINDOW_SIZE (drop i (map close sub_df))"
  let ?n = "length sub_df + 1 - (WINDOW_SIZE + PREDICT_HORIZON)"
  note r = extract_symbol_SomeD [OF assms(1)]
  have i: "i < ?n" using assms(2) by (subst (asm) r(2)) simp
  have len: "length ?raw = WINDOW_SIZE" using i r(1) by simp
  have nth: "norm_windows r ! i = query_norm ?raw"
    using i by (subst r(2)) simp
  have sig: "sqrt (sum_list (map (\<lambda>x. (x - sum_list ?raw / real WINDOW_SIZE)\<^sup>2) ?raw) / real WINDOW_SIZE)
      = np_std ?raw"
    unfolding np_std_def np_mean_def len length_map by (rule refl)
  have qn: "query_norm ?raw = map (\<lambda>x. (x - sum_list ?raw / real WINDOW_SIZE) / (np_std ?raw + 1 / 1000000)) ?raw"
    unfolding query_norm_def Let_def by (simp only: np_mean_def len)
  have const: "norm_windows r ! i = replicate WINDOW_SIZE 0" if "set ?raw = {c}" for c
    using query_norm_constant [OF that] unfolding nth len by simp
  have pos: "0 < np_std ?raw + 1 / 1000000"
    using np_std_nonneg [of ?raw] by simp
  show ?thesis
    unfolding Let_def sig using len pos np_std_nonneg [of ?raw] nth qn const by simp
qed

lemma length_flat_series: "length (flat_series smb) = 35"
  by (simp add: flat_series_def)

theorem window_count_witness:
  "windows_yielded (extract_symbol ''VCB.VN'' (flat_series ''VCB.VN'')) = 1 \<and>
   windows_yielded (extract_symbol ''VCB.VN'' (take 34 (flat_series ''VCB.VN''))) = 0 \<and>
   extract_symbol ''VCB.VN'' (take 34 (flat_series ''VCB.VN'')) = None"
  using window_count [of "''VCB.VN''" "flat_series ''VCB.VN''"]
    window_count [of "''VCB.VN''" "take 34 (flat_series ''VCB.VN'')"]
  by (simp add: length_flat_series WINDOW_SIZE_def PREDICT_HORIZON_def windows_yielded_def)

lemma closes_flat_series: "map close (flat_series smb) = replicate 35 1"
  by (simp add: flat_series_def comp_def map_replicate_const)

lemma extract_flat_series:
  "extract_symbol smb (flat_series smb) =
     Some \<lparr>norm_windows = [query_norm (replicate 30 1)],
           symbols_col = [smb], dates_col = [29], future_ret_col = [0]\<rparr>"
proof -
  have "WINDOW_SIZE + PREDICT_HORIZON \<le> length (flat_series smb)"
    by (simp add: length_flat_series WINDOW_SIZE_def PREDICT_HORIZON_def)
  from extract_symbol_long [OF this, of smb] show ?thesis
    unfolding length_flat_series closes_flat_series
    by (simp add: WINDOW_SIZE_def PREDICT_HORIZON_def flat_series_def)
qed

theorem shape_vector_formula_witness:
  "extract_symbol ''VCB.VN'' (flat_series ''VCB.VN'') \<noteq> None \<and>
   0 < length (norm_windows (the (extract_symbol ''VCB.VN'' (flat_series ''VCB.VN'')))) \<and>
   norm_windows (the (extract_symbol ''VCB.VN'' (flat_series ''VCB.VN''))) ! 0 =
     replicate WINDOW_SIZE 0 \<and>
   norm_windows (the (extract_symbol ''VCB.VN'' (flat_series ''VCB.VN''))) ! 0 =
     map (\<lambda>x. (x - 1) / (0 + 1 / 1000000)) (replicate 30 1)"
proof -
  let ?r = "the (extract_symbol ''VCB.VN'' (flat_series ''VCB.VN''))"
  have s: "extract_symbol ''VCB.VN'' (flat_series ''VCB.VN'') = Some ?r"
    by (simp add: extract_flat_series)
  have i: "0 < length (norm_windows ?r)"
    by (simp add: extract_flat_series)
  have raw: "take WINDOW_SIZE (drop 0 (map close (flat_series ''VCB.VN''))) = replicate 30 1"
    by (simp add: closes_flat_series WINDOW_SIZE_def)
  have c: "set (replicate 30 (1::real)) = {1}" by simp
  from shape_vector_formula [OF s i, of "quiet_env []"] c show ?thesis
    unfolding Let_def raw by (simp add: extract_flat_series WINDOW_SIZE_def map_replicate_const sum_list_replicate)
qed

lemma draw_panels_future_r:
  "draw_panels idx results = Inr ps \<Longrightarrow>
   map future_r ps = map (\<lambda>x. future_return (snd x) * 100) results"
  by (induction results arbitrary: ps) (auto split: sum.splits)

text \<open>
  Claim C7. For the window at offset \<open>i\<close>, ending at index \<open>fin = i + W - 1\<close> of the
  series, the stored outcome is the simple return \<open>close[fin + H] / close[fin] - 1\<close>, where
  \<open>close[fin]\<close> is the last close inside the window; the paired date is the timestamp at
  \<open>fin\<close> and the paired symbol is the series' symbol. The query computes no return of its
  own: what it reports for a neighbour is the stored outcome as a percentage.
\<close>

theorem forward_outcome:
  assumes "extract_symbol smb sub_df = Some r" and "i < length (norm_windows r)"
  shows "let fin = i + WINDOW_SIZE - 1
         in fin + PREDICT_HORIZON < length sub_df \<and>
            last (take WINDOW_SIZE (drop i (map close sub_df))) = close (sub_df ! fin) \<and>
            length (future_ret_col r) = length (norm_windows r) \<and>
            length (dates_col r) = length (norm_windows r) \<and>
            length (symbols_col r) = length (norm_windows r) \<and>
            future_ret_col r ! i =
              close (sub_df ! (fin + PREDICT_HORIZON)) / close (sub_df ! fin) - 1 \<and>
            dates_col r ! i = ts (sub_df ! fin) \<and>
            symbols_col r ! i = smb \<and>
            (\<forall>idx results ps. draw_panels idx results = Inr ps \<longrightarrow>
               map future_r ps = map (\<lambda>x. future_return (snd x) * 100) results)"
proof -
  let ?n = "length sub_df + 1 - (WINDOW_SIZE + PREDICT_HORIZON)"
  let ?raw = "take WINDOW_SIZE (drop i (map close sub_df))"
  note r = extract_symbol_SomeD [OF assms(1)]
  have W: "0 < WINDOW_SIZE" by (simp add: WINDOW_SIZE_def)
  have i: "i < ?n" using assms(2) by (subst (asm) r(2)) simp
  have fin: "i + WINDOW_SIZE - 1 = i + (WINDOW_SIZE - 1)" using W by arith
  have inb: "i + (WINDOW_SIZE - 1) + PREDICT_HORIZON < length sub_df"
    using i r(1) W by arith
  have len: "length ?raw = WINDOW_SIZE" using i r(1) by simp
  have "last ?raw = ?raw ! (WINDOW_SIZE - 1)"
    using len W by (metis last_conv_nth length_0_conv less_numeral_extra(3))
  also have "\<dots> = close (sub_df ! (i + (WINDOW_SIZE - 1)))"
    using inb W by (simp add: add.commute)
  finally have lst: "last ?raw = close (sub_df ! (i + (WINDOW_SIZE - 1)))" .
  have cols: "length (future_ret_col r) = ?n" "length (dates_col r) = ?n"
    "length (symbols_col r) = ?n" "length (norm_windows r) = ?n"
    by (subst r(2), simp)+
  have vals: "future_ret_col r ! i =
      close (sub_df ! (i + (WINDOW_SIZE - 1) + PREDICT_HORIZON)) /
      close (sub_df ! (i + (WINDOW_SIZE - 1))) - 1"
    "dates_col r ! i = ts (sub_df ! (i + (WINDOW_SIZE - 1)))"
    "symbols_col r ! i = smb"
    using i by (subst r(2), simp)+
  show ?thesis
    unfolding Let_def fin using inb lst cols vals draw_panels_future_r by simp
qed

theorem forward_outcome_witness:
  "extract_symbol ''VCB.VN'' (flat_series ''VCB.VN'') \<noteq> None \<and>
   future_ret_col (the (extract_symbol ''VCB.VN'' (flat_series ''VCB.VN''))) ! 0 =
     close (flat_series ''VCB.VN'' ! 34) / close (flat_series ''VCB.VN'' ! 29) - 1 \<and>
   dates_col (the (extract_symbol ''VCB.VN'' (flat_series ''VCB.VN''))) ! 0 =
     ts (flat_series ''VCB.VN'' ! 29) \<and>
   symbols_col (the (extract_symbol ''VCB.VN'' (flat_series ''VCB.VN''))) ! 0 = ''VCB.VN''"
proof -
  let ?r = "the (extract_symbol ''VCB.VN'' (flat_series ''VCB.VN''))"
  have s: "extract_symbol ''VCB.VN'' (flat_series ''VCB.VN'') = Some ?r"
    by (simp add: extract_flat_series)
  have i: "0 < length (norm_windows ?r)"
    by (simp add: extract_flat_series)
  from forward_outcome [OF s i] show ?thesis
    unfolding Let_def by (simp add: extract_flat_series WINDOW_SIZE_def PREDICT_HORIZON_def)
qed

section \<open>Properties of the batch loop\<close>

lemma fold_symbol_step:
  "fold symbol_step dfs acc =
     (fst acc @ map norm_windows (List.map_filter (\<lambda>item. extract_symbol (fst item) (snd item)) dfs),
      \<lparr>md_symbol = md_symbol (snd acc) @
         concat (map symbols_col (List.map_filter (\<lambda>item. extract_symbol (fst item) (snd item)) dfs)),
       md_date = md_date (snd acc) @
         concat (map dates_col (List.map_filter (\<lambda>item. extract_symbol (fst item) (snd item)) dfs)),
       md_future_return = md_future_return (snd acc) @
         concat (map future_ret_col (List.map_filter (\<lambda>item. extract_symbol (fst item) (snd item)) dfs))\<rparr>)"
proof (induction dfs arbitrary: acc)
  case Nil
  show ?case by (simp add: List.map_filter_simps prod_eq_iff)
next
  case (Cons item dfs)
  show ?case
  proof (cases "extract_symbol (fst item) (snd item)")
    case None
    then have "symbol_step item acc = acc" by (simp add: symbol_step_def)
    then show ?thesis using None by (simp add: Cons.IH List.map_filter_simps)
  next
    case (Some r)
    then have "symbol_step item acc =
        (fst acc @ [norm_windows r],
         \<lparr>md_symbol = md_symbol (snd acc) @ symbols_col r,
          md_date = md_date (snd acc) @ dates_col r,
          md_future_return = md_future_return (snd acc) @ future_ret_col r\<rparr>)"
      by (simp add: symbol_step_def)
    then show ?thesis using Some by (simp add: Cons.IH List.map_filter_simps)
  qed
qed

lemma process_symbols_results:
  "process_symbols (partition_by_symbol (load_batch rows batch)) =
     (map norm_windows (batch_results rows batch),
      \<lparr>md_symbol = concat (map symbols_col (batch_results rows batch)),
       md_date = concat (map dates_col (batch_results rows batch)),
       md_future_return = concat (map future_ret_col (batch_results rows batch))\<rparr>)"
  by (simp add: process_symbols_def fold_symbol_step batch_results_def)

lemma extract_symbol_lengths:
  assumes "extract_symbol smb sub_df = Some r"
  shows "length (symbols_col r) = length (norm_windows r)"
    and "length (dates_col r) = length (norm_windows r)"
    and "length (future_ret_col r) = length (norm_windows r)"
    and "norm_windows r \<noteq> []"
proof -
  note r = extract_symbol_SomeD [OF assms]
  show "length (symbols_col r) = length (norm_windows r)"
    "length (dates_col r) = length (norm_windows r)"
    "length (future_ret_col r) = length (norm_windows r)"
    by (subst r(2), simp)+
  have "0 < length sub_df + 1 - (WINDOW_SIZE + PREDICT_HORIZON)" using r(1) by arith
  then show "norm_windows r \<noteq> []" by (subst r(2)) simp
qed

lemma batch_results_wf:
  assumes "r \<in> set (batch_results rows batch)"
  shows "length (symbols_col r) = length (norm_windows r)"
    and "length (dates_col r) = length (norm_windows r)"
    and "length (future_ret_col r) = length (norm_windows r)"
    and "norm_windows r \<noteq> []"
proof -
  from assms obtain item where "extract_symbol (fst item) (snd item) = Some r"
    by (auto simp: batch_results_def List.map_filter_def)
  from extract_symbol_lengths [OF this]
  show "length (symbols_col r) = length (norm_windows r)"
    "length (dates_col r) = length (norm_windows r)"
    "length (future_ret_col r) = length (norm_windows r)"
    "norm_windows r \<noteq> []" by simp_all
qed

lemma length_result_rows:
  "length (symbols_col r) = length (norm_windows r) \<Longrightarrow>
   length (dates_col r) = length (norm_windows r) \<Longrightarrow>
   length (future_ret_col r) = length (norm_windows r) \<Longrightarrow>
   length (result_rows r) = length (norm_windows r)"
  by (simp add: result_rows_def)

lemma zip3_concat:
  assumes "\<And>r. r \<in> set rs \<Longrightarrow> length (f r) = length (g r) \<and> length (g r) = length (h r)"
  shows "zip (concat (map f rs)) (zip (concat (map g rs)) (concat (map h rs))) =
         concat (map (\<lambda>r. zip (f r) (zip (g r) (h r))) rs)"
  using assms by (induction rs) (simp_all add: zip_append)

lemma zip_concat:
  assumes "\<And>r. r \<in> set rs \<Longrightarrow> length (f r) = length (g r)"
  shows "zip (concat (map f rs)) (concat (map g rs)) = concat (map (\<lambda>r. zip (f r) (g r)) rs)"
  using assms by (induction rs) (simp_all add: zip_append)

lemma length_concat_cong:
  assumes "\<And>r. r \<in> set rs \<Longrightarrow> length (f r) = length (g r)"
  shows "length (concat (map f rs)) = length (concat (map g rs))"
  using assms by (induction rs) simp_all

lemma pl_DataFrame_results:
  "pl_DataFrame \<lparr>md_symbol = concat (map symbols_col (batch_results rows batch)),
       md_date = concat (map dates_col (batch_results rows batch)),
       md_future_return = concat (map future_ret_col (batch_results rows batch))\<rparr>
   = Some (concat (map result_rows (batch_results rows batch)))"
proof -
  let ?rs = "batch_results rows batch"
  have eq: "length (symbols_col r) = length (dates_col r) \<and> length (dates_col r) = length (future_ret_col r)"
    if "r \<in> set ?rs" for r using batch_results_wf [OF that] by simp
  have l1: "length (concat (map symbols_col ?rs)) = length (concat (map dates_col ?rs))"
    by (rule length_concat_cong) (simp add: eq)
  have l2: "length (concat (map dates_col ?rs)) = length (concat (map future_ret_col ?rs))"
    by (rule length_concat_cong) (simp add: eq)
  have z: "zip (concat (map symbols_col ?rs))
               (zip (concat (map dates_col ?rs)) (concat (map future_ret_col ?rs))) =
           concat (map (\<lambda>r. zip (symbols_col r) (zip (dates_col r) (future_ret_col r))) ?rs)"
    by (rule zip3_concat) (simp add: eq)
  show ?thesis
    unfolding pl_DataFrame_def result_rows_def using l1 l2
    by (simp add: z map_concat comp_def)
qed

lemma map_fst_result_records:
  assumes "r \<in> set (batch_results rows batch)"
  shows "map fst (result_records e r) = map (map (astype_float32 e)) (norm_windows r)"
    and "map snd (result_records e r) = result_rows r"
  using batch_results_wf [OF assms]
  by (simp_all add: result_records_def length_result_rows)

lemma batch_records_unzip:
  "map fst (batch_records e rows batch) =
     map (map (astype_float32 e)) (concat (map norm_windows (batch_results rows batch)))"
  "map snd (batch_records e rows batch) = concat (map result_rows (batch_results rows batch))"
proof -
  let ?rs = "batch_results rows batch"
  have A: "map (\<lambda>r. map fst (result_records e r)) ?rs =
        map (\<lambda>r. map (map (astype_float32 e)) (norm_windows r)) ?rs"
    by (intro map_cong refl) (simp add: map_fst_result_records)
  have "map fst (batch_records e rows batch) = concat (map (\<lambda>r. map fst (result_records e r)) ?rs)"
    by (simp add: batch_records_def map_concat comp_def)
  also have "\<dots> = concat (map (\<lambda>r. map (map (astype_float32 e)) (norm_windows r)) ?rs)"
    by (simp only: A)
  also have "\<dots> = map (map (astype_float32 e)) (concat (map norm_windows ?rs))"
    by (simp add: map_concat comp_def)
  finally show "map fst (batch_records e rows batch) =
     map (map (astype_float32 e)) (concat (map norm_windows (batch_results rows batch)))" .
  have B: "map (\<lambda>r. map snd (result_records e r)) ?rs = map result_rows ?rs"
    by (intro map_cong refl) (simp add: map_fst_result_records)
  have "map snd (batch_records e rows batch) = concat (map (\<lambda>r. map snd (result_records e r)) ?rs)"
    by (simp add: batch_records_def map_concat comp_def)
  also have "\<dots> = concat (map result_rows ?rs)"
    by (simp only: B)
  finally show "map snd (batch_records e rows batch) = concat (map result_rows (batch_results rows batch))" .
qed

lemma batch_step_eq:
  "batch_step e rows (j, batch) st =
     (if load_fails e j \<or> batch_results rows batch = [] then st
      else st\<lparr>index := index_add (index st) (map fst (batch_records e rows batch)),
              total_vectors := total_vectors st + length (batch_records e rows batch),
              files := (if shard_write_fails e j then files st
                        else write_file (part_filename j)
                               (Meta_table (map snd (batch_records e rows batch))) (files st))\<rparr>)"
proof -
  have len: "length (batch_records e rows batch) = length (map fst (batch_records e rows batch))"
    by simp
  show ?thesis
    unfolding batch_step_def Let_def process_symbols_results fst_conv snd_conv
      pl_DataFrame_results len batch_records_unzip
    by simp
qed

lemma batch_step_shard:
  "batch_step e rows item st =
     (if load_fails e (fst item) \<or> batch_results rows (snd item) = [] then st
      else st\<lparr>index := index_add (index st) (map fst (batch_records e rows (snd item))),
              total_vectors := total_vectors st + length (batch_records e rows (snd item)),
              files := write_shard e rows item (files st)\<rparr>)"
  by (cases item) (simp add: batch_step_eq write_shard_def)

lemma fold_batch_step:
  "fold (batch_step e rows) items st =
     st\<lparr>index := index_add (index st)
            (concat (map (\<lambda>item. map fst (batch_records e rows (snd item)))
               (filter (\<lambda>item. \<not> load_fails e (fst item) \<and> batch_results rows (snd item) \<noteq> []) items))),
        total_vectors := total_vectors st +
            length (concat (map (\<lambda>item. batch_records e rows (snd item))
               (filter (\<lambda>item. \<not> load_fails e (fst item) \<and> batch_results rows (snd item) \<noteq> []) items))),
        files := fold (write_shard e rows)
               (filter (\<lambda>item. \<not> load_fails e (fst item) \<and> batch_results rows (snd item) \<noteq> []) items)
               (files st)\<rparr>"
proof (induction items arbitrary: st)
  case Nil
  show ?case by (simp add: index_add_def)
next
  case (Cons item items)
  show ?case
    unfolding fold_Cons comp_def Cons.IH batch_step_shard [of e rows item]
    by (simp add: index_add_def)
qed

lemma run_batches_eq:
  "run_batches e rows fs =
     \<lparr>index = \<lparr>dim = WINDOW_SIZE, vectors = map fst (build_records e rows)\<rparr>,
      total_vectors = length (build_records e rows),
      files = fold (write_shard e rows) (adding_batches e rows) (clean_start fs)\<rparr>"
  unfolding run_batches_def fold_batch_step
  by (simp add: build_records_def adding_batches_def index_add_def IndexFlatL2_def map_concat comp_def)

section \<open>Properties of the directory\<close>

lemma map_of_write_file: "map_of (write_file p f fs) = (map_of fs)(p \<mapsto> f)"
  by (simp add: write_file_def update_conv')

lemma map_of_os_remove: "map_of (os_remove p fs) = (map_of fs)(p := None)"
  by (simp add: os_remove_def delete_conv')

lemma map_of_fold_os_remove:
  "map_of (fold os_remove ps fs) q = (if q \<in> set ps then None else map_of fs q)"
  by (induction ps arbitrary: fs) (simp_all add: map_of_os_remove)

lemma set_glob_parts: "set (glob_parts fs) = {p. is_part_file p \<and> map_of fs p \<noteq> None}"
  by (auto simp: glob_parts_def map_of_eq_None_iff image_iff)

lemma distinct_glob_parts: "distinct (glob_parts fs)"
  by (simp add: glob_parts_def)

lemma glob_parts_empty_iff: "glob_parts fs = [] \<longleftrightarrow> (\<forall>p. is_part_file p \<longrightarrow> map_of fs p = None)"
  using set_glob_parts [of fs] by (auto simp flip: set_empty)

lemma is_part_file_part_filename: "is_part_file (part_filename j)"
  by (simp add: is_part_file_def part_filename_def suffix_def)

lemma not_part_file_fixed:
  "\<not> is_part_file INDEX_FILE" "\<not> is_part_file META_FILE" "\<not> is_part_file DATASET_FILE"
  by (simp_all add: is_part_file_def INDEX_FILE_def META_FILE_def DATASET_FILE_def)

lemma fixed_names_differ:
  "INDEX_FILE \<noteq> META_FILE" "INDEX_FILE \<noteq> DATASET_FILE" "META_FILE \<noteq> DATASET_FILE"
  by (simp_all add: INDEX_FILE_def META_FILE_def DATASET_FILE_def)

lemma map_of_clean_start:
  "map_of (clean_start fs) p = (if p = META_FILE \<or> is_part_file p then None else map_of fs p)"
proof -
  let ?fs1 = "if path_exists fs META_FILE then os_remove META_FILE fs else fs"
  have m1: "map_of ?fs1 q = (if q = META_FILE then None else map_of fs q)" for q
    by (simp add: map_of_os_remove path_exists_def)
  show ?thesis
    unfolding clean_start_def Let_def map_of_fold_os_remove set_glob_parts m1
    using not_part_file_fixed(2) by auto
qed

lemma glob_parts_clean_start: "glob_parts (clean_start fs) = []"
  by (simp add: glob_parts_empty_iff map_of_clean_start)

lemma map_of_write_shard_other:
  "\<not> is_part_file p \<Longrightarrow> map_of (write_shard e rows item fs) p = map_of fs p"
  using is_part_file_part_filename [of "fst item"]
  by (auto simp: write_shard_def map_of_write_file)

lemma map_of_fold_write_shard_other:
  "\<not> is_part_file p \<Longrightarrow> map_of (fold (write_shard e rows) items fs) p = map_of fs p"
  by (induction items arbitrary: fs) (simp_all add: map_of_write_shard_other)

lemma map_of_finish_build_index:
  "map_of (finish_build e st) INDEX_FILE = Some (Faiss_index (dim (index st)) (vectors (index st)))"
proof -
  let ?fs3 = "write_index (index st) INDEX_FILE (files st)"
  have a: "map_of ?fs3 INDEX_FILE = Some (Faiss_index (dim (index st)) (vectors (index st)))"
    by (simp add: write_index_def map_of_write_file)
  have b: "INDEX_FILE \<notin> set (glob_parts ?fs3)"
    by (simp add: set_glob_parts not_part_file_fixed)
  show ?thesis
    unfolding finish_build_def Let_def
    using a b fixed_names_differ
    by (auto simp: map_of_fold_os_remove map_of_write_file split: option.splits)
qed

section \<open>The results of one batch\<close>

lemma set_first_seen: "set (first_seen xs) = set xs"
  by (simp add: first_seen_def)

lemma distinct_first_seen: "distinct (first_seen xs)"
  by (simp add: first_seen_def)

lemma filter_load_batch:
  "filter (\<lambda>r. symbol r = s) (load_batch rows batch) =
     (if s \<in> set batch then sort_key (\<lambda>r. (symbol r, ts r)) (filter (\<lambda>r. symbol r = s) rows)
      else [])"
proof -
  have "filter (\<lambda>r. symbol r = s) (load_batch rows batch) =
        sort_key (\<lambda>r. (symbol r, ts r)) (filter (\<lambda>r. symbol r \<in> set batch \<and> symbol r = s) rows)"
    by (simp add: load_batch_def filter_sort conj_commute)
  moreover have "filter (\<lambda>r. symbol r \<in> set batch \<and> symbol r = s) rows =
        (if s \<in> set batch then filter (\<lambda>r. symbol r = s) rows else [])"
    by (auto intro: filter_cong simp: filter_empty_conv)
  ultimately show ?thesis by simp
qed

lemma set_symbols_load_batch:
  "set (map symbol (load_batch rows batch)) = {s \<in> set batch. \<exists>r \<in> set rows. symbol r = s}"
  by (auto simp: load_batch_def)

lemma map_filter_map: "List.map_filter f (map g xs) = List.map_filter (\<lambda>x. f (g x)) xs"
  by (induction xs) (simp_all add: List.map_filter_simps split: option.splits)

lemma map_filter_cong:
  "(\<And>x. x \<in> set xs \<Longrightarrow> f x = g x) \<Longrightarrow> List.map_filter f xs = List.map_filter g xs"
  by (induction xs) (simp_all add: List.map_filter_simps split: option.splits)

lemma batch_results_keys:
  "batch_results rows batch =
     List.map_filter
       (\<lambda>s. extract_symbol s (sort_key (\<lambda>r. (symbol r, ts r)) (filter (\<lambda>r. symbol r = s) rows)))
       (first_seen (map symbol (load_batch rows batch)))"
proof -
  let ?keys = "first_seen (map symbol (load_batch rows batch))"
  have "batch_results rows batch =
        List.map_filter (\<lambda>s. extract_symbol s (filter (\<lambda>r. symbol r = s) (load_batch rows batch))) ?keys"
    by (simp add: batch_results_def partition_by_symbol_def map_filter_map)
  also have "\<dots> = List.map_filter
       (\<lambda>s. extract_symbol s (sort_key (\<lambda>r. (symbol r, ts r)) (filter (\<lambda>r. symbol r = s) rows))) ?keys"
  proof (rule map_filter_cong)
    fix s assume "s \<in> set ?keys"
    then have "s \<in> set batch"
      unfolding set_first_seen set_symbols_load_batch by simp
    then show "extract_symbol s (filter (\<lambda>r. symbol r = s) (load_batch rows batch)) =
       extract_symbol s (sort_key (\<lambda>r. (symbol r, ts r)) (filter (\<lambda>r. symbol r = s) rows))"
      by (simp add: filter_load_batch)
  qed
  finally show ?thesis .
qed

lemma batch_results_set_cong:
  "set batch = set batch' \<Longrightarrow> batch_results rows batch = batch_results rows batch'"
  by (simp add: batch_results_def load_batch_def)

lemma batch_results_empty:
  assumes "\<And>s. s \<in> set batch \<Longrightarrow>
             length (filter (\<lambda>r. symbol r = s) rows) < WINDOW_SIZE + PREDICT_HORIZON"
  shows "batch_results rows batch = []"
proof -
  let ?keys = "first_seen (map symbol (load_batch rows batch))"
  have "List.map_filter
       (\<lambda>s. extract_symbol s (sort_key (\<lambda>r. (symbol r, ts r)) (filter (\<lambda>r. symbol r = s) rows)))
       ?keys = List.map_filter (\<lambda>s. None) ?keys"
  proof (rule map_filter_cong)
    fix s assume "s \<in> set ?keys"
    then have "s \<in> set batch"
      unfolding set_first_seen set_symbols_load_batch by simp
    from assms [OF this]
    show "extract_symbol s (sort_key (\<lambda>r. (symbol r, ts r)) (filter (\<lambda>r. symbol r = s) rows)) = None"
      by (intro extract_symbol_short) simp
  qed
  then show ?thesis
    unfolding batch_results_keys by (simp add: List.map_filter_def)
qed

lemma map_filter_single:
  assumes "distinct xs" and "a \<in> set xs" and "f a = Some r"
    and "\<And>x. x \<in> set xs \<Longrightarrow> x \<noteq> a \<Longrightarrow> f x = None"
  shows "List.map_filter f xs = [r]"
  using assms
proof (induction xs)
  case Nil
  then show ?case by simp
next
  case (Cons x xs)
  show ?case
  proof (cases "x = a")
    case True
    then have "a \<notin> set xs" using Cons.prems(1) by simp
    then have "List.map_filter f xs = List.map_filter (\<lambda>x. None) xs"
      using Cons.prems(4) by (intro map_filter_cong) auto
    then show ?thesis using True Cons.prems(3)
      by (simp add: List.map_filter_simps) (simp add: List.map_filter_def)
  next
    case False
    then have "f x = None" using Cons.prems(4) by simp
    moreover have "List.map_filter f xs = [r]"
      using Cons.prems False by (intro Cons.IH) auto
    ultimately show ?thesis by (simp add: List.map_filter_simps)
  qed
qed

lemma batch_results_single:
  assumes "s0 \<in> set batch"
    and "WINDOW_SIZE + PREDICT_HORIZON \<le> length (filter (\<lambda>r. symbol r = s0) rows)"
    and "\<And>s. s \<in> set batch \<Longrightarrow> s \<noteq> s0 \<Longrightarrow>
             length (filter (\<lambda>r. symbol r = s) rows) < WINDOW_SIZE + PREDICT_HORIZON"
    and "extract_symbol s0 (sort_key (\<lambda>r. (symbol r, ts r)) (filter (\<lambda>r. symbol r = s0) rows)) = Some r0"
  shows "batch_results rows batch = [r0]"
  unfolding batch_results_keys
proof (rule map_filter_single [where a = s0])
  let ?keys = "first_seen (map symbol (load_batch rows batch))"
  show "distinct ?keys" by (rule distinct_first_seen)
  have "filter (\<lambda>r. symbol r = s0) rows \<noteq> []"
    using assms(2) by (auto simp: WINDOW_SIZE_def)
  then obtain r where "r \<in> set rows" "symbol r = s0"
    by (auto simp: filter_empty_conv)
  then show "s0 \<in> set ?keys"
    unfolding set_first_seen set_symbols_load_batch using assms(1) by auto
  show "extract_symbol s0 (sort_key (\<lambda>r. (symbol r, ts r)) (filter (\<lambda>r. symbol r = s0) rows)) = Some r0"
    by (rule assms(4))
  fix s assume "s \<in> set ?keys" and ne: "s \<noteq> s0"
  then have "s \<in> set batch"
    unfolding set_first_seen set_symbols_load_batch by simp
  from assms(3) [OF this ne]
  show "extract_symbol s (sort_key (\<lambda>r. (symbol r, ts r)) (filter (\<lambda>r. symbol r = s) rows)) = None"
    by (intro extract_symbol_short) simp
qed

section \<open>The persisted index\<close>

lemma read_index_build:
  assumes "map_of fs DATASET_FILE = Some (Price_table rows)"
  shows "read_index (build_index e fs) INDEX_FILE = Inr (index (run_batches e rows fs))"
proof -
  have "build_index e fs = finish_build e (run_batches e rows fs)"
    using assms by (simp add: build_index_def)
  then show ?thesis
    by (simp add: read_index_def map_of_finish_build_index)
qed

text \<open>
  Claim C4. After a build the persisted index, freshly loaded, is the index as it stood
  in memory when the loop ended: its count is the number of vectors added, and for every
  row id assigned during the build \<open>reconstruct\<close> returns exactly the float32 vector that
  was appended at that row id.
\<close>

theorem reconstruct_round_trip:
  assumes "map_of fs DATASET_FILE = Some (Price_table rows)"
    and "row_id < total_vectors (run_batches e rows fs)"
  shows "read_index (build_index e fs) INDEX_FILE = Inr (index (run_batches e rows fs)) \<and>
         ntotal (index (run_batches e rows fs)) = total_vectors (run_batches e rows fs) \<and>
         vectors (index (run_batches e rows fs)) = map fst (build_records e rows) \<and>
         (case read_index (build_index e fs) INDEX_FILE of
            Inl err \<Rightarrow> False
          | Inr idx \<Rightarrow> index_reconstruct idx row_id = Inr (fst (build_records e rows ! row_id)))"
proof -
  have "row_id < length (build_records e rows)"
    using assms(2) by (simp add: run_batches_eq)
  then show ?thesis
    unfolding read_index_build [OF assms(1)]
    by (simp add: run_batches_eq index_reconstruct_def ntotal_def)
qed

lemma sorted_map_upt:
  assumes "\<And>i j. i \<le> j \<Longrightarrow> f i \<le> f j"
  shows "sorted (map f [0..<n])"
  by (auto simp: sorted_iff_nth_mono assms)

lemma sort_flat_series:
  "sort_key (\<lambda>r. (symbol r, ts r)) (flat_series smb) = flat_series smb"
proof (rule sort_key_id_if_sorted)
  have "map (\<lambda>r. (symbol r, ts r)) (flat_series smb) = map (\<lambda>t. (smb, int t)) [0..<35]"
    by (simp add: flat_series_def)
  moreover have "sorted (map (\<lambda>t. (smb, int t)) [0..<35])"
    by (rule sorted_map_upt) (simp add: less_eq_prod_def)
  ultimately show "sorted (map (\<lambda>r. (symbol r, ts r)) (flat_series smb))" by simp
qed

lemma filter_flat_series:
  "filter (\<lambda>r. symbol r = s) (flat_series smb) = (if s = smb then flat_series smb else [])"
  by (auto simp: flat_series_def filter_empty_conv)

lemma symbol_chunks_one: "symbol_chunks [s] = [[s]]"
  by (simp add: symbol_chunks_def py_range_step_def py_slice_def slice_bound_def BATCH_SIZE_def)

lemma batch_results_flat:
  "batch_results (flat_series smb) [smb] =
     [\<lparr>norm_windows = [query_norm (replicate 30 1)],
       symbols_col = [smb], dates_col = [29], future_ret_col = [0]\<rparr>]"
  by (rule batch_results_single [where ?s0.0 = smb])
     (simp_all add: filter_flat_series sort_flat_series extract_flat_series
        length_flat_series WINDOW_SIZE_def PREDICT_HORIZON_def)

lemma build_records_flat:
  "build_records (quiet_env [smb]) (flat_series smb) =
     [(query_norm (replicate 30 1), \<lparr>meta_symbol = smb, date = 29, future_return = 0\<rparr>)]"
  by (simp add: build_records_def adding_batches_def symbol_chunks_one quiet_env_def
      batch_results_flat batch_records_def result_records_def result_rows_def)

theorem reconstruct_round_trip_witness:
  "map_of [(DATASET_FILE, Price_table (flat_series ''VCB.VN''))] DATASET_FILE =
     Some (Price_table (flat_series ''VCB.VN'')) \<and>
   0 < total_vectors (run_batches (quiet_env [''VCB.VN'']) (flat_series ''VCB.VN'')
         [(DATASET_FILE, Price_table (flat_series ''VCB.VN''))]) \<and>
   (case read_index (build_index (quiet_env [''VCB.VN''])
            [(DATASET_FILE, Price_table (flat_series ''VCB.VN''))]) INDEX_FILE of
      Inl err \<Rightarrow> False
    | Inr idx \<Rightarrow> index_reconstruct idx 0 = Inr (query_norm (replicate 30 1)))"
proof -
  let ?fs = "[(DATASET_FILE, Price_table (flat_series ''VCB.VN''))]"
  have a: "map_of ?fs DATASET_FILE = Some (Price_table (flat_series ''VCB.VN''))" by simp
  have b: "0 < total_vectors (run_batches (quiet_env [''VCB.VN'']) (flat_series ''VCB.VN'') ?fs)"
    by (simp add: run_batches_eq build_records_flat)
  from reconstruct_round_trip [OF a b] a b show ?thesis
    by (auto simp: build_records_flat split: sum.splits)
qed

section \<open>A build that adds no vector\<close>

lemma batch_records_nonempty:
  assumes "batch_results rows batch \<noteq> []"
  shows "batch_records e rows batch \<noteq> []"
proof -
  from assms obtain r where r: "r \<in> set (batch_results rows batch)"
    by (cases "batch_results rows batch") auto
  have "length (result_records e r) = length (norm_windows r)"
    using batch_results_wf [OF r] by (simp add: result_records_def length_result_rows)
  then have "result_records e r \<noteq> []"
    using batch_results_wf(4) [OF r] by auto
  then show ?thesis using r by (auto simp: batch_records_def)
qed

lemma no_vectors_no_adding_batch:
  assumes "build_records e rows = []"
  shows "adding_batches e rows = []"
proof (rule ccontr)
  assume "adding_batches e rows \<noteq> []"
  then obtain item where item: "item \<in> set (adding_batches e rows)"
    by (cases "adding_batches e rows") auto
  then have "batch_results rows (snd item) \<noteq> []"
    by (simp add: adding_batches_def)
  from batch_records_nonempty [OF this, of e] item assms show False
    by (auto simp: build_records_def)
qed

lemma finish_build_no_shard:
  assumes "glob_parts fs = []"
  shows "finish_build e \<lparr>index = idx, total_vectors = n, files = fs\<rparr> = write_index idx INDEX_FILE fs"
proof -
  have "glob_parts (write_index idx INDEX_FILE fs) = []"
    using assms not_part_file_fixed(1)
    by (auto simp: glob_parts_empty_iff write_index_def map_of_write_file)
  then show ?thesis by (simp add: finish_build_def)
qed

text \<open>
  Claim C10. When the price table is readable and the build ends with zero vectors, the
  index file is written with count 0 and no metadata table exists afterwards (one that
  existed before has been removed at the start); a query run on that directory stops at
  the check for missing artifacts, prints that there is no index yet and returns.
\<close>

theorem zero_vector_build:
  assumes "map_of fs DATASET_FILE = Some (Price_table rows)"
    and "total_vectors (run_batches e rows fs) = 0"
  shows "read_index (build_index e fs) INDEX_FILE = Inr \<lparr>dim = WINDOW_SIZE, vectors = []\<rparr> \<and>
         \<not> path_exists (build_index e fs) META_FILE \<and>
         search_pattern e' (build_index e fs) target_symbol =
           \<lparr>printed = [Starting target_symbol, No_index_yet], panels = [],
            result = Returns_None\<rparr>"
proof -
  have recs: "build_records e rows = []"
    using assms(2) by (simp add: run_batches_eq)
  have rb: "run_batches e rows fs =
      \<lparr>index = \<lparr>dim = WINDOW_SIZE, vectors = []\<rparr>, total_vectors = 0, files = clean_start fs\<rparr>"
    by (simp add: run_batches_eq recs no_vectors_no_adding_batch [OF recs])
  have bi: "build_index e fs = write_index \<lparr>dim = WINDOW_SIZE, vectors = []\<rparr> INDEX_FILE (clean_start fs)"
    using assms(1) by (simp add: build_index_def rb finish_build_no_shard glob_parts_clean_start)
  have idx: "read_index (build_index e fs) INDEX_FILE = Inr \<lparr>dim = WINDOW_SIZE, vectors = []\<rparr>"
    by (simp add: bi read_index_def write_index_def map_of_write_file)
  have meta: "\<not> path_exists (build_index e fs) META_FILE"
    using fixed_names_differ(1)
    by (auto simp: bi path_exists_def write_index_def map_of_write_file map_of_clean_start)
  from meta have "search_pattern e' (build_index e fs) target_symbol =
           \<lparr>printed = [Starting target_symbol, No_index_yet], panels = [],
            result = Returns_None\<rparr>"
    by (simp add: search_pattern_def)
  with idx meta show ?thesis by simp
qed

theorem zero_vector_build_witness:
  "map_of short_history_dir DATASET_FILE = Some (Price_table (take 34 (flat_series ''VCB.VN''))) \<and>
   path_exists short_history_dir META_FILE \<and>
   total_vectors (run_batches (quiet_env [''VCB.VN'']) (take 34 (flat_series ''VCB.VN''))
      short_history_dir) = 0 \<and>
   read_index (build_index (quiet_env [''VCB.VN'']) short_history_dir) INDEX_FILE =
      Inr \<lparr>dim = WINDOW_SIZE, vectors = []\<rparr> \<and>
   \<not> path_exists (build_index (quiet_env [''VCB.VN'']) short_history_dir) META_FILE \<and>
   search_pattern (quiet_env [''VCB.VN'']) (build_index (quiet_env [''VCB.VN'']) short_history_dir)
       ''VCB.VN'' =
     \<lparr>printed = [Starting ''VCB.VN'', No_index_yet], panels = [], result = Returns_None\<rparr>"
proof -
  let ?rows = "take 34 (flat_series ''VCB.VN'')"
  have a: "map_of short_history_dir DATASET_FILE = Some (Price_table ?rows)"
    by (simp add: short_history_dir_def)
  have m: "path_exists short_history_dir META_FILE"
    by (simp add: short_history_dir_def path_exists_def fixed_names_differ)
  have "batch_results ?rows batch = []" for batch
  proof (rule batch_results_empty)
    fix s
    have "length (filter (\<lambda>r. symbol r = s) ?rows) \<le> length ?rows" by (rule length_filter_le)
    then show "length (filter (\<lambda>r. symbol r = s) ?rows) < WINDOW_SIZE + PREDICT_HORIZON"
      by (simp add: length_flat_series WINDOW_SIZE_def PREDICT_HORIZON_def)
  qed
  then have "build_records (quiet_env [''VCB.VN'']) ?rows = []"
    by (simp add: build_records_def adding_batches_def)
  then have b: "total_vectors (run_batches (quiet_env [''VCB.VN'']) ?rows short_history_dir) = 0"
    by (simp add: run_batches_eq)
  from zero_vector_build [OF a b, of "quiet_env [''VCB.VN'']" "''VCB.VN''"] a m b
  show ?thesis by simp
qed

section \<open>Shard names\<close>

lemma digit_value_nth: "n < 10 \<Longrightarrow> digit_value (''0123456789'' ! n) = n"
proof -
  assume "n < 10"
  then have "n \<in> {0, 1, 2, 3, 4, 5, 6, 7, 8, 9}" by auto
  then show ?thesis by (auto simp: digit_value_def)
qed

lemma nat_of_str_str_nat: "nat_of_str (str_nat n) = n"
proof (induction n rule: str_nat.induct)
  case (1 n)
  show ?case
  proof (cases "n < 10")
    case True
    then show ?thesis
      by (subst str_nat.simps) (simp add: nat_of_str_def digit_value_nth)
  next
    case False
    with 1 have "nat_of_str (str_nat (n div 10)) = n div 10" by simp
    with False show ?thesis
      by (subst str_nat.simps) (simp add: nat_of_str_def digit_value_nth)
  qed
qed

lemma str_nat_inj: "str_nat m = str_nat n \<Longrightarrow> m = n"
  by (metis nat_of_str_str_nat)

lemma part_filename_inj: "part_filename i = part_filename j \<Longrightarrow> i = j"
  by (simp add: part_filename_def str_nat_inj)

section \<open>The example price table\<close>

lemma ticker_inj: "ticker i = ticker j \<Longrightarrow> i = j"
  by (simp add: ticker_def str_nat_inj)

lemma symbol_ticker_rows: "r \<in> set (ticker_rows p q k) \<Longrightarrow> symbol r = ticker k"
  by (auto simp: ticker_rows_def flat_series_def rising_series_def split: if_splits)

lemma ticker_rows_nonempty: "ticker_rows p q k \<noteq> []"
  by (simp add: ticker_rows_def flat_series_def rising_series_def)

lemma filter_ticker_rows:
  "filter (\<lambda>r. symbol r = ticker j) (ticker_rows p q k) = (if k = j then ticker_rows p q k else [])"
  using symbol_ticker_rows [of _ p q k] ticker_inj [of k j]
  by (auto simp: filter_empty_conv filter_id_conv)

lemma filter_universe:
  "filter (\<lambda>r. symbol r = ticker j) (universe n p q) = (if j < n then ticker_rows p q j else [])"
  unfolding universe_def
proof (induction n)
  case 0
  show ?case by simp
next
  case (Suc n)
  then show ?case by (auto simp: filter_ticker_rows)
qed

lemma symbols_universe: "symbol ` set (universe n p q) = ticker ` {0..<n}"
proof -
  have "symbol ` set (ticker_rows p q k) = {ticker k}" for k
    using symbol_ticker_rows [of _ p q k] ticker_rows_nonempty [of p q k]
    by (cases "ticker_rows p q k") auto
  then show ?thesis by (auto simp: universe_def image_UN)
qed

lemma unique_result_tickers: "unique_result (universe n p q) (map ticker [0..<n])"
  by (auto simp: unique_result_def symbols_universe distinct_map inj_on_def dest: ticker_inj)

lemma unique_result_rev: "unique_result rows syms \<Longrightarrow> unique_result rows (rev syms)"
  by (simp add: unique_result_def)

lemma sort_rising_series:
  "sort_key (\<lambda>r. (symbol r, ts r)) (rising_series smb) = rising_series smb"
proof (rule sort_key_id_if_sorted)
  have "map (\<lambda>r. (symbol r, ts r)) (rising_series smb) = map (\<lambda>t. (smb, int t)) [0..<35]"
    by (simp add: rising_series_def)
  moreover have "sorted (map (\<lambda>t. (smb, int t)) [0..<35])"
    by (rule sorted_map_upt) (simp add: less_eq_prod_def)
  ultimately show "sorted (map (\<lambda>r. (symbol r, ts r)) (rising_series smb))" by simp
qed

lemma length_rising_series: "length (rising_series smb) = 35"
  by (simp add: rising_series_def)

lemma extract_rising_series:
  "extract_symbol smb (rising_series smb) =
     Some \<lparr>norm_windows = [query_norm (map (\<lambda>t. 1 + real t) [0..<30])],
           symbols_col = [smb], dates_col = [29], future_ret_col = [1 / 6]\<rparr>"
proof -
  have "WINDOW_SIZE + PREDICT_HORIZON \<le> length (rising_series smb)"
    by (simp add: length_rising_series WINDOW_SIZE_def PREDICT_HORIZON_def)
  moreover have "take 30 (map close (rising_series smb)) = map (\<lambda>t. 1 + real t) [0..<30]"
    by (simp add: rising_series_def take_map comp_def)
  ultimately show ?thesis
    using extract_symbol_long [of "rising_series smb" smb]
    unfolding length_rising_series
    by (simp add: WINDOW_SIZE_def PREDICT_HORIZON_def) (simp add: rising_series_def)
qed

lemma symbol_chunks_eq:
  "symbol_chunks xs =
     map (\<lambda>j. take BATCH_SIZE (drop (j * BATCH_SIZE) xs))
       [0..<(length xs + BATCH_SIZE - 1) div BATCH_SIZE]"
proof -
  have "py_slice xs (Some (int i)) (Some (int i + int BATCH_SIZE)) = take BATCH_SIZE (drop i xs)" for i
    using py_slice_from_upto [of xs i "i + BATCH_SIZE"] by simp
  then show ?thesis
    by (simp add: symbol_chunks_def py_range_step_def comp_def)
qed

lemma enumerate_map_upt: "enumerate 0 (map f [0..<n]) = map (\<lambda>j. (j, f j)) [0..<n]"
  by (rule nth_equalityI) (simp_all add: nth_enumerate_eq)

lemma take_upt_min: "take m [i..<n] = [i..<min (i + m) n]"
  by (cases "i + m \<le> n") (simp_all add: min_def)

lemma set_chunk_tickers:
  "set (take m (drop i (map ticker [0..<n]))) = ticker ` {i..<min (i + m) n}"
  by (simp add: drop_map take_map take_upt_min)

lemma set_chunk_tickers_rev:
  "set (take m (drop i (rev (map ticker [0..<n])))) = ticker ` {n - i - m..<n - i}"
proof -
  have "take m (drop i (rev (map ticker [0..<n]))) =
        rev (map ticker (drop (n - i - m) (take (n - i) [0..<n])))"
    by (simp add: drop_rev take_rev take_map drop_map)
  also have "set \<dots> = ticker ` {n - i - m..<n - i}"
    by (simp add: take_upt_min min_def)
  finally show ?thesis .
qed

lemma length_ticker_rows_thin:
  "k \<noteq> p \<Longrightarrow> k \<noteq> q \<Longrightarrow> length (ticker_rows p q k) < WINDOW_SIZE + PREDICT_HORIZON"
  by (simp add: ticker_rows_def WINDOW_SIZE_def)

lemma universe_batch_none:
  assumes "set batch \<subseteq> range ticker" and "ticker p \<notin> set batch" and "ticker q \<notin> set batch"
  shows "batch_results (universe n p q) batch = []"
proof (rule batch_results_empty)
  fix s assume s: "s \<in> set batch"
  with assms(1) obtain k where k: "s = ticker k" by auto
  with s assms(2,3) have "k \<noteq> p" "k \<noteq> q" by auto
  then show "length (filter (\<lambda>r. symbol r = s) (universe n p q)) < WINDOW_SIZE + PREDICT_HORIZON"
    unfolding k filter_universe using length_ticker_rows_thin [of k p q]
    by (simp add: WINDOW_SIZE_def)
qed

lemma universe_batch_flat:
  assumes "set batch \<subseteq> range ticker" and "ticker p \<in> set batch" and "ticker q \<notin> set batch"
    and "p < n"
  shows "batch_results (universe n p q) batch =
     [\<lparr>norm_windows = [query_norm (replicate 30 1)],
       symbols_col = [ticker p], dates_col = [29], future_ret_col = [0]\<rparr>]"
proof (rule batch_results_single [where ?s0.0 = "ticker p"])
  show "ticker p \<in> set batch" by (rule assms(2))
  have rows: "filter (\<lambda>r. symbol r = ticker p) (universe n p q) = flat_series (ticker p)"
    using assms(4) by (simp add: filter_universe ticker_rows_def)
  show "WINDOW_SIZE + PREDICT_HORIZON \<le> length (filter (\<lambda>r. symbol r = ticker p) (universe n p q))"
    unfolding rows by (simp add: length_flat_series WINDOW_SIZE_def PREDICT_HORIZON_def)
  show "extract_symbol (ticker p)
     (sort_key (\<lambda>r. (symbol r, ts r)) (filter (\<lambda>r. symbol r = ticker p) (universe n p q))) =
     Some \<lparr>norm_windows = [query_norm (replicate 30 1)],
       symbols_col = [ticker p], dates_col = [29], future_ret_col = [0]\<rparr>"
    unfolding rows sort_flat_series by (rule extract_flat_series)
  fix s assume s: "s \<in> set batch" and ne: "s \<noteq> ticker p"
  with assms(1) obtain k where k: "s = ticker k" by auto
  with s ne assms(3) have "k \<noteq> p" "k \<noteq> q" by auto
  then show "length (filter (\<lambda>r. symbol r = s) (universe n p q)) < WINDOW_SIZE + PREDICT_HORIZON"
    unfolding k filter_universe using length_ticker_rows_thin [of k p q]
    by (simp add: WINDOW_SIZE_def)
qed

lemma universe_batch_rising:
  assumes "set batch \<subseteq> range ticker" and "ticker q \<in> set batch" and "ticker p \<notin> set batch"
    and "q < n" and "p \<noteq> q"
  shows "batch_results (universe n p q) batch =
     [\<lparr>norm_windows = [query_norm (map (\<lambda>t. 1 + real t) [0..<30])],
       symbols_col = [ticker q], dates_col = [29], future_ret_col = [1 / 6]\<rparr>]"
proof (rule batch_results_single [where ?s0.0 = "ticker q"])
  show "ticker q \<in> set batch" by (rule assms(2))
  have rows: "filter (\<lambda>r. symbol r = ticker q) (universe n p q) = rising_series (ticker q)"
    using assms(4,5) by (simp add: filter_universe ticker_rows_def)
  show "WINDOW_SIZE + PREDICT_HORIZON \<le> length (filter (\<lambda>r. symbol r = ticker q) (universe n p q))"
    unfolding rows by (simp add: length_rising_series WINDOW_SIZE_def PREDICT_HORIZON_def)
  show "extract_symbol (ticker q)
     (sort_key (\<lambda>r. (symbol r, ts r)) (filter (\<lambda>r. symbol r = ticker q) (universe n p q))) =
     Some \<lparr>norm_windows = [query_norm (map (\<lambda>t. 1 + real t) [0..<30])],
       symbols_col = [ticker q], dates_col = [29], future_ret_col = [1 / 6]\<rparr>"
    unfolding rows sort_rising_series by (rule extract_rising_series)
  fix s assume s: "s \<in> set batch" and ne: "s \<noteq> ticker q"
  with assms(1) obtain k where k: "s = ticker k" by auto
  with s ne assms(3) have "k \<noteq> p" "k \<noteq> q" by auto
  then show "length (filter (\<lambda>r. symbol r = s) (universe n p q)) < WINDOW_SIZE + PREDICT_HORIZON"
    unfolding k filter_universe using length_ticker_rows_thin [of k p q]
    by (simp add: WINDOW_SIZE_def)
qed

section \<open>A build over eleven batches\<close>

lemma ticker_mem_image: "ticker k \<in> ticker ` A \<longleftrightarrow> k \<in> A"
  by (auto dest: ticker_inj)

lemma wide_chunk_results:
  "batch_results wide_table (take BATCH_SIZE (drop (j * BATCH_SIZE) (map ticker [0..<5001]))) =
     (if j = 2 then [\<lparr>norm_windows = [query_norm (replicate 30 1)],
                      symbols_col = [ticker 1000], dates_col = [29], future_ret_col = [0]\<rparr>]
      else if j = 10 then [\<lparr>norm_windows = [query_norm (map (\<lambda>t. 1 + real t) [0..<30])],
                      symbols_col = [ticker 5000], dates_col = [29], future_ret_col = [1 / 6]\<rparr>]
      else [])"
proof -
  let ?chunk = "take BATCH_SIZE (drop (j * BATCH_SIZE) (map ticker [0..<5001]))"
  have sub: "set ?chunk \<subseteq> range ticker"
    unfolding set_chunk_tickers by auto
  have p: "ticker 1000 \<in> set ?chunk \<longleftrightarrow> j = 2"
    unfolding set_chunk_tickers ticker_mem_image by (auto simp: BATCH_SIZE_def)
  have q: "ticker 5000 \<in> set ?chunk \<longleftrightarrow> j = 10"
    unfolding set_chunk_tickers ticker_mem_image by (auto simp: BATCH_SIZE_def)
  consider "j = 2" | "j = 10" | "j \<noteq> 2" "j \<noteq> 10" by blast
  then show ?thesis
  proof cases
    case 1
    with p q have "ticker 1000 \<in> set ?chunk" "ticker 5000 \<notin> set ?chunk" by simp_all
    from universe_batch_flat [OF sub this, of 5001] 1 show ?thesis
      by (simp add: wide_table_def)
  next
    case 2
    with p q have "ticker 5000 \<in> set ?chunk" "ticker 1000 \<notin> set ?chunk" by simp_all
    from universe_batch_rising [OF sub this, of 5001] 2 show ?thesis
      by (simp add: wide_table_def)
  next
    case 3
    with p q have "ticker 1000 \<notin> set ?chunk" "ticker 5000 \<notin> set ?chunk" by simp_all
    from universe_batch_none [OF sub this, of 5001] 3 show ?thesis
      by (simp add: wide_table_def)
  qed
qed

lemma wide_adding_batches:
  "adding_batches wide_env wide_table =
     [(2, take BATCH_SIZE (drop (2 * BATCH_SIZE) (map ticker [0..<5001]))),
      (10, take BATCH_SIZE (drop (10 * BATCH_SIZE) (map ticker [0..<5001])))]"
proof -
  have n: "(length (map ticker [0..<5001]) + BATCH_SIZE - 1) div BATCH_SIZE = 11"
    by (simp add: BATCH_SIZE_def)
  have f: "filter (\<lambda>j. j = 2 \<or> j = 10) [0..<11] = [2, 10]"
    by (simp add: upt_rec)
  have "adding_batches wide_env wide_table =
        map (\<lambda>j. (j, take BATCH_SIZE (drop (j * BATCH_SIZE) (map ticker [0..<5001]))))
          (filter (\<lambda>j. j = 2 \<or> j = 10) [0..<11])"
    unfolding adding_batches_def wide_env_def quiet_env_def env.simps symbol_chunks_eq n
      enumerate_map_upt filter_map comp_def fst_conv snd_conv wide_chunk_results
    by (intro arg_cong [where f = "map _"] filter_cong refl) auto
  then show ?thesis unfolding f by simp
qed

lemma wide_build_records:
  "build_records wide_env wide_table =
     [(query_norm (replicate 30 1),
       \<lparr>meta_symbol = ticker 1000, date = 29, future_return = 0\<rparr>),
      (query_norm (map (\<lambda>t. 1 + real t) [0..<30]),
       \<lparr>meta_symbol = ticker 5000, date = 29, future_return = 1 / 6\<rparr>)]"
  unfolding build_records_def wide_adding_batches
  by (simp add: batch_records_def wide_chunk_results result_records_def result_rows_def
      wide_env_def quiet_env_def)

lemma part_filename_eq_iff: "part_filename i = part_filename j \<longleftrightarrow> i = j"
  by (auto dest: part_filename_inj)

lemma part_filename_not_fixed:
  "part_filename j \<noteq> INDEX_FILE" "part_filename j \<noteq> META_FILE" "part_filename j \<noteq> DATASET_FILE"
  "INDEX_FILE \<noteq> part_filename j" "META_FILE \<noteq> part_filename j" "DATASET_FILE \<noteq> part_filename j"
  using is_part_file_part_filename [of j] not_part_file_fixed by metis+

lemma clean_start_fresh: "clean_start [(DATASET_FILE, c)] = [(DATASET_FILE, c)]"
  using fixed_names_differ not_part_file_fixed
  by (simp add: clean_start_def path_exists_def glob_parts_def)

lemma wide_files:
  "files (run_batches wide_env wide_table wide_dir) =
     [(DATASET_FILE, Price_table wide_table),
      (part_filename 2, Meta_table [\<lparr>meta_symbol = ticker 1000, date = 29, future_return = 0\<rparr>]),
      (part_filename 10, Meta_table [\<lparr>meta_symbol = ticker 5000, date = 29, future_return = 1 / 6\<rparr>])]"
  unfolding run_batches_eq wide_adding_batches
  by (simp add: wide_dir_def clean_start_fresh write_shard_def write_file_def
      batch_records_def wide_chunk_results result_records_def result_rows_def
      wide_env_def quiet_env_def part_filename_not_fixed part_filename_eq_iff)

lemma shard_names_order: "sort [part_filename 2, part_filename 10] = [part_filename 10, part_filename 2]"
  by (simp add: part_filename_def str_nat.simps)

lemma wide_metadata:
  "map_of (build_index wide_env wide_dir) META_FILE =
     Some (Meta_table [\<lparr>meta_symbol = ticker 5000, date = 29, future_return = 1 / 6\<rparr>,
                       \<lparr>meta_symbol = ticker 1000, date = 29, future_return = 0\<rparr>])"
proof -
  let ?st = "run_batches wide_env wide_table wide_dir"
  let ?fs3 = "write_index (index ?st) INDEX_FILE (files ?st)"
  have bi: "build_index wide_env wide_dir = finish_build wide_env ?st"
    by (simp add: build_index_def wide_dir_def)
  have fs3: "?fs3 =
     [(DATASET_FILE, Price_table wide_table),
      (part_filename 2, Meta_table [\<lparr>meta_symbol = ticker 1000, date = 29, future_return = 0\<rparr>]),
      (part_filename 10, Meta_table [\<lparr>meta_symbol = ticker 5000, date = 29, future_return = 1 / 6\<rparr>]),
      (INDEX_FILE, Faiss_index (dim (index ?st)) (vectors (index ?st)))]"
    unfolding wide_files
    by (simp add: write_index_def write_file_def part_filename_not_fixed fixed_names_differ
        fixed_names_differ [symmetric])
  have glob: "glob_parts ?fs3 = [part_filename 2, part_filename 10]"
    unfolding fs3
    by (simp add: glob_parts_def is_part_file_part_filename not_part_file_fixed
        part_filename_not_fixed part_filename_eq_iff fixed_names_differ
        fixed_names_differ [symmetric])
  have merged: "read_parquet_glob ?fs3 =
      Some [\<lparr>meta_symbol = ticker 5000, date = 29, future_return = 1 / 6\<rparr>,
            \<lparr>meta_symbol = ticker 1000, date = 29, future_return = 0\<rparr>]"
    unfolding read_parquet_glob_def glob shard_names_order
    unfolding fs3
    by (simp add: part_filename_not_fixed part_filename_eq_iff)
  have mf: "\<not> merge_fails wide_env"
    by (simp add: wide_env_def quiet_env_def)
  show ?thesis
    unfolding bi finish_build_def Let_def glob merged
    using mf by (simp add: map_of_os_remove map_of_write_file part_filename_not_fixed)
qed

lemma sum_rising: "sum_list (map (\<lambda>t. 1 + real t) [0..<30]) = 465"
  by (simp add: upt_rec)

lemma rising_not_flat:
  "query_norm (map (\<lambda>t. 1 + real t) [0..<30]) \<noteq> query_norm (replicate 30 1)"
proof -
  let ?w = "map (\<lambda>t. 1 + real t) [0..<30]"
  have mean: "np_mean ?w = 31 / 2"
    by (simp add: np_mean_def sum_rising)
  have "query_norm ?w ! 0 = (1 - 31 / 2) / (np_std ?w + 1 / 1000000)"
    unfolding query_norm_def Let_def mean by (simp add: upt_rec)
  moreover have "0 < np_std ?w + 1 / 1000000"
    using np_std_nonneg [of ?w] by simp
  ultimately have "query_norm ?w ! 0 < 0"
    by (simp add: divide_neg_pos)
  moreover have "query_norm (replicate 30 1) ! 0 = 0"
    using query_norm_constant [of "replicate 30 1" 1] by simp
  ultimately show ?thesis by auto
qed

text \<open>
  The build over the table of 5001 tickers, with nothing failing. The enumeration of the
  symbols is a valid result of \<open>unique\<close>, batches 2 and 10 each add one vector, and the
  index holds them in batch order (\<open>S1000\<close>'s vector, then \<open>S5000\<close>'s). The merged table
  lists the shard \<^verbatim>\<open>pattern_metadata_part_10.parquet\<close> before
  \<^verbatim>\<open>pattern_metadata_part_2.parquet\<close>, so row 0 of the table names \<open>S5000\<close> while row 0
  of the index is the vector of \<open>S1000\<close>.
\<close>

lemma shard_merge_breaks_row_alignment:
  "unique_result wide_table (unique_order wide_env) \<and>
   read_index (build_index wide_env wide_dir) INDEX_FILE =
     Inr \<lparr>dim = WINDOW_SIZE,
          vectors = [query_norm (replicate 30 1), query_norm (map (\<lambda>t. 1 + real t) [0..<30])]\<rparr> \<and>
   build_records wide_env wide_table =
     [(query_norm (replicate 30 1),
       \<lparr>meta_symbol = ticker 1000, date = 29, future_return = 0\<rparr>),
      (query_norm (map (\<lambda>t. 1 + real t) [0..<30]),
       \<lparr>meta_symbol = ticker 5000, date = 29, future_return = 1 / 6\<rparr>)] \<and>
   map_of (build_index wide_env wide_dir) META_FILE =
     Some (Meta_table [\<lparr>meta_symbol = ticker 5000, date = 29, future_return = 1 / 6\<rparr>,
                       \<lparr>meta_symbol = ticker 1000, date = 29, future_return = 0\<rparr>]) \<and>
   query_norm (replicate 30 1) \<noteq> query_norm (map (\<lambda>t. 1 + real t) [0..<30]) \<and>
   \<not> artifacts_aligned (build_index wide_env wide_dir) (build_records wide_env wide_table)"
proof -
  have u: "unique_result wide_table (unique_order wide_env)"
    using unique_result_tickers [of 5001 1000 5000]
    by (simp add: wide_table_def wide_env_def quiet_env_def)
  have d: "map_of wide_dir DATASET_FILE = Some (Price_table wide_table)"
    by (simp add: wide_dir_def)
  have i: "read_index (build_index wide_env wide_dir) INDEX_FILE =
     Inr \<lparr>dim = WINDOW_SIZE,
          vectors = [query_norm (replicate 30 1), query_norm (map (\<lambda>t. 1 + real t) [0..<30])]\<rparr>"
    unfolding read_index_build [OF d] by (simp add: run_batches_eq wide_build_records)
  have t: "ticker 5000 \<noteq> ticker 1000"
    using ticker_inj [of 5000 1000] by auto
  have n: "\<not> artifacts_aligned (build_index wide_env wide_dir) (build_records wide_env wide_table)"
    unfolding artifacts_aligned_def wide_metadata wide_build_records
    using t by (simp split: option.splits file_content.splits)
  from u i n rising_not_flat show ?thesis
    by (simp add: wide_build_records wide_metadata)
qed

section \<open>The order of the symbol enumeration\<close>

lemma batch_step_order_irrelevant:
  "batch_step (e\<lparr>unique_order := order'\<rparr>) rows item st = batch_step e rows item st"
  by (simp add: batch_step_def Let_def)

lemma batch_step_set_cong:
  "set b = set b' \<Longrightarrow> batch_step e rows (j, b) st = batch_step e rows (j, b') st"
  by (simp add: batch_step_def load_batch_def)

lemma fold_batch_step_chunks:
  assumes "list_all2 (\<lambda>a b. set a = set b) xs ys"
  shows "fold (batch_step e rows) (enumerate n xs) st = fold (batch_step e rows) (enumerate n ys) st"
  using assms
proof (induction xs ys arbitrary: n st rule: list_all2_induct)
  case Nil
  show ?case by simp
next
  case (Cons x xs y ys)
  show ?case
    using Cons.hyps(1) Cons.IH [of "Suc n"]
    by (simp add: batch_step_set_cong [of x y])
qed

lemma finish_build_order_irrelevant:
  "finish_build (e\<lparr>unique_order := order'\<rparr>) st = finish_build e st"
  by (simp add: finish_build_def Let_def)

text \<open>
  Claim C2, amended. Two runs of the build on the same directory, in which the same
  batches fail and the cast is the same, produce the same directory (the same index and
  the same metadata table, row for row) whenever their enumerations of the symbols put
  the same set of symbols into each batch; the order inside a batch does not matter,
  because the rows of a batch are sorted by symbol and timestamp. This covers every table
  of at most 500 symbols, which form a single batch.
\<close>

theorem build_fixed_by_batch_sets:
  assumes "list_all2 (\<lambda>a b. set a = set b) (symbol_chunks (unique_order e)) (symbol_chunks order')"
  shows "build_index (e\<lparr>unique_order := order'\<rparr>) fs = build_index e fs"
proof -
  have "run_batches (e\<lparr>unique_order := order'\<rparr>) rows fs = run_batches e rows fs" for rows
  proof -
    have "batch_step (e\<lparr>unique_order := order'\<rparr>) rows = batch_step e rows"
      by (intro ext) (rule batch_step_order_irrelevant)
    then show ?thesis
      unfolding run_batches_def
      using fold_batch_step_chunks [OF assms, of e rows 0] by simp
  qed
  then show ?thesis
    by (simp add: build_index_def finish_build_order_irrelevant
        split: option.splits file_content.splits)
qed

lemma forward_chunk_results:
  "batch_results split_table (take BATCH_SIZE (drop (j * BATCH_SIZE) (map ticker [0..<501]))) =
     (if j = 0 then [\<lparr>norm_windows = [query_norm (replicate 30 1)],
                      symbols_col = [ticker 0], dates_col = [29], future_ret_col = [0]\<rparr>]
      else if j = 1 then [\<lparr>norm_windows = [query_norm (map (\<lambda>t. 1 + real t) [0..<30])],
                      symbols_col = [ticker 500], dates_col = [29], future_ret_col = [1 / 6]\<rparr>]
      else [])"
proof -
  let ?chunk = "take BATCH_SIZE (drop (j * BATCH_SIZE) (map ticker [0..<501]))"
  have sub: "set ?chunk \<subseteq> range ticker"
    unfolding set_chunk_tickers by auto
  have p: "ticker 0 \<in> set ?chunk \<longleftrightarrow> j = 0"
    unfolding set_chunk_tickers ticker_mem_image by (auto simp: BATCH_SIZE_def)
  have q: "ticker 500 \<in> set ?chunk \<longleftrightarrow> j = 1"
    unfolding set_chunk_tickers ticker_mem_image by (auto simp: BATCH_SIZE_def)
  consider "j = 0" | "j = 1" | "j \<noteq> 0" "j \<noteq> 1" by blast
  then show ?thesis
  proof cases
    case 1
    with p q have "ticker 0 \<in> set ?chunk" "ticker 500 \<notin> set ?chunk" by simp_all
    from universe_batch_flat [OF sub this, of 501] 1 show ?thesis
      by (simp add: split_table_def)
  next
    case 2
    with p q have "ticker 500 \<in> set ?chunk" "ticker 0 \<notin> set ?chunk" by simp_all
    from universe_batch_rising [OF sub this, of 501] 2 show ?thesis
      by (simp add: split_table_def)
  next
    case 3
    with p q have "ticker 0 \<notin> set ?chunk" "ticker 500 \<notin> set ?chunk" by simp_all
    from universe_batch_none [OF sub this, of 501] 3 show ?thesis
      by (simp add: split_table_def)
  qed
qed

lemma backward_chunk_results:
  "batch_results split_table (take BATCH_SIZE (drop (j * BATCH_SIZE) (rev (map ticker [0..<501])))) =
     (if j = 0 then [\<lparr>norm_windows = [query_norm (map (\<lambda>t. 1 + real t) [0..<30])],
                      symbols_col = [ticker 500], dates_col = [29], future_ret_col = [1 / 6]\<rparr>]
      else if j = 1 then [\<lparr>norm_windows = [query_norm (replicate 30 1)],
                      symbols_col = [ticker 0], dates_col = [29], future_ret_col = [0]\<rparr>]
      else [])"
proof -
  let ?chunk = "take BATCH_SIZE (drop (j * BATCH_SIZE) (rev (map ticker [0..<501])))"
  have sub: "set ?chunk \<subseteq> range ticker"
    unfolding set_chunk_tickers_rev by auto
  have p: "ticker 0 \<in> set ?chunk \<longleftrightarrow> j = 1"
    unfolding set_chunk_tickers_rev ticker_mem_image by (auto simp: BATCH_SIZE_def)
  have q: "ticker 500 \<in> set ?chunk \<longleftrightarrow> j = 0"
    unfolding set_chunk_tickers_rev ticker_mem_image by (auto simp: BATCH_SIZE_def)
  consider "j = 0" | "j = 1" | "j \<noteq> 0" "j \<noteq> 1" by blast
  then show ?thesis
  proof cases
    case 1
    with p q have "ticker 500 \<in> set ?chunk" "ticker 0 \<notin> set ?chunk" by simp_all
    from universe_batch_rising [OF sub this, of 501] 1 show ?thesis
      by (simp add: split_table_def)
  next
    case 2
    with p q have "ticker 0 \<in> set ?chunk" "ticker 500 \<notin> set ?chunk" by simp_all
    from universe_batch_flat [OF sub this, of 501] 2 show ?thesis
      by (simp add: split_table_def)
  next
    case 3
    with p q have "ticker 0 \<notin> set ?chunk" "ticker 500 \<notin> set ?chunk" by simp_all
    from universe_batch_none [OF sub this, of 501] 3 show ?thesis
      by (simp add: split_table_def)
  qed
qed

lemma forward_build_records:
  "build_records forward_env split_table =
     [(query_norm (replicate 30 1),
       \<lparr>meta_symbol = ticker 0, date = 29, future_return = 0\<rparr>),
      (query_norm (map (\<lambda>t. 1 + real t) [0..<30]),
       \<lparr>meta_symbol = ticker 500, date = 29, future_return = 1 / 6\<rparr>)]"
proof -
  have n: "(length (map ticker [0..<501]) + BATCH_SIZE - 1) div BATCH_SIZE = 2"
    by (simp add: BATCH_SIZE_def)
  have u: "[0..<2] = [0, 1]" by (simp add: upt_rec)
  show ?thesis
    unfolding build_records_def adding_batches_def forward_env_def quiet_env_def env.simps
      symbol_chunks_eq n enumerate_map_upt u
    using forward_chunk_results [of 0] forward_chunk_results [of 1]
    by (simp add: batch_records_def result_records_def result_rows_def)
qed

lemma backward_build_records:
  "build_records backward_env split_table =
     [(query_norm (map (\<lambda>t. 1 + real t) [0..<30]),
       \<lparr>meta_symbol = ticker 500, date = 29, future_return = 1 / 6\<rparr>),
      (query_norm (replicate 30 1),
       \<lparr>meta_symbol = ticker 0, date = 29, future_return = 0\<rparr>)]"
proof -
  have n: "(length (rev (map ticker [0..<501])) + BATCH_SIZE - 1) div BATCH_SIZE = 2"
    by (simp add: BATCH_SIZE_def)
  have u: "[0..<2] = [0, 1]" by (simp add: upt_rec)
  show ?thesis
    unfolding build_records_def adding_batches_def backward_env_def quiet_env_def env.simps
      symbol_chunks_eq n enumerate_map_upt u
    using backward_chunk_results [of 0] backward_chunk_results [of 1]
    by (simp add: batch_records_def result_records_def result_rows_def)
qed

text \<open>
  Claim C2 as stated fails: the table of 501 tickers is built twice on the same
  directory, with nothing failing, once with the symbols enumerated in ascending and once
  in descending order. Both enumerations are valid results of \<open>unique\<close>. The two builds
  store the same two vectors in opposite row order, so the directories differ.
\<close>

theorem enumeration_order_changes_artifacts:
  "unique_result split_table (unique_order forward_env) \<and>
   unique_result split_table (unique_order backward_env) \<and>
   backward_env = forward_env\<lparr>unique_order := rev (unique_order forward_env)\<rparr> \<and>
   read_index (build_index forward_env split_dir) INDEX_FILE =
     Inr \<lparr>dim = WINDOW_SIZE,
          vectors = [query_norm (replicate 30 1), query_norm (map (\<lambda>t. 1 + real t) [0..<30])]\<rparr> \<and>
   read_index (build_index backward_env split_dir) INDEX_FILE =
     Inr \<lparr>dim = WINDOW_SIZE,
          vectors = [query_norm (map (\<lambda>t. 1 + real t) [0..<30]), query_norm (replicate 30 1)]\<rparr> \<and>
   build_index forward_env split_dir \<noteq> build_index backward_env split_dir"
proof -
  have u1: "unique_result split_table (unique_order forward_env)"
    using unique_result_tickers [of 501 0 500]
    by (simp add: split_table_def forward_env_def quiet_env_def)
  have u2: "unique_result split_table (unique_order backward_env)"
    using unique_result_rev [OF unique_result_tickers [of 501 0 500]]
    by (simp add: split_table_def backward_env_def quiet_env_def)
  have e: "backward_env = forward_env\<lparr>unique_order := rev (unique_order forward_env)\<rparr>"
    by (simp add: backward_env_def forward_env_def quiet_env_def)
  have d: "map_of split_dir DATASET_FILE = Some (Price_table split_table)"
    by (simp add: split_dir_def)
  have f: "read_index (build_index forward_env split_dir) INDEX_FILE =
     Inr \<lparr>dim = WINDOW_SIZE,
          vectors = [query_norm (replicate 30 1), query_norm (map (\<lambda>t. 1 + real t) [0..<30])]\<rparr>"
    unfolding read_index_build [OF d] by (simp add: run_batches_eq forward_build_records)
  have b: "read_index (build_index backward_env split_dir) INDEX_FILE =
     Inr \<lparr>dim = WINDOW_SIZE,
          vectors = [query_norm (map (\<lambda>t. 1 + real t) [0..<30]), query_norm (replicate 30 1)]\<rparr>"
    unfolding read_index_build [OF d] by (simp add: run_batches_eq backward_build_records)
  have "build_index forward_env split_dir \<noteq> build_index backward_env split_dir"
  proof
    assume "build_index forward_env split_dir = build_index backward_env split_dir"
    then have "read_index (build_index forward_env split_dir) INDEX_FILE =
               read_index (build_index backward_env split_dir) INDEX_FILE" by simp
    then show False unfolding f b using rising_not_flat by simp
  qed
  with u1 u2 e f b show ?thesis by simp
qed

theorem build_fixed_by_batch_sets_witness:
  "list_all2 (\<lambda>a b. set a = set b)
     (symbol_chunks (unique_order (quiet_env [ticker 0, ticker 1])))
     (symbol_chunks [ticker 1, ticker 0]) \<and>
   build_index ((quiet_env [ticker 0, ticker 1])\<lparr>unique_order := [ticker 1, ticker 0]\<rparr>)
     [(DATASET_FILE, Price_table (universe 2 0 1))] =
   build_index (quiet_env [ticker 0, ticker 1]) [(DATASET_FILE, Price_table (universe 2 0 1))]"
proof -
  have h: "list_all2 (\<lambda>a b. set a = set b)
     (symbol_chunks (unique_order (quiet_env [ticker 0, ticker 1])))
     (symbol_chunks [ticker 1, ticker 0])"
    by (auto simp: symbol_chunks_eq quiet_env_def BATCH_SIZE_def)
  from build_fixed_by_batch_sets [OF h] h show ?thesis by simp
qed

section \<open>Nearest-neighbour search\<close>

lemma sq_dist_nonneg: "0 \<le> sq_dist q v"
  unfolding sq_dist_def by (rule sum_list_nonneg) auto

lemma sq_dist_self: "sq_dist q q = 0"
  by (induction q) (simp_all add: sq_dist_def)

lemma sq_dist_zero_eq:
  "length v = length q \<Longrightarrow> sq_dist q v = 0 \<Longrightarrow> v = q"
proof (induction q v rule: list_induct2')
  case (4 a q b v)
  have nn: "0 \<le> sq_dist q v" by (rule sq_dist_nonneg)
  from 4(3) have s: "(a - b)\<^sup>2 + sq_dist q v = 0" by (simp add: sq_dist_def)
  with nn have "(a - b)\<^sup>2 = 0" "sq_dist q v = 0"
    by (smt (verit) zero_le_power2)+
  with 4 show ?case by simp
qed simp_all

lemma index_search_scored:
  "index_search idx q k =
     (if length q \<noteq> dim idx then Inl AssertionError
      else Inr (map fst (take k (scored_rows idx q)) @
                  replicate (k - min k (ntotal idx)) FLT_MAX,
                map (\<lambda>p. int (snd p)) (take k (scored_rows idx q)) @
                  replicate (k - min k (ntotal idx)) (- 1)))"
  by (simp add: index_search_def scored_rows_def Let_def min_def)

lemma length_scored_rows: "length (scored_rows idx q) = ntotal idx"
  by (simp add: scored_rows_def)

lemma set_scored_rows:
  "set (scored_rows idx q) = (\<lambda>i. (sq_dist q (vectors idx ! i), i)) ` {0..<ntotal idx}"
  by (simp add: scored_rows_def)

lemma snd_scored_rows: "mset (map snd (scored_rows idx q)) = mset [0..<ntotal idx]"
proof -
  have "mset (map snd (scored_rows idx q)) =
        mset (map snd (map (\<lambda>i. (sq_dist q (vectors idx ! i), i)) [0..<ntotal idx]))"
    unfolding scored_rows_def by (simp only: mset_map mset_sort)
  then show ?thesis by (simp add: comp_def)
qed

lemma distinct_snd_scored_rows: "distinct (map snd (scored_rows idx q))"
  using snd_scored_rows [of idx q] by (metis distinct_upt mset_eq_imp_distinct_iff)

lemma sorted_scored_rows: "sorted (scored_rows idx q)"
  by (simp add: scored_rows_def)

lemma scored_rows_nth:
  assumes "i < ntotal idx"
  shows "snd (scored_rows idx q ! i) < ntotal idx"
    and "fst (scored_rows idx q ! i) = sq_dist q (vectors idx ! snd (scored_rows idx q ! i))"
proof -
  have "scored_rows idx q ! i \<in> set (scored_rows idx q)"
    using assms by (simp add: length_scored_rows)
  then obtain a where "a < ntotal idx" "scored_rows idx q ! i = (sq_dist q (vectors idx ! a), a)"
    unfolding set_scored_rows by auto
  then show "snd (scored_rows idx q ! i) < ntotal idx"
    and "fst (scored_rows idx q ! i) = sq_dist q (vectors idx ! snd (scored_rows idx q ! i))"
    by simp_all
qed

lemma scored_rows_strict:
  assumes "i < j" and "j < ntotal idx"
  shows "scored_rows idx q ! i < scored_rows idx q ! j"
proof -
  have le: "scored_rows idx q ! i \<le> scored_rows idx q ! j"
    using sorted_scored_rows assms by (simp add: sorted_iff_nth_mono length_scored_rows)
  have "distinct (scored_rows idx q)"
    using distinct_snd_scored_rows [of idx q] by (rule distinct_map [THEN iffD1, THEN conjunct1])
  then have "scored_rows idx q ! i \<noteq> scored_rows idx q ! j"
    using assms by (simp add: nth_eq_iff_index_eq length_scored_rows)
  with le show ?thesis by simp
qed

lemma scored_rows_first:
  assumes "r < ntotal idx" and "vectors idx ! r = q"
  shows "fst (scored_rows idx q ! 0) = 0" and "snd (scored_rows idx q ! 0) \<le> r"
proof -
  have n: "0 < ntotal idx" using assms(1) by simp
  have mem: "(0, r) \<in> set (scored_rows idx q)"
    unfolding set_scored_rows using assms sq_dist_self [of q] by force
  then obtain j where j: "j < ntotal idx" "scored_rows idx q ! j = (0, r)"
    by (auto simp: in_set_conv_nth length_scored_rows)
  have "scored_rows idx q ! 0 \<le> scored_rows idx q ! j"
    using sorted_scored_rows j(1) by (simp add: sorted_iff_nth_mono length_scored_rows)
  then have le: "scored_rows idx q ! 0 \<le> (0, r)" by (simp add: j(2))
  have "0 \<le> fst (scored_rows idx q ! 0)"
    unfolding scored_rows_nth(2) [OF n] by (rule sq_dist_nonneg)
  with le show "fst (scored_rows idx q ! 0) = 0" and "snd (scored_rows idx q ! 0) \<le> r"
    by (auto simp: less_eq_prod_def)
qed

lemma index_search_nth:
  assumes "index_search idx q k = Inr (D, I)"
  shows "length D = k" and "length I = k"
    and "\<And>i. i < min k (ntotal idx) \<Longrightarrow> D ! i = fst (scored_rows idx q ! i)"
    and "\<And>i. i < min k (ntotal idx) \<Longrightarrow> I ! i = int (snd (scored_rows idx q ! i))"
    and "\<And>i. min k (ntotal idx) \<le> i \<Longrightarrow> i < k \<Longrightarrow> I ! i = - 1"
proof -
  from assms have D: "D = map fst (take k (scored_rows idx q)) @
                  replicate (k - min k (ntotal idx)) FLT_MAX"
    and I: "I = map (\<lambda>p. int (snd p)) (take k (scored_rows idx q)) @
                  replicate (k - min k (ntotal idx)) (- 1)"
    by (auto simp: index_search_scored split: if_splits)
  show "length D = k" "length I = k"
    by (simp_all add: D I length_scored_rows)
  show "D ! i = fst (scored_rows idx q ! i)" if "i < min k (ntotal idx)" for i
    using that by (simp add: D nth_append length_scored_rows)
  show "I ! i = int (snd (scored_rows idx q ! i))" if "i < min k (ntotal idx)" for i
    using that by (simp add: I nth_append length_scored_rows)
  show "I ! i = - 1" if "min k (ntotal idx) \<le> i" "i < k" for i
    using that by (simp add: I nth_append length_scored_rows)
qed

text \<open>
  Claim C3. A search that succeeds returns \<open>k\<close> distances and \<open>k\<close> labels. The first
  \<open>min k N\<close> entries are rows of the index with their squared Euclidean distances to the
  query, strictly ordered by distance and, at equal distance, by lower row id; the other
  entries carry the label -1. No row left out is nearer than a row returned. If the query
  equals a stored vector and \<open>k\<close> is positive, the first entry has distance 0 and is the
  lowest row id at distance 0, a row that holds the query vector.
\<close>

theorem search_ordering:
  assumes "index_search idx q k = Inr (D, I)"
  shows "length D = k \<and> length I = k \<and>
     (\<forall>i. i < min k (ntotal idx) \<longrightarrow>
        0 \<le> I ! i \<and> nat (I ! i) < ntotal idx \<and>
        D ! i = sq_dist q (vectors idx ! nat (I ! i))) \<and>
     (\<forall>i j. i < j \<and> j < min k (ntotal idx) \<longrightarrow>
        D ! i < D ! j \<or> (D ! i = D ! j \<and> I ! i < I ! j)) \<and>
     (\<forall>i. min k (ntotal idx) \<le> i \<and> i < k \<longrightarrow> I ! i = - 1) \<and>
     (\<forall>a i. a < ntotal idx \<and> int a \<notin> set I \<and> i < min k (ntotal idx) \<longrightarrow>
        D ! i < sq_dist q (vectors idx ! a) \<or>
        (D ! i = sq_dist q (vectors idx ! a) \<and> I ! i < int a)) \<and>
     (\<forall>r. 0 < k \<and> r < ntotal idx \<and> vectors idx ! r = q \<longrightarrow>
        D ! 0 = 0 \<and> 0 \<le> I ! 0 \<and> I ! 0 \<le> int r \<and>
        (length (vectors idx ! nat (I ! 0)) = length q \<longrightarrow> vectors idx ! nat (I ! 0) = q))"
proof -
  note s = index_search_nth [OF assms]
  let ?m = "min k (ntotal idx)"
  let ?sc = "scored_rows idx q"
  have a: "0 \<le> I ! i \<and> nat (I ! i) < ntotal idx \<and> D ! i = sq_dist q (vectors idx ! nat (I ! i))"
    if "i < ?m" for i
  proof -
    from that have "i < ntotal idx" by simp
    from scored_rows_nth [OF this, of q] s(3,4) [OF that] show ?thesis by simp
  qed
  have b: "D ! i < D ! j \<or> (D ! i = D ! j \<and> I ! i < I ! j)" if "i < j" "j < ?m" for i j
  proof -
    from that have "j < ntotal idx" "i < ?m" by simp_all
    from scored_rows_strict [OF that(1) this(1), of q] s(3,4) [OF that(2)] s(3,4) [OF this(2)]
    show ?thesis by (auto simp: less_prod_def)
  qed
  have c: "D ! i < sq_dist q (vectors idx ! a) \<or>
        (D ! i = sq_dist q (vectors idx ! a) \<and> I ! i < int a)"
    if "a < ntotal idx" "int a \<notin> set I" "i < ?m" for a i
  proof -
    have "(sq_dist q (vectors idx ! a), a) \<in> set ?sc"
      unfolding set_scored_rows using that(1) by auto
    then obtain j where j: "j < ntotal idx" "?sc ! j = (sq_dist q (vectors idx ! a), a)"
      by (auto simp: in_set_conv_nth length_scored_rows)
    have "\<not> j < ?m"
    proof
      assume "j < ?m"
      then have "I ! j = int a" "j < length I" using s(4) [of j] j(2) s(2) by simp_all
      then have "int a \<in> set I" by (metis nth_mem)
      with that(2) show False by simp
    qed
    with that(3) j(1) have "i < j" by simp
    from scored_rows_strict [OF this j(1), of q] s(3,4) [OF that(3)] j(2)
    show ?thesis by (auto simp: less_prod_def)
  qed
  have d: "D ! 0 = 0 \<and> 0 \<le> I ! 0 \<and> I ! 0 \<le> int r \<and>
        (length (vectors idx ! nat (I ! 0)) = length q \<longrightarrow> vectors idx ! nat (I ! 0) = q)"
    if "0 < k" "r < ntotal idx" "vectors idx ! r = q" for r
  proof -
    from that have z: "0 < ?m" by simp
    note f = scored_rows_first [OF that(2,3)]
    have D0: "D ! 0 = 0" and I0: "I ! 0 = int (snd (?sc ! 0))"
      using s(3,4) [OF z] f(1) by simp_all
    have "sq_dist q (vectors idx ! nat (I ! 0)) = 0"
      using a [OF z] D0 by simp
    then have "length (vectors idx ! nat (I ! 0)) = length q \<longrightarrow> vectors idx ! nat (I ! 0) = q"
      using sq_dist_zero_eq by blast
    with D0 I0 f(2) show ?thesis by simp
  qed
  from s(1,2,5) a b c d show ?thesis by blast
qed

lemma three_rows_search: "index_search three_rows [0, 0] 2 = Inr ([0, 0], [1, 2])"
  by (simp add: index_search_def three_rows_def ntotal_def sq_dist_def upt_rec
      less_eq_prod_def)

theorem search_ordering_witness:
  "index_search three_rows [0, 0] 2 = Inr ([0, 0], [1, 2]) \<and>
   vectors three_rows ! 2 = [0, 0] \<and>
   [0, 0 :: real] ! 0 = 0 \<and> [1, 2 :: int] ! 0 \<le> int 2 \<and>
   vectors three_rows ! nat ([1, 2] ! 0) = [0, 0] \<and>
   ([0, 0 :: real] ! 0 = [0, 0] ! 1 \<and> [1, 2 :: int] ! 0 < [1, 2] ! 1)"
proof -
  from search_ordering [OF three_rows_search] three_rows_search show ?thesis
    by (simp add: three_rows_def ntotal_def)
qed

section \<open>The ranking of the query's results\<close>

lemma order_map_snoc: "order_map (ys @ [y]) = (order_map ys)(y \<mapsto> length ys)"
  by (simp add: order_map_def enumerate_append_eq)

lemma order_map_last:
  assumes "j < length xs" and "xs ! j = a"
    and "\<And>j'. j < j' \<Longrightarrow> j' < length xs \<Longrightarrow> xs ! j' \<noteq> a"
  shows "order_map xs a = Some j"
  using assms
proof (induction xs rule: rev_induct)
  case Nil
  then show ?case by simp
next
  case (snoc y ys)
  show ?case
  proof (cases "j = length ys")
    case True
    with snoc.prems(2) show ?thesis by (simp add: order_map_snoc)
  next
    case False
    with snoc.prems(1) have j: "j < length ys" by simp
    from snoc.prems(3) [of "length ys"] j have "y \<noteq> a" by simp
    moreover have "order_map ys a = Some j"
    proof (rule snoc.IH [OF j])
      show "ys ! j = a" using snoc.prems(2) j by (simp add: nth_append)
      fix j' assume "j < j'" "j' < length ys"
      with snoc.prems(3) [of j'] show "ys ! j' \<noteq> a" by (simp add: nth_append)
    qed
    ultimately show ?thesis by (simp add: order_map_snoc)
  qed
qed

lemma rank_of_found:
  assumes "distinct ids" and "j < length ids"
  shows "rank_of (map int ids @ replicate p (- 1)) (ids ! j, m) = j"
proof -
  let ?f = "map int ids @ replicate p (- 1)"
  have "order_map ?f (int (ids ! j)) = Some j"
  proof (rule order_map_last)
    show "j < length ?f" using assms(2) by simp
    show "?f ! j = int (ids ! j)" using assms(2) by (simp add: nth_append)
    fix j' assume j': "j < j'" "j' < length ?f"
    show "?f ! j' \<noteq> int (ids ! j)"
    proof (cases "j' < length ids")
      case True
      with assms j'(1) have "ids ! j' \<noteq> ids ! j"
        by (simp add: nth_eq_iff_index_eq)
      with True show ?thesis by (simp add: nth_append)
    next
      case False
      with j'(2) show ?thesis by (simp add: nth_append)
    qed
  qed
  then show ?thesis by (simp add: rank_of_def)
qed

lemma sort_key_by_position:
  assumes "mset (map f xs) = mset [0..<n]"
  shows "map f (sort_key f xs) = [0..<n]"
proof -
  have "mset (map f (sort_key f xs)) = mset [0..<n]"
    using assms by simp
  moreover have "sorted (map f (sort_key f xs))" by (rule sorted_sort_key)
  ultimately have "sort [0..<n] = map f (sort_key f xs)"
    by (intro properties_for_sort) simp_all
  then show ?thesis by (simp add: sorted_sort_id)
qed

lemma ranked_results:
  assumes "mset ids = mset [0..<length meta]"
  shows "map fst (sort_key (rank_of (map int ids @ replicate p (- 1))) (enumerate 0 meta)) = ids"
proof -
  let ?N = "length meta"
  let ?rk = "rank_of (map int ids @ replicate p (- 1))"
  let ?res = "sort_key ?rk (enumerate 0 meta)"
  have len: "length ids = ?N"
    using assms by (metis length_upt minus_nat.diff_0 size_mset)
  have dist: "distinct ids"
    using assms by (metis distinct_upt mset_eq_imp_distinct_iff)
  have set: "set ids = {0..<?N}"
    using assms by (metis atLeastLessThan_upt mset_eq_setD)
  have rk_at: "?rk (ids ! j, m) = j" if "j < ?N" for j m
    using rank_of_found [OF dist, of j p m] that len by simp
  have pos: "\<exists>j < ?N. i = ids ! j" if "i < ?N" for i
    using that set len by (metis atLeastLessThan_iff in_set_conv_nth zero_le)
  have keys: "mset (map ?rk (enumerate 0 meta)) = mset [0..<?N]"
  proof -
    have "mset (map ?rk (map (\<lambda>j. (ids ! j, meta ! (ids ! j))) [0..<?N])) = mset [0..<?N]"
    proof (rule arg_cong [where f = mset])
      show "map ?rk (map (\<lambda>j. (ids ! j, meta ! (ids ! j))) [0..<?N]) = [0..<?N]"
        by (rule nth_equalityI) (simp_all add: rk_at)
    qed
    moreover have "mset (map (\<lambda>j. (ids ! j, meta ! (ids ! j))) [0..<?N]) = mset (enumerate 0 meta)"
    proof -
      have "map (\<lambda>j. (ids ! j, meta ! (ids ! j))) [0..<?N] = map (\<lambda>i. (i, meta ! i)) ids"
        using len by (intro nth_equalityI) simp_all
      moreover have "enumerate 0 meta = map (\<lambda>i. (i, meta ! i)) [0..<?N]"
        by (intro nth_equalityI) (simp_all add: nth_enumerate_eq)
      ultimately show ?thesis
        using assms by (metis mset_map)
    qed
    ultimately show ?thesis by (metis mset_map)
  qed
  have sorted_keys: "map ?rk ?res = [0..<?N]"
    by (rule sort_key_by_position [OF keys])
  show ?thesis
  proof (rule nth_equalityI)
    show "length (map fst ?res) = length ids" by (simp add: len)
    fix j assume "j < length (map fst ?res)"
    then have j: "j < ?N" by simp
    have mem: "?res ! j \<in> set (enumerate 0 meta)"
      using j by (metis length_enumerate length_sort nth_mem set_sort)
    then have "fst (?res ! j) < ?N"
      by (auto simp: in_set_enumerate_eq)
    from pos [OF this] obtain j' where j': "j' < ?N" "fst (?res ! j) = ids ! j'" by blast
    have "?rk (?res ! j) = j"
      using arg_cong [OF sorted_keys, of "\<lambda>l. l ! j"] j by simp
    moreover have "?rk (?res ! j) = j'"
      using rk_at [OF j'(1), of "snd (?res ! j)"] j'(2) by (metis prod.collapse)
    ultimately have "j' = j" by simp
    with j'(2) j show "map fst ?res ! j = ids ! j" by simp
  qed
qed

lemma draw_panels_rows:
  assumes "\<And>i. i \<in> set ids \<Longrightarrow> i < length vs"
  shows "draw_panels \<lparr>dim = d, vectors = vs\<rparr> (map (\<lambda>i. (i, meta ! i)) ids) =
         Inr (map (panel_of vs meta) ids)"
  using assms
  by (induction ids) (simp_all add: index_reconstruct_def ntotal_def panel_of_def)

lemma results_list_rows:
  assumes "mset ids = mset [0..<length meta]"
  shows "sort_key (rank_of (map int ids @ replicate p (- 1))) (enumerate 0 meta) =
         map (\<lambda>i. (i, meta ! i)) ids"
proof -
  let ?res = "sort_key (rank_of (map int ids @ replicate p (- 1))) (enumerate 0 meta)"
  have "x = (fst x, meta ! fst x)" if "x \<in> set ?res" for x
    using that unfolding set_sort by (simp add: in_set_enumerate_eq prod_eq_iff)
  then have "?res = map (\<lambda>x. (fst x, meta ! fst x)) ?res"
    by (metis (no_types, lifting) map_idI)
  also have "\<dots> = map (\<lambda>i. (i, meta ! i)) (map fst ?res)"
    by (simp add: comp_def)
  finally show ?thesis
    unfolding ranked_results [OF assms] .
qed

lemma search_small_index:
  assumes "length q = d" and "length vs < k"
  shows "index_search \<lparr>dim = d, vectors = vs\<rparr> q k =
     Inr (map fst (scored_rows \<lparr>dim = d, vectors = vs\<rparr> q) @ replicate (k - length vs) FLT_MAX,
          map int (map snd (scored_rows \<lparr>dim = d, vectors = vs\<rparr> q)) @
            replicate (k - length vs) (- 1))"
  using assms
  by (simp add: index_search_scored length_scored_rows ntotal_def min_def comp_def)

lemma search_and_report_small:
  assumes "map_of fs META_FILE = Some (Meta_table meta)"
    and "length query_prices = WINDOW_SIZE"
    and "length meta = length vs" and "0 < length vs" and "length vs < TOP_K"
  shows "search_and_report e fs \<lparr>dim = WINDOW_SIZE, vectors = vs\<rparr> query_prices out =
     \<lparr>printed = out @ [Scanning, Fetching_history, Results_header,
         Forecast
           (win_rate_of (map future_r (map (panel_of vs meta)
              (map snd (scored_rows \<lparr>dim = WINDOW_SIZE, vectors = vs\<rparr>
                 (map (astype_float32 e) (query_norm query_prices)))))))
           (avg_ret_of (map future_r (map (panel_of vs meta)
              (map snd (scored_rows \<lparr>dim = WINDOW_SIZE, vectors = vs\<rparr>
                 (map (astype_float32 e) (query_norm query_prices)))))))],
       panels = map (panel_of vs meta)
              (map snd (scored_rows \<lparr>dim = WINDOW_SIZE, vectors = vs\<rparr>
                 (map (astype_float32 e) (query_norm query_prices)))),
       result = Returns_None\<rparr>"
proof -
  let ?idx = "\<lparr>dim = WINDOW_SIZE, vectors = vs\<rparr>"
  let ?qv = "map (astype_float32 e) (query_norm query_prices)"
  let ?ids = "map snd (scored_rows ?idx ?qv)"
  let ?found = "map int ?ids @ replicate (TOP_K - length vs) (- 1)"
  have lq: "length ?qv = WINDOW_SIZE"
    using assms(2) by (simp add: query_norm_def)
  have srch: "index_search ?idx ?qv TOP_K =
      Inr (map fst (scored_rows ?idx ?qv) @ replicate (TOP_K - length vs) FLT_MAX, ?found)"
    by (rule search_small_index [OF lq assms(5)])
  have perm: "mset ?ids = mset [0..<length meta]"
    using snd_scored_rows [of ?idx ?qv] assms(3) by (simp add: ntotal_def)
  have len: "length ?ids = length vs"
    by (simp add: length_scored_rows ntotal_def)
  have setids: "set ?ids = {0..<length vs}"
    using perm assms(3) by (metis atLeastLessThan_upt mset_eq_setD)
  have all: "filter (\<lambda>x. int (fst x) \<in> set ?found) (enumerate 0 meta) = enumerate 0 meta"
  proof (intro filter_True ballI)
    fix x assume "x \<in> set (enumerate 0 meta)"
    then have "fst x < length vs" using assms(3) by (auto simp: in_set_enumerate_eq)
    then have "fst x \<in> set ?ids" using setids by simp
    then have "int (fst x) \<in> set (map int ?ids)"
      unfolding set_map by (rule imageI)
    then show "int (fst x) \<in> set ?found"
      unfolding set_append by (rule UnI1)
  qed
  have res: "sort_key (rank_of ?found) (enumerate 0 meta) = map (\<lambda>i. (i, meta ! i)) ?ids"
    by (rule results_list_rows [OF perm])
  have nine: "\<not> 9 < length (map (\<lambda>i. (i, meta ! i)) ?ids)"
    using assms(5) len by (simp add: TOP_K_def)
  have draw: "draw_panels ?idx (map (\<lambda>i. (i, meta ! i)) ?ids) = Inr (map (panel_of vs meta) ?ids)"
    by (rule draw_panels_rows) (use setids in auto)
  have ne: "map future_r (map (panel_of vs meta) ?ids) \<noteq> []"
    using assms(4) len by auto
  show ?thesis
    unfolding search_and_report_def Let_def srch sum.case snd_conv assms(1) option.case
      file_content.case all res
    using nine ne by (simp only: draw sum.case if_False append_assoc append.simps)
qed

lemma stats_mset_cong:
  assumes "mset xs = mset ys"
  shows "win_rate_of xs = win_rate_of ys" and "avg_ret_of xs = avg_ret_of ys"
proof -
  have len: "length xs = length ys" using assms by (rule mset_eq_length)
  have "mset (filter (\<lambda>r. r > 0) xs) = mset (filter (\<lambda>r. r > 0) ys)"
    using assms by (simp only: mset_filter)
  then have f: "length (filter (\<lambda>r. r > 0) xs) = length (filter (\<lambda>r. r > 0) ys)"
    by (rule mset_eq_length)
  have s: "sum_list xs = sum_list ys"
    using assms by (metis sum_mset_sum_list)
  show "win_rate_of xs = win_rate_of ys" by (simp add: win_rate_of_def f len)
  show "avg_ret_of xs = avg_ret_of ys" by (simp add: avg_ret_of_def s len)
qed

lemma panel_returns:
  assumes "mset ids = mset [0..<length meta]"
  shows "mset (map future_r (map (panel_of vs meta) ids)) =
         mset (map (\<lambda>m. future_return m * 100) meta)"
proof -
  have "map future_r (map (panel_of vs meta) ids) = map (\<lambda>i. future_return (meta ! i) * 100) ids"
    by (simp add: panel_of_def comp_def)
  then have "mset (map future_r (map (panel_of vs meta) ids)) =
             image_mset (\<lambda>i. future_return (meta ! i) * 100) (mset ids)"
    by (simp only: mset_map)
  also have "\<dots> = mset (map (\<lambda>i. future_return (meta ! i) * 100) [0..<length meta])"
    unfolding assms by simp
  also have "map (\<lambda>i. future_return (meta ! i) * 100) [0..<length meta] =
             map (\<lambda>m. future_return m * 100) meta"
    by (rule nth_equalityI) simp_all
  finally show ?thesis .
qed

lemma stats_of_table:
  "win_rate_of (map (\<lambda>m. future_return m * 100) meta) =
     real (length (filter (\<lambda>m. 0 < future_return m) meta)) / real (length meta) * 100"
  "avg_ret_of (map (\<lambda>m. future_return m * 100) meta) =
     sum_list (map future_return meta) / real (length meta) * 100"
proof -
  have "filter (\<lambda>r. r > 0) (map (\<lambda>m. future_return m * 100) meta) =
        map (\<lambda>m. future_return m * 100) (filter (\<lambda>m. 0 < future_return m) meta)"
    by (simp add: filter_map comp_def zero_less_mult_iff)
  then show "win_rate_of (map (\<lambda>m. future_return m * 100) meta) =
     real (length (filter (\<lambda>m. 0 < future_return m) meta)) / real (length meta) * 100"
    by (simp add: win_rate_of_def)
  have "sum_list (map (\<lambda>m. future_return m * 100) meta) = sum_list (map future_return meta) * 100"
    by (simp add: sum_list_mult_const)
  then show "avg_ret_of (map (\<lambda>m. future_return m * 100) meta) =
     sum_list (map future_return meta) / real (length meta) * 100"
    by (simp add: avg_ret_of_def)
qed

lemma search_pattern_small:
  assumes "map_of fs INDEX_FILE = Some (Faiss_index WINDOW_SIZE vs)"
    and "map_of fs META_FILE = Some (Meta_table meta)"
    and "map_of fs DATASET_FILE = Some (Price_table df)"
    and "WINDOW_SIZE \<le> length (filter (\<lambda>r. symbol r = t) df)"
    and "length meta = length vs" and "0 < length vs" and "length vs < TOP_K"
  shows "search_pattern e fs t =
     search_and_report e fs \<lparr>dim = WINDOW_SIZE, vectors = vs\<rparr>
       (map close (drop (length (filter (\<lambda>r. symbol r = t) df) - WINDOW_SIZE)
                        (filter (\<lambda>r. symbol r = t) df)))
       [Starting t, Loading_index, Loading_metadata, Fetching_pattern]"
  using assms(1-4)
  by (simp add: search_pattern_def path_exists_def read_index_def Let_def)

lemma small_index_run:
  assumes "map_of fs INDEX_FILE = Some (Faiss_index WINDOW_SIZE vs)"
    and "map_of fs META_FILE = Some (Meta_table meta)"
    and "map_of fs DATASET_FILE = Some (Price_table df)"
    and "WINDOW_SIZE \<le> length (filter (\<lambda>r. symbol r = t) df)"
    and "length meta = length vs" and "0 < length vs" and "length vs < TOP_K"
  shows "search_pattern e fs t =
     \<lparr>printed = [Starting t, Loading_index, Loading_metadata, Fetching_pattern] @
         [Scanning, Fetching_history, Results_header,
          Forecast
            (win_rate_of (map future_r (map (panel_of vs meta)
               (map snd (scored_rows \<lparr>dim = WINDOW_SIZE, vectors = vs\<rparr>
                  (map (astype_float32 e) (query_norm (map close
                     (drop (length (filter (\<lambda>r. symbol r = t) df) - WINDOW_SIZE)
                        (filter (\<lambda>r. symbol r = t) df))))))))))
            (avg_ret_of (map future_r (map (panel_of vs meta)
               (map snd (scored_rows \<lparr>dim = WINDOW_SIZE, vectors = vs\<rparr>
                  (map (astype_float32 e) (query_norm (map close
                     (drop (length (filter (\<lambda>r. symbol r = t) df) - WINDOW_SIZE)
                        (filter (\<lambda>r. symbol r = t) df))))))))))],
      panels = map (panel_of vs meta)
               (map snd (scored_rows \<lparr>dim = WINDOW_SIZE, vectors = vs\<rparr>
                  (map (astype_float32 e) (query_norm (map close
                     (drop (length (filter (\<lambda>r. symbol r = t) df) - WINDOW_SIZE)
                        (filter (\<lambda>r. symbol r = t) df))))))),
      result = Returns_None\<rparr>"
proof -
  have lp: "length (map close (drop (length (filter (\<lambda>r. symbol r = t) df) - WINDOW_SIZE)
                        (filter (\<lambda>r. symbol r = t) df))) = WINDOW_SIZE"
    using assms(4) by simp
  show ?thesis
    unfolding search_pattern_small [OF assms]
    by (rule search_and_report_small [OF assms(2) lp assms(5-7)])
qed

lemma small_index_forecast:
  assumes "map_of fs INDEX_FILE = Some (Faiss_index WINDOW_SIZE vs)"
    and "map_of fs META_FILE = Some (Meta_table meta)"
    and "map_of fs DATASET_FILE = Some (Price_table df)"
    and "WINDOW_SIZE \<le> length (filter (\<lambda>r. symbol r = t) df)"
    and "length meta = length vs" and "0 < length vs" and "length vs < TOP_K"
  shows "last (printed (search_pattern e fs t)) =
       Forecast
         (real (length (filter (\<lambda>m. 0 < future_return m) meta)) / real (length vs) * 100)
         (sum_list (map future_return meta) / real (length vs) * 100)"
proof -
  let ?idx = "\<lparr>dim = WINDOW_SIZE, vectors = vs\<rparr>"
  let ?m = "filter (\<lambda>r. symbol r = t) df"
  let ?qv = "map (astype_float32 e) (query_norm (map close (drop (length ?m - WINDOW_SIZE) ?m)))"
  let ?ids = "map snd (scored_rows ?idx ?qv)"
  let ?ps = "map (panel_of vs meta) ?ids"
  have perm: "mset ?ids = mset [0..<length meta]"
    using snd_scored_rows [of ?idx ?qv] assms(5) by (simp add: ntotal_def)
  have wr: "win_rate_of (map future_r ?ps) =
      real (length (filter (\<lambda>m. 0 < future_return m) meta)) / real (length vs) * 100"
    using stats_mset_cong(1) [OF panel_returns [OF perm, of vs]] stats_of_table(1) [of meta] assms(5)
    by simp
  have av: "avg_ret_of (map future_r ?ps) = sum_list (map future_return meta) / real (length vs) * 100"
    using stats_mset_cong(2) [OF panel_returns [OF perm, of vs]] stats_of_table(2) [of meta] assms(5)
    by simp
  have "last (printed (search_pattern e fs t)) =
      Forecast (win_rate_of (map future_r ?ps)) (avg_ret_of (map future_r ?ps))"
    unfolding small_index_run [OF assms] by simp
  then show ?thesis unfolding wr av .
qed

text \<open>
  Claim C8, amended. When both artifacts exist with the same positive row count \<open>N\<close>,
  smaller than \<open>K = 9\<close>, the index has the window's dimension and the target has at least
  \<open>W\<close> rows of history, the query returns normally with exactly \<open>N\<close> panels, in the
  order of the search's first \<open>N\<close> labels, each holding the metadata and the vector of its
  row; the printed statistics are percentages over those \<open>N\<close> neighbours: the win rate is
  100 times the fraction of positive outcomes and the average is 100 times their mean.
\<close>

theorem query_on_small_index:
  assumes "map_of fs INDEX_FILE = Some (Faiss_index WINDOW_SIZE vs)"
    and "map_of fs META_FILE = Some (Meta_table meta)"
    and "map_of fs DATASET_FILE = Some (Price_table df)"
    and "WINDOW_SIZE \<le> length (filter (\<lambda>r. symbol r = t) df)"
    and "length meta = length vs" and "0 < length vs" and "length vs < TOP_K"
  shows "result (search_pattern e fs t) = Returns_None \<and>
     length (panels (search_pattern e fs t)) = length vs \<and>
     (\<exists>D I. index_search \<lparr>dim = WINDOW_SIZE, vectors = vs\<rparr>
              (map (astype_float32 e) (query_norm (map close
                 (drop (length (filter (\<lambda>r. symbol r = t) df) - WINDOW_SIZE)
                    (filter (\<lambda>r. symbol r = t) df))))) TOP_K = Inr (D, I) \<and>
            map (\<lambda>p. int (panel_row_id p)) (panels (search_pattern e fs t)) =
              take (length vs) I) \<and>
     (\<forall>p \<in> set (panels (search_pattern e fs t)).
        panel_row_id p < length vs \<and> p = panel_of vs meta (panel_row_id p)) \<and>
     last (printed (search_pattern e fs t)) =
       Forecast
         (real (length (filter (\<lambda>m. 0 < future_return m) meta)) / real (length vs) * 100)
         (sum_list (map future_return meta) / real (length vs) * 100)"
proof -
  let ?idx = "\<lparr>dim = WINDOW_SIZE, vectors = vs\<rparr>"
  let ?m = "filter (\<lambda>r. symbol r = t) df"
  let ?prices = "map close (drop (length ?m - WINDOW_SIZE) ?m)"
  let ?qv = "map (astype_float32 e) (query_norm ?prices)"
  let ?ids = "map snd (scored_rows ?idx ?qv)"
  let ?ps = "map (panel_of vs meta) ?ids"
  have lp: "length ?prices = WINDOW_SIZE" using assms(4) by simp
  note run = small_index_run [OF assms, of e]
  have perm: "mset ?ids = mset [0..<length meta]"
    using snd_scored_rows [of ?idx ?qv] assms(5) by (simp add: ntotal_def)
  have len: "length ?ids = length vs"
    by (simp add: length_scored_rows ntotal_def)
  have setids: "set ?ids = {0..<length vs}"
    using perm assms(5) by (metis atLeastLessThan_upt mset_eq_setD)
  have lq: "length ?qv = WINDOW_SIZE" using lp by (simp add: query_norm_def)
  have srch: "index_search ?idx ?qv TOP_K =
      Inr (map fst (scored_rows ?idx ?qv) @ replicate (TOP_K - length vs) FLT_MAX,
           map int ?ids @ replicate (TOP_K - length vs) (- 1))"
    by (rule search_small_index [OF lq assms(7)])
  have ranked: "map (\<lambda>p. int (panel_row_id p)) ?ps =
      take (length vs) (map int ?ids @ replicate (TOP_K - length vs) (- 1))"
    using len by (simp add: panel_of_def comp_def)
  have each: "panel_row_id p < length vs \<and> p = panel_of vs meta (panel_row_id p)"
    if "p \<in> set ?ps" for p
  proof -
    from that obtain i where i: "i \<in> set ?ids" "p = panel_of vs meta i" by auto
    then have "panel_row_id p = i" by (simp add: panel_of_def)
    with i setids show ?thesis by simp
  qed
  have r1: "result (search_pattern e fs t) = Returns_None"
    unfolding run by simp
  have r2: "panels (search_pattern e fs t) = ?ps"
    unfolding run by simp
  have c1: "length (panels (search_pattern e fs t)) = length vs"
    unfolding r2 by (simp add: length_scored_rows ntotal_def)
  have c2: "\<exists>D I. index_search ?idx ?qv TOP_K = Inr (D, I) \<and>
            map (\<lambda>p. int (panel_row_id p)) (panels (search_pattern e fs t)) = take (length vs) I"
    unfolding r2 using srch ranked by blast
  have c3: "\<forall>p \<in> set (panels (search_pattern e fs t)).
        panel_row_id p < length vs \<and> p = panel_of vs meta (panel_row_id p)"
    unfolding r2 using each by blast
  note c4 = small_index_forecast [OF assms, of e]
  from r1 c1 c2 c3 c4 show ?thesis by blast
qed

lemma three_row_dir_files:
  "map_of three_row_dir INDEX_FILE =
     Some (Faiss_index WINDOW_SIZE [replicate 30 0, replicate 30 1, replicate 30 2])"
  "map_of three_row_dir META_FILE = Some (Meta_table
         [\<lparr>meta_symbol = ''AAA'', date = 29, future_return = 1 / 10\<rparr>,
          \<lparr>meta_symbol = ''BBB'', date = 29, future_return = - 1 / 5\<rparr>,
          \<lparr>meta_symbol = ''CCC'', date = 29, future_return = 3 / 10\<rparr>])"
  "map_of three_row_dir DATASET_FILE = Some (Price_table (flat_series ''VCB.VN''))"
  by (simp_all add: three_row_dir_def WINDOW_SIZE_def INDEX_FILE_def META_FILE_def DATASET_FILE_def)

lemma enough_history:
  "WINDOW_SIZE \<le> length (filter (\<lambda>r. symbol r = ''VCB.VN'') (flat_series ''VCB.VN''))"
  by (simp add: filter_flat_series length_flat_series WINDOW_SIZE_def)

theorem query_on_small_index_witness:
  "map_of three_row_dir INDEX_FILE =
     Some (Faiss_index WINDOW_SIZE [replicate 30 0, replicate 30 1, replicate 30 2]) \<and>
   length [replicate 30 (0::real), replicate 30 1, replicate 30 2] < TOP_K \<and>
   result (search_pattern (quiet_env []) three_row_dir ''VCB.VN'') = Returns_None \<and>
   length (panels (search_pattern (quiet_env []) three_row_dir ''VCB.VN'')) = 3 \<and>
   last (printed (search_pattern (quiet_env []) three_row_dir ''VCB.VN'')) =
     Forecast (200 / 3) (20 / 3)"
proof -
  have k: "length [replicate 30 (0::real), replicate 30 1, replicate 30 2] < TOP_K"
    by (simp add: TOP_K_def)
  from query_on_small_index [OF three_row_dir_files enough_history _ _ k, of "quiet_env []"]
    three_row_dir_files(1) k
  show ?thesis by simp
qed

lemma empty_index_run:
  "result (search_pattern e empty_index_dir ''VCB.VN'') = Raises ZeroDivisionError"
proof -
  have "length (drop (length (flat_series ''VCB.VN'') - WINDOW_SIZE) (flat_series ''VCB.VN'')) =
        WINDOW_SIZE"
    by (simp add: length_flat_series WINDOW_SIZE_def)
  then show ?thesis
    by (simp add: search_pattern_def empty_index_dir_def path_exists_def read_index_def
        fixed_names_differ fixed_names_differ [symmetric] filter_flat_series Let_def
        search_and_report_def index_search_def ntotal_def query_norm_def
        WINDOW_SIZE_def length_flat_series TOP_K_def)
qed

text \<open>
  Claim C8 as stated fails in two ways. With an empty index and an empty table (\<open>N = 0\<close>,
  smaller than \<open>K\<close>) the query raises \<^verbatim>\<open>ZeroDivisionError\<close> at line 108. With the three
  rows of the specification's scenario, outcomes 0.1, -0.2 and 0.3, the fraction of
  positive outcomes is 2/3 and their mean is 1/15, but the query reports 200/3 and 20/3.
\<close>

theorem statistics_are_percentages:
  "result (search_pattern (quiet_env []) empty_index_dir ''VCB.VN'') = Raises ZeroDivisionError \<and>
   last (printed (search_pattern (quiet_env []) three_row_dir ''VCB.VN'')) =
     Forecast (200 / 3) (20 / 3) \<and>
   real (length (filter (\<lambda>m. 0 < future_return m)
       [\<lparr>meta_symbol = ''AAA'', date = 29, future_return = 1 / 10\<rparr>,
        \<lparr>meta_symbol = ''BBB'', date = 29, future_return = - 1 / 5\<rparr>,
        \<lparr>meta_symbol = ''CCC'', date = 29, future_return = 3 / 10\<rparr>])) / 3 = 2 / 3 \<and>
   sum_list (map future_return
       [\<lparr>meta_symbol = ''AAA'', date = 29, future_return = 1 / 10\<rparr>,
        \<lparr>meta_symbol = ''BBB'', date = 29, future_return = - 1 / 5\<rparr>,
        \<lparr>meta_symbol = ''CCC'', date = 29, future_return = 3 / 10\<rparr>]) / 3 = 1 / 15 \<and>
   last (printed (search_pattern (quiet_env []) three_row_dir ''VCB.VN'')) \<noteq>
     Forecast (2 / 3) (1 / 15)"
proof -
  have k: "length [replicate 30 (0::real), replicate 30 1, replicate 30 2] < TOP_K"
    by (simp add: TOP_K_def)
  have "last (printed (search_pattern (quiet_env []) three_row_dir ''VCB.VN'')) =
     Forecast (200 / 3) (20 / 3)"
    using small_index_forecast [OF three_row_dir_files enough_history _ _ k, of "quiet_env []"]
    by simp
  with empty_index_run [of "quiet_env []"] show ?thesis by simp
qed

section \<open>The checks before the search\<close>

lemma missing_artifact_run:
  assumes "\<not> path_exists fs INDEX_FILE \<or> \<not> path_exists fs META_FILE"
  shows "search_pattern e fs t =
     \<lparr>printed = [Starting t, No_index_yet], panels = [], result = Returns_None\<rparr>"
  using assms by (auto simp: search_pattern_def)

lemma short_history_run:
  assumes "path_exists fs INDEX_FILE" and "path_exists fs META_FILE"
    and "read_index fs INDEX_FILE = Inr idx"
    and "map_of fs DATASET_FILE = Some (Price_table df)"
    and "length (filter (\<lambda>r. symbol r = t) df) < WINDOW_SIZE"
  shows "search_pattern e fs t =
     \<lparr>printed = [Starting t, Loading_index, Loading_metadata, Fetching_pattern,
                  Not_enough_data t],
      panels = [], result = Returns_None\<rparr>"
  using assms by (simp add: search_pattern_def Let_def)

text \<open>
  Claim C9, amended. If the index file or the metadata table is absent, the query prints
  that there is no index yet and returns \<^verbatim>\<open>None\<close>. If both exist, the index loads and
  the price table is readable but holds fewer than \<open>W\<close> rows of the target symbol, it
  prints that the data is not enough and returns \<^verbatim>\<open>None\<close>. In both cases nothing is
  raised, the two outcomes differ in the printed message only, and no search is performed.
\<close>

theorem query_early_returns:
  "(\<not> path_exists fs INDEX_FILE \<or> \<not> path_exists fs META_FILE \<longrightarrow>
      search_pattern e fs t =
        \<lparr>printed = [Starting t, No_index_yet], panels = [], result = Returns_None\<rparr>) \<and>
   (path_exists fs INDEX_FILE \<and> path_exists fs META_FILE \<and>
    read_index fs INDEX_FILE = Inr idx \<and>
    map_of fs DATASET_FILE = Some (Price_table df) \<and>
    length (filter (\<lambda>r. symbol r = t) df) < WINDOW_SIZE \<longrightarrow>
      search_pattern e fs t =
        \<lparr>printed = [Starting t, Loading_index, Loading_metadata, Fetching_pattern,
                     Not_enough_data t],
         panels = [], result = Returns_None\<rparr> \<and>
      Scanning \<notin> set (printed (search_pattern e fs t)))"
proof (intro conjI impI)
  assume "\<not> path_exists fs INDEX_FILE \<or> \<not> path_exists fs META_FILE"
  then show "search_pattern e fs t =
        \<lparr>printed = [Starting t, No_index_yet], panels = [], result = Returns_None\<rparr>"
    by (rule missing_artifact_run)
next
  assume a: "path_exists fs INDEX_FILE \<and> path_exists fs META_FILE \<and>
    read_index fs INDEX_FILE = Inr idx \<and>
    map_of fs DATASET_FILE = Some (Price_table df) \<and>
    length (filter (\<lambda>r. symbol r = t) df) < WINDOW_SIZE"
  then show r: "search_pattern e fs t =
        \<lparr>printed = [Starting t, Loading_index, Loading_metadata, Fetching_pattern,
                     Not_enough_data t],
         panels = [], result = Returns_None\<rparr>"
    using short_history_run [of fs idx df t e] by blast
  show "Scanning \<notin> set (printed (search_pattern e fs t))"
    unfolding r by simp
qed

lemma thin_history_dir_facts:
  "path_exists thin_history_dir INDEX_FILE" "path_exists thin_history_dir META_FILE"
  "read_index thin_history_dir INDEX_FILE = Inr \<lparr>dim = 30, vectors = [replicate 30 0]\<rparr>"
  "map_of thin_history_dir DATASET_FILE = Some (Price_table (take 29 (flat_series ''VCB.VN'')))"
  "length (filter (\<lambda>r. symbol r = ''VCB.VN'') (take 29 (flat_series ''VCB.VN''))) < WINDOW_SIZE"
proof -
  show "path_exists thin_history_dir INDEX_FILE" "path_exists thin_history_dir META_FILE"
    "read_index thin_history_dir INDEX_FILE = Inr \<lparr>dim = 30, vectors = [replicate 30 0]\<rparr>"
    "map_of thin_history_dir DATASET_FILE = Some (Price_table (take 29 (flat_series ''VCB.VN'')))"
    by (simp_all add: thin_history_dir_def path_exists_def read_index_def
        fixed_names_differ fixed_names_differ [symmetric])
  have "length (filter (\<lambda>r. symbol r = ''VCB.VN'') (take 29 (flat_series ''VCB.VN''))) \<le>
        length (take 29 (flat_series ''VCB.VN''))"
    by (rule length_filter_le)
  then show "length (filter (\<lambda>r. symbol r = ''VCB.VN'') (take 29 (flat_series ''VCB.VN''))) < WINDOW_SIZE"
    by (simp add: length_flat_series WINDOW_SIZE_def)
qed

theorem query_early_returns_witness:
  "\<not> path_exists [] INDEX_FILE \<and>
   search_pattern (quiet_env []) [] ''VCB.VN'' =
     \<lparr>printed = [Starting ''VCB.VN'', No_index_yet], panels = [], result = Returns_None\<rparr> \<and>
   path_exists thin_history_dir INDEX_FILE \<and> path_exists thin_history_dir META_FILE \<and>
   length (filter (\<lambda>r. symbol r = ''VCB.VN'') (take 29 (flat_series ''VCB.VN''))) < WINDOW_SIZE \<and>
   search_pattern (quiet_env []) thin_history_dir ''VCB.VN'' =
     \<lparr>printed = [Starting ''VCB.VN'', Loading_index, Loading_metadata, Fetching_pattern,
                  Not_enough_data ''VCB.VN''],
      panels = [], result = Returns_None\<rparr>"
proof -
  have a: "\<not> path_exists [] INDEX_FILE" by (simp add: path_exists_def)
  from query_early_returns [of "[]" "quiet_env []" "''VCB.VN''"] a
  have one: "search_pattern (quiet_env []) [] ''VCB.VN'' =
     \<lparr>printed = [Starting ''VCB.VN'', No_index_yet], panels = [], result = Returns_None\<rparr>"
    by simp
  from query_early_returns [of thin_history_dir "quiet_env []" "''VCB.VN''"
      "\<lparr>dim = 30, vectors = [replicate 30 0]\<rparr>" "take 29 (flat_series ''VCB.VN'')"]
    thin_history_dir_facts
  have two: "search_pattern (quiet_env []) thin_history_dir ''VCB.VN'' =
     \<lparr>printed = [Starting ''VCB.VN'', Loading_index, Loading_metadata, Fetching_pattern,
                  Not_enough_data ''VCB.VN''],
      panels = [], result = Returns_None\<rparr>"
    by simp
  from a one two thin_history_dir_facts show ?thesis by simp
qed

text \<open>
  Claim C9 as stated fails: with no artifact in the directory, and with both artifacts but
  29 rows of history, the call does not end in a failure of any type. It returns normally,
  with the same result as a query that succeeds.
\<close>

theorem early_returns_are_not_failures:
  "\<not> path_exists [] INDEX_FILE \<and>
   \<not> ends_in_failure (search_pattern (quiet_env []) [] ''VCB.VN'') \<and>
   length (filter (\<lambda>r. symbol r = ''VCB.VN'') (take 29 (flat_series ''VCB.VN''))) < WINDOW_SIZE \<and>
   \<not> ends_in_failure (search_pattern (quiet_env []) thin_history_dir ''VCB.VN'') \<and>
   result (search_pattern (quiet_env []) [] ''VCB.VN'') =
     result (search_pattern (quiet_env []) thin_history_dir ''VCB.VN'') \<and>
   result (search_pattern (quiet_env []) [] ''VCB.VN'') =
     result (search_pattern (quiet_env []) three_row_dir ''VCB.VN'')"
proof -
  have a: "\<not> path_exists [] INDEX_FILE" by (simp add: path_exists_def)
  have one: "result (search_pattern (quiet_env []) [] ''VCB.VN'') = Returns_None"
    using missing_artifact_run [of "[]" "quiet_env []" "''VCB.VN''"] a by simp
  have two: "result (search_pattern (quiet_env []) thin_history_dir ''VCB.VN'') = Returns_None"
    using short_history_run [OF thin_history_dir_facts, of "quiet_env []"] by simp
  have k: "length [replicate 30 (0::real), replicate 30 1, replicate 30 2] < TOP_K"
    by (simp add: TOP_K_def)
  have three: "result (search_pattern (quiet_env []) three_row_dir ''VCB.VN'') = Returns_None"
    using small_index_run [OF three_row_dir_files enough_history _ _ k, of "quiet_env []"]
    by simp
  from a one two three thin_history_dir_facts(5) show ?thesis
    by (simp add: ends_in_failure_def)
qed

section \<open>A build whose shard cannot be written\<close>

text \<open>
  The vectors of a batch are added to the index at line 99, before the shard is written
  inside the \<^verbatim>\<open>try\<close> of lines 109 to 117. When the write fails the build goes on:
  the index keeps the vectors and no metadata row exists for them.
\<close>

lemma fold_write_shard_failing:
  "(\<And>j. shard_write_fails e j) \<Longrightarrow> fold (write_shard e rows) items fs = fs"
  by (induction items arbitrary: fs) (simp_all add: write_shard_def)

lemma failed_shard_write_leaves_vectors_without_rows:
  "read_index (build_index failing_shard_env single_symbol_dir) INDEX_FILE =
     Inr \<lparr>dim = WINDOW_SIZE, vectors = [query_norm (replicate 30 1)]\<rparr> \<and>
   \<not> path_exists (build_index failing_shard_env single_symbol_dir) META_FILE"
proof -
  let ?rows = "flat_series ''VCB.VN''"
  have d: "map_of single_symbol_dir DATASET_FILE = Some (Price_table ?rows)"
    by (simp add: single_symbol_dir_def)
  have recs: "build_records failing_shard_env ?rows =
     [(query_norm (replicate 30 1), \<lparr>meta_symbol = ''VCB.VN'', date = 29, future_return = 0\<rparr>)]"
    by (simp add: build_records_def adding_batches_def symbol_chunks_one failing_shard_env_def
        quiet_env_def batch_results_flat batch_records_def result_records_def result_rows_def)
  have fls: "files (run_batches failing_shard_env ?rows single_symbol_dir) = single_symbol_dir"
    unfolding run_batches_eq
    by (simp add: fold_write_shard_failing failing_shard_env_def single_symbol_dir_def
        clean_start_fresh)
  have i: "read_index (build_index failing_shard_env single_symbol_dir) INDEX_FILE =
     Inr \<lparr>dim = WINDOW_SIZE, vectors = [query_norm (replicate 30 1)]\<rparr>"
    unfolding read_index_build [OF d] by (simp add: run_batches_eq recs)
  have g: "glob_parts single_symbol_dir = []"
    by (simp add: single_symbol_dir_def glob_parts_def not_part_file_fixed)
  have "build_index failing_shard_env single_symbol_dir =
        write_index (index (run_batches failing_shard_env ?rows single_symbol_dir)) INDEX_FILE
          single_symbol_dir"
    using finish_build_no_shard [OF g, of failing_shard_env
        "index (run_batches failing_shard_env ?rows single_symbol_dir)"
        "total_vectors (run_batches failing_shard_env ?rows single_symbol_dir)"] fls
    by (simp add: build_index_def d) (metis build_state.surjective old.unit.exhaust)
  then have "\<not> path_exists (build_index failing_shard_env single_symbol_dir) META_FILE"
    by (simp add: path_exists_def write_index_def map_of_write_file single_symbol_dir_def
        fixed_names_differ fixed_names_differ [symmetric])
  with i show ?thesis by simp
qed

section \<open>Builds of at most ten batches\<close>

lemma of_char_digit: "n < 10 \<Longrightarrow> of_char (''0123456789'' ! n) = (48 + n :: nat)"
proof -
  assume "n < 10"
  then have "n \<in> {0, 1, 2, 3, 4, 5, 6, 7, 8, 9}" by auto
  then show ?thesis by auto
qed

lemma append_less_append: "(xs @ ys < xs @ zs) = (ys < (zs :: 'a :: linorder list))"
  by (induction xs) simp_all

lemma part_filename_mono:
  assumes "i < j" and "j < 10"
  shows "part_filename i < part_filename j"
proof -
  have i: "str_nat i = [''0123456789'' ! i]" and j: "str_nat j = [''0123456789'' ! j]"
    using assms by (simp_all add: str_nat.simps)
  have "i < 10" using assms by simp
  then have "(of_char (''0123456789'' ! i) :: nat) < of_char (''0123456789'' ! j)"
    unfolding of_char_digit [OF \<open>i < 10\<close>] of_char_digit [OF assms(2)] using assms(1) by simp
  then have "''0123456789'' ! i < ''0123456789'' ! j"
    by (simp only: less_char_def)
  then show ?thesis
    unfolding part_filename_def i j append_less_append by simp
qed

lemma length_symbol_chunks:
  "length (symbol_chunks xs) = (length xs + BATCH_SIZE - 1) div BATCH_SIZE"
  by (simp add: symbol_chunks_eq)

lemma adding_indices:
  "sorted_wrt (<) (map fst (adding_batches e rows))"
  "j \<in> set (map fst (adding_batches e rows)) \<Longrightarrow> j < length (symbol_chunks (unique_order e))"
proof -
  let ?en = "enumerate 0 (symbol_chunks (unique_order e))"
  have m: "map fst ?en = [0..<length (symbol_chunks (unique_order e))]"
    by (simp add: map_fst_enumerate)
  have "sorted_wrt (<) (map fst ?en)" unfolding m by (simp add: sorted_wrt_upt)
  then have "sorted_wrt (\<lambda>a b. fst a < fst b) ?en" by (simp only: sorted_wrt_map)
  then have "sorted_wrt (\<lambda>a b. fst a < fst b) (adding_batches e rows)"
    unfolding adding_batches_def by (rule sorted_wrt_filter)
  then show "sorted_wrt (<) (map fst (adding_batches e rows))" by (simp only: sorted_wrt_map)
  assume "j \<in> set (map fst (adding_batches e rows))"
  then show "j < length (symbol_chunks (unique_order e))"
    by (auto simp: adding_batches_def in_set_enumerate_eq)
qed

lemma map_of_fold_write_shard:
  assumes "\<And>j. \<not> shard_write_fails e j" and "distinct (map fst items)"
  shows "map_of (fold (write_shard e rows) items fs) p =
     (case map_of (map (shard_of e rows) items) p of
        Some c \<Rightarrow> Some c
      | None \<Rightarrow> map_of fs p)"
  using assms(2)
proof (induction items arbitrary: fs)
  case Nil
  show ?case by simp
next
  case (Cons item items)
  have w: "write_shard e rows item fs =
      write_file (part_filename (fst item)) (Meta_table (map snd (batch_records e rows (snd item)))) fs"
    using assms(1) by (simp add: write_shard_def)
  have notin: "map_of (map (shard_of e rows) items) (part_filename (fst item)) = None"
  proof -
    have "part_filename (fst item) \<notin> fst ` set (map (shard_of e rows) items)"
      using Cons.prems by (auto simp: shard_of_def image_iff dest: part_filename_inj)
    then show ?thesis by (simp add: map_of_eq_None_iff)
  qed
  have h: "shard_of e rows item =
      (part_filename (fst item), Meta_table (map snd (batch_records e rows (snd item))))"
    by (simp add: shard_of_def)
  from Cons.prems have "distinct (map fst items)" by simp
  from Cons.IH [OF this, of "write_shard e rows item fs"] notin
  show ?case
    by (auto simp: w map_of_write_file h split: option.splits)
qed

lemma concat_tables_map:
  assumes "\<And>x. x \<in> set xs \<Longrightarrow> f x = Some (Meta_table (g x))"
  shows "concat_tables (map f xs) = Some (concat (map g xs))"
  using assms by (induction xs) simp_all

lemma at_most_ten_chunks:
  assumes "length xs \<le> 10 * BATCH_SIZE"
  shows "length (symbol_chunks xs) \<le> 10"
  using assms unfolding length_symbol_chunks by (simp add: BATCH_SIZE_def)

text \<open>
  Claim C1, amended. For every completed build that adds at least one vector, over at most
  5000 symbols (at most ten batches), in which no shard write and not the merge fails, the
  index and the metadata table have the same row count and correspond row by row: the
  metadata row at a position is the one produced with the vector stored there. This
  includes builds in which batches failed to load and were skipped: they leave no gap.
\<close>

theorem small_build_aligned:
  assumes "map_of fs DATASET_FILE = Some (Price_table rows)"
    and "length (unique_order e) \<le> 10 * BATCH_SIZE"
    and "\<And>j. \<not> shard_write_fails e j" and "\<not> merge_fails e"
    and "build_records e rows \<noteq> []"
  shows "artifacts_aligned (build_index e fs) (build_records e rows)"
proof -
  let ?A = "adding_batches e rows"
  let ?st = "run_batches e rows fs"
  let ?fs3 = "write_index (index ?st) INDEX_FILE (files ?st)"
  let ?shards = "map (shard_of e rows) ?A"
  let ?names = "map part_filename (map fst ?A)"
  have keys: "map fst ?shards = ?names"
    by (simp add: shard_of_def comp_def)
  have srt: "sorted_wrt (<) (map fst ?A)" by (rule adding_indices(1))
  then have dist: "distinct (map fst ?A)"
    by (simp only: strict_sorted_iff)
  have small: "j < 10" if "j \<in> set (map fst ?A)" for j
    using adding_indices(2) [OF that] at_most_ten_chunks [OF assms(2)] by simp
  have "sorted_wrt (\<lambda>a b. part_filename a < part_filename b) (map fst ?A)"
    using srt
  proof (rule sorted_wrt_mono_rel [rotated])
    fix a b assume "a \<in> set (map fst ?A)" "b \<in> set (map fst ?A)" "a < b"
    then show "part_filename a < part_filename b"
      using small [of b] by (intro part_filename_mono)
  qed
  then have names_strict: "sorted_wrt (<) ?names"
    by (simp only: sorted_wrt_map)
  then have names_sorted: "sorted ?names" and names_distinct: "distinct ?names"
    by (simp_all only: strict_sorted_iff)
  have files: "map_of (files ?st) p =
      (case map_of ?shards p of Some c \<Rightarrow> Some c | None \<Rightarrow> map_of (clean_start fs) p)" for p
    unfolding run_batches_eq build_state.simps
    by (rule map_of_fold_write_shard [OF assms(3) dist])
  have fs3: "map_of ?fs3 p = map_of (files ?st) p" if "is_part_file p" for p
    using that not_part_file_fixed(1)
    by (auto simp: write_index_def map_of_write_file)
  have globset: "set (glob_parts ?fs3) = set ?names"
  proof -
    have "(map_of ?fs3 p \<noteq> None) = (p \<in> set ?names)" if "is_part_file p" for p
    proof -
      have "(map_of ?shards p \<noteq> None) = (p \<in> set (map fst ?shards))"
        by (simp add: map_of_eq_None_iff image_image)
      then show ?thesis
        unfolding fs3 [OF that] files keys using that
        by (auto simp: map_of_clean_start split: option.splits)
    qed
    moreover have "is_part_file p" if "p \<in> set ?names" for p
      using that is_part_file_part_filename by auto
    ultimately show ?thesis unfolding set_glob_parts by blast
  qed
  have order: "sort (glob_parts ?fs3) = ?names"
  proof (rule sorted_distinct_set_unique)
    show "sorted (sort (glob_parts ?fs3))" by simp
    show "distinct (sort (glob_parts ?fs3))" by (simp add: distinct_glob_parts)
    show "sorted ?names" by (rule names_sorted)
    show "distinct ?names" by (rule names_distinct)
    show "set (sort (glob_parts ?fs3)) = set ?names" unfolding set_sort by (rule globset)
  qed
  have look: "map_of ?fs3 (part_filename (fst item)) =
      Some (Meta_table (map snd (batch_records e rows (snd item))))" if "item \<in> set ?A" for item
  proof -
    have "(part_filename (fst item), Meta_table (map snd (batch_records e rows (snd item))))
        \<in> set ?shards"
      using that by (auto simp: shard_of_def image_iff)
    moreover have "distinct (map fst ?shards)"
      unfolding keys by (rule names_distinct)
    ultimately have "map_of ?shards (part_filename (fst item)) =
        Some (Meta_table (map snd (batch_records e rows (snd item))))"
      by (simp only: map_of_eq_Some_iff)
    then show ?thesis
      unfolding fs3 [OF is_part_file_part_filename] files by simp
  qed
  have merged: "read_parquet_glob ?fs3 = Some (map snd (build_records e rows))"
  proof -
    have "concat_tables (map (\<lambda>item. map_of ?fs3 (part_filename (fst item))) ?A) =
          Some (concat (map (\<lambda>item. map snd (batch_records e rows (snd item))) ?A))"
      by (rule concat_tables_map) (rule look)
    moreover have "map (map_of ?fs3) ?names =
          map (\<lambda>item. map_of ?fs3 (part_filename (fst item))) ?A"
      by (simp add: comp_def)
    moreover have "concat (map (\<lambda>item. map snd (batch_records e rows (snd item))) ?A) =
          map snd (build_records e rows)"
      by (simp add: build_records_def map_concat comp_def)
    ultimately show ?thesis
      unfolding read_parquet_glob_def order by (simp add: comp_def)
  qed
  have "?A \<noteq> []" using assms(5) by (auto simp: build_records_def)
  then have "?names \<noteq> []" by simp
  then have nonempty: "glob_parts ?fs3 \<noteq> []"
    using globset by (metis set_empty)
  have bi: "build_index e fs =
      fold os_remove (glob_parts ?fs3)
        (write_file META_FILE (Meta_table (map snd (build_records e rows))) ?fs3)"
    using assms(1,4) nonempty
    by (simp add: build_index_def finish_build_def Let_def merged)
  have meta: "map_of (build_index e fs) META_FILE = Some (Meta_table (map snd (build_records e rows)))"
    unfolding bi map_of_fold_os_remove set_glob_parts
    using not_part_file_fixed(2) by (simp add: map_of_write_file)
  have idx: "map_of (build_index e fs) INDEX_FILE =
      Some (Faiss_index WINDOW_SIZE (map fst (build_records e rows)))"
    using assms(1) map_of_finish_build_index [of e ?st]
    by (simp add: build_index_def run_batches_eq)
  show ?thesis
    unfolding artifacts_aligned_def idx meta by simp
qed

lemma skip_first_build_records:
  "build_records skip_first_env split_table =
     [(query_norm (map (\<lambda>t. 1 + real t) [0..<30]),
       \<lparr>meta_symbol = ticker 500, date = 29, future_return = 1 / 6\<rparr>)]"
proof -
  have n: "(length (map ticker [0..<501]) + BATCH_SIZE - 1) div BATCH_SIZE = 2"
    by (simp add: BATCH_SIZE_def)
  have u: "[0..<2] = [0, 1]" by (simp add: upt_rec)
  show ?thesis
    unfolding build_records_def adding_batches_def skip_first_env_def forward_env_def
      quiet_env_def env.simps symbol_chunks_eq n enumerate_map_upt u
    using forward_chunk_results [of 0] forward_chunk_results [of 1]
    by (simp add: batch_records_def result_records_def result_rows_def)
qed

theorem small_build_aligned_witness:
  "map_of split_dir DATASET_FILE = Some (Price_table split_table) \<and>
   length (unique_order skip_first_env) \<le> 10 * BATCH_SIZE \<and>
   load_fails skip_first_env 0 \<and>
   \<not> merge_fails skip_first_env \<and>
   build_records skip_first_env split_table =
     [(query_norm (map (\<lambda>t. 1 + real t) [0..<30]),
       \<lparr>meta_symbol = ticker 500, date = 29, future_return = 1 / 6\<rparr>)] \<and>
   artifacts_aligned (build_index skip_first_env split_dir)
     [(query_norm (map (\<lambda>t. 1 + real t) [0..<30]),
       \<lparr>meta_symbol = ticker 500, date = 29, future_return = 1 / 6\<rparr>)]"
proof -
  have d: "map_of split_dir DATASET_FILE = Some (Price_table split_table)"
    by (simp add: split_dir_def)
  have l: "length (unique_order skip_first_env) \<le> 10 * BATCH_SIZE"
    by (simp add: skip_first_env_def forward_env_def quiet_env_def BATCH_SIZE_def)
  have s: "\<not> shard_write_fails skip_first_env j" for j
    by (simp add: skip_first_env_def forward_env_def quiet_env_def)
  have m: "\<not> merge_fails skip_first_env"
    by (simp add: skip_first_env_def forward_env_def quiet_env_def)
  have f: "load_fails skip_first_env 0"
    by (simp add: skip_first_env_def)
  have r: "build_records skip_first_env split_table \<noteq> []"
    by (simp add: skip_first_build_records)
  from small_build_aligned [OF d l s m r] d l f m show ?thesis
    by (simp add: skip_first_build_records)
qed

lemma zero_vector_build_not_aligned:
  "read_index (build_index (quiet_env [''VCB.VN'']) short_history_dir) INDEX_FILE =
     Inr \<lparr>dim = WINDOW_SIZE, vectors = []\<rparr> \<and>
   \<not> path_exists (build_index (quiet_env [''VCB.VN'']) short_history_dir) META_FILE \<and>
   \<not> artifacts_aligned (build_index (quiet_env [''VCB.VN'']) short_history_dir)
       (build_records (quiet_env [''VCB.VN'']) (take 34 (flat_series ''VCB.VN'')))"
proof -
  let ?rows = "take 34 (flat_series ''VCB.VN'')"
  let ?e = "quiet_env [''VCB.VN'']"
  have a: "map_of short_history_dir DATASET_FILE = Some (Price_table ?rows)"
    by (simp add: short_history_dir_def)
  have "batch_results ?rows batch = []" for batch
  proof (rule batch_results_empty)
    fix s
    have "length (filter (\<lambda>r. symbol r = s) ?rows) \<le> length ?rows" by (rule length_filter_le)
    then show "length (filter (\<lambda>r. symbol r = s) ?rows) < WINDOW_SIZE + PREDICT_HORIZON"
      by (simp add: length_flat_series WINDOW_SIZE_def PREDICT_HORIZON_def)
  qed
  then have recs: "build_records ?e ?rows = []"
    by (simp add: build_records_def adding_batches_def)
  have rb: "run_batches ?e ?rows short_history_dir =
      \<lparr>index = \<lparr>dim = WINDOW_SIZE, vectors = []\<rparr>, total_vectors = 0,
       files = clean_start short_history_dir\<rparr>"
    by (simp add: run_batches_eq recs no_vectors_no_adding_batch [OF recs])
  have bi: "build_index ?e short_history_dir =
      write_index \<lparr>dim = WINDOW_SIZE, vectors = []\<rparr> INDEX_FILE (clean_start short_history_dir)"
    using a by (simp add: build_index_def rb finish_build_no_shard glob_parts_clean_start)
  have idx: "read_index (build_index ?e short_history_dir) INDEX_FILE =
      Inr \<lparr>dim = WINDOW_SIZE, vectors = []\<rparr>"
    by (simp add: bi read_index_def write_index_def map_of_write_file)
  have meta: "map_of (build_index ?e short_history_dir) META_FILE = None"
    using fixed_names_differ(1)
    by (auto simp: bi write_index_def map_of_write_file map_of_clean_start)
  have "\<not> artifacts_aligned (build_index ?e short_history_dir) (build_records ?e ?rows)"
    unfolding artifacts_aligned_def meta
    by (simp split: option.splits file_content.splits)
  with idx meta show ?thesis by (simp add: path_exists_def)
qed

lemma failed_shard_write_not_aligned:
  "\<not> artifacts_aligned (build_index failing_shard_env single_symbol_dir)
       (build_records failing_shard_env (flat_series ''VCB.VN''))"
  using failed_shard_write_leaves_vectors_without_rows
  by (simp add: artifacts_aligned_def path_exists_def split: option.splits file_content.splits)

text \<open>
  Claim C1 as stated fails for three completed builds. A build that adds no vector writes
  an index of count 0 and leaves no metadata table. A build whose shard write fails keeps
  the vector in the index and leaves no metadata row for it. The build over eleven batches
  stores the vectors of \<open>S1000\<close> and \<open>S5000\<close> in that order, and their metadata rows in
  the opposite order.
\<close>

theorem completed_builds_out_of_step:
  "\<not> artifacts_aligned (build_index (quiet_env [''VCB.VN'']) short_history_dir)
       (build_records (quiet_env [''VCB.VN'']) (take 34 (flat_series ''VCB.VN''))) \<and>
   read_index (build_index (quiet_env [''VCB.VN'']) short_history_dir) INDEX_FILE =
     Inr \<lparr>dim = WINDOW_SIZE, vectors = []\<rparr> \<and>
   \<not> path_exists (build_index (quiet_env [''VCB.VN'']) short_history_dir) META_FILE \<and>
   \<not> artifacts_aligned (build_index failing_shard_env single_symbol_dir)
       (build_records failing_shard_env (flat_series ''VCB.VN'')) \<and>
   read_index (build_index failing_shard_env single_symbol_dir) INDEX_FILE =
     Inr \<lparr>dim = WINDOW_SIZE, vectors = [query_norm (replicate 30 1)]\<rparr> \<and>
   \<not> path_exists (build_index failing_shard_env single_symbol_dir) META_FILE \<and>
   \<not> artifacts_aligned (build_index wide_env wide_dir) (build_records wide_env wide_table) \<and>
   read_index (build_index wide_env wide_dir) INDEX_FILE =
     Inr \<lparr>dim = WINDOW_SIZE,
          vectors = [query_norm (replicate 30 1), query_norm (map (\<lambda>t. 1 + real t) [0..<30])]\<rparr> \<and>
   map_of (build_index wide_env wide_dir) META_FILE =
     Some (Meta_table [\<lparr>meta_symbol = ticker 5000, date = 29, future_return = 1 / 6\<rparr>,
                       \<lparr>meta_symbol = ticker 1000, date = 29, future_return = 0\<rparr>]) \<and>
   build_records wide_env wide_table =
     [(query_norm (replicate 30 1),
       \<lparr>meta_symbol = ticker 1000, date = 29, future_return = 0\<rparr>),
      (query_norm (map (\<lambda>t. 1 + real t) [0..<30]),
       \<lparr>meta_symbol = ticker 5000, date = 29, future_return = 1 / 6\<rparr>)]"
  using zero_vector_build_not_aligned failed_shard_write_not_aligned
    failed_shard_write_leaves_vectors_without_rows shard_merge_breaks_row_alignment
  by blast

end
